(* ===== verification/Prelude.thy ===== *)
theory Prelude
  imports Main "HOL-Library.Signed_Division"
begin

text \<open>
  What every component of the development shares.
  \<^item> Machine integers: Go's \<^verbatim>\<open>int64\<close> is an \<^typ>\<open>int\<close> kept in range by
    \<^verbatim>\<open>wrap64\<close>, which writes the two's-complement wrap-around out; \<^verbatim>\<open>in_i64\<close>
    says that a value is one an \<^verbatim>\<open>int64\<close> can hold.
    Division is \<^verbatim>\<open>sdiv\<close>, which truncates towards zero as Go does.
  \<^item> Time: a \<^verbatim>\<open>time.Time\<close> is the number of nanoseconds since Go's zero time, so
    \<^verbatim>\<open>IsZero\<close> is equality with 0; a \<^verbatim>\<open>time.Duration\<close> is an \<^verbatim>\<open>int64\<close> of
    nanoseconds.
  \<^item> Text: a Go string is a byte string, here \<^typ>\<open>string\<close>; \<^verbatim>\<open>show_int\<close> is the
    \<^verbatim>\<open>%d\<close> of fmt and \<^verbatim>\<open>hex_encode\<close>, \<^verbatim>\<open>hex_decode\<close> are encoding/hex.
  \<^item> The errors of the Kubernetes client: its code asks only whether an error is
    "not found" and for its text.
\<close>

named_theorems bounds_simps \<open>ranges of machine integers\<close>

section \<open>Machine integers\<close>

definition min_i64 :: int where "min_i64 = - 9223372036854775808"
definition max_i64 :: int where "max_i64 = 9223372036854775807"

definition in_i64 :: "int \<Rightarrow> bool" where
  "in_i64 x \<longleftrightarrow> min_i64 \<le> x \<and> x \<le> max_i64"

definition wrap64 :: "int \<Rightarrow> int" where
  "wrap64 x = (x + 9223372036854775808) mod 18446744073709551616 - 9223372036854775808"

lemma wrap64_id [simp]: "in_i64 x \<Longrightarrow> wrap64 x = x"
  by (simp add: wrap64_def in_i64_def min_i64_def max_i64_def)

lemma wrap64_in [simp, bounds_simps]: "in_i64 (wrap64 x)"
proof -
  have "0 \<le> (x + 9223372036854775808) mod 18446744073709551616"
    by simp
  moreover have "(x + 9223372036854775808) mod 18446744073709551616 < 18446744073709551616"
    by (rule pos_mod_bound) simp
  ultimately show ?thesis
    by (simp add: wrap64_def in_i64_def min_i64_def max_i64_def)
qed

lemma in_i64_between: "in_i64 a \<Longrightarrow> in_i64 b \<Longrightarrow> a \<le> x \<Longrightarrow> x \<le> b \<Longrightarrow> in_i64 x"
  by (simp add: in_i64_def)

lemma in_i64_small [bounds_simps]: "0 \<le> x \<Longrightarrow> x \<le> max_i64 \<Longrightarrow> in_i64 x"
  by (simp add: in_i64_def min_i64_def)

definition min_i32 :: int where "min_i32 = - 2147483648"
definition max_i32 :: int where "max_i32 = 2147483647"

definition in_i32 :: "int \<Rightarrow> bool" where
  "in_i32 x \<longleftrightarrow> min_i32 \<le> x \<and> x \<le> max_i32"

section \<open>Time\<close>

type_synonym time = int
type_synonym duration = int

definition millisecond :: duration where "millisecond = 1000000"
definition second :: duration where "second = 1000000000"
definition minute :: duration where "minute = 60000000000"
definition hour :: duration where "hour = 3600000000000"

definition is_zero_time :: "time \<Rightarrow> bool" where
  "is_zero_time t \<longleftrightarrow> t = 0"

text \<open>\<^verbatim>\<open>t.Truncate(d)\<close> for a positive \<^verbatim>\<open>d\<close>: down to a multiple since the zero time.\<close>

definition truncate_time :: "time \<Rightarrow> duration \<Rightarrow> time" where
  "truncate_time t d = (if d \<le> 0 then t else t - t mod d)"

section \<open>Text\<close>

definition digit :: "nat \<Rightarrow> char" where
  "digit n = char_of (48 + n)"

fun show_nat :: "nat \<Rightarrow> string" where
  "show_nat n = (if n < 10 then [digit n] else show_nat (n div 10) @ [digit (n mod 10)])"

declare show_nat.simps [simp del]

definition show_int :: "int \<Rightarrow> string" where
  "show_int i = (if i < 0 then ''-'' @ show_nat (nat (- i)) else show_nat (nat i))"

definition hex_digit :: "nat \<Rightarrow> char" where
  "hex_digit n = (if n < 10 then char_of (48 + n) else char_of (87 + n))"

definition hex_value :: "char \<Rightarrow> nat option" where
  "hex_value c = (let n = of_char c :: nat in
     if 48 \<le> n \<and> n \<le> 57 then Some (n - 48)
     else if 97 \<le> n \<and> n \<le> 102 then Some (n - 87)
     else if 65 \<le> n \<and> n \<le> 70 then Some (n - 55)
     else None)"

fun hex_encode :: "string \<Rightarrow> string" where
  "hex_encode [] = []"
| "hex_encode (c # cs) =
     hex_digit (of_char c div 16) # hex_digit (of_char c mod 16) # hex_encode cs"

fun hex_decode :: "string \<Rightarrow> string option" where
  "hex_decode [] = Some []"
| "hex_decode [c] = None"
| "hex_decode (h # l # cs) =
     (case (hex_value h, hex_value l) of
        (Some a, Some b) \<Rightarrow> map_option ((#) (char_of (16 * a + b))) (hex_decode cs)
      | _ \<Rightarrow> None)"

lemma hex_value_digit: "n < 16 \<Longrightarrow> hex_value (hex_digit n) = Some n"
  by (auto simp: hex_value_def hex_digit_def Let_def)

lemma hex_decode_encode [simp]: "hex_decode (hex_encode bs) = Some bs"
proof (induction bs)
  case Nil
  then show ?case by simp
next
  case (Cons c cs)
  have "(of_char c :: nat) < 256"
    by (rule nat_of_char_less_256)
  then have "(of_char c :: nat) div 16 < 16" and "(of_char c :: nat) mod 16 < 16"
    by (simp_all add: less_mult_imp_div_less)
  then have h: "hex_value (hex_digit (of_char c div 16)) = Some (of_char c div 16)"
    and l: "hex_value (hex_digit (of_char c mod 16)) = Some (of_char c mod 16)"
    by (simp_all only: hex_value_digit)
  have "16 * (of_char c div 16) + of_char c mod 16 = (of_char c :: nat)"
    by simp
  with Cons h l show ?case
    by simp
qed

lemma hex_encode_inject [simp]: "hex_encode xs = hex_encode ys \<longleftrightarrow> xs = ys"
  by (metis hex_decode_encode option.inject)

lemma hex_encode_length: "length (hex_encode xs) = 2 * length xs"
  by (induction xs) simp_all

section \<open>Errors of the Kubernetes client\<close>

datatype api_error = NotFound string | ApiError string

fun is_not_found :: "api_error \<Rightarrow> bool" where
  "is_not_found (NotFound _) = True"
| "is_not_found (ApiError _) = False"

fun error_text :: "api_error \<Rightarrow> string" where
  "error_text (NotFound m) = m"
| "error_text (ApiError m) = m"

section \<open>Lists\<close>

definition sum_i64 :: "int list \<Rightarrow> int" where
  "sum_i64 xs = fold (\<lambda>x acc. wrap64 (acc + x)) xs 0"

lemma fold_wrap64_exact:
  assumes "\<forall>x \<in> set xs. 0 \<le> x" and "0 \<le> a" and "a + sum_list xs \<le> max_i64"
  shows "fold (\<lambda>x acc. wrap64 (acc + x)) xs a = a + sum_list xs"
  using assms
proof (induction xs arbitrary: a)
  case Nil
  then show ?case by simp
next
  case (Cons x xs)
  have "0 \<le> sum_list xs"
    using Cons.prems(1) by (auto intro: sum_list_nonneg)
  with Cons.prems have "in_i64 (a + x)"
    by (auto intro: in_i64_small)
  with Cons show ?case
    by (simp add: add.assoc)
qed

lemma sum_i64_exact:
  "\<forall>x \<in> set xs. 0 \<le> x \<Longrightarrow> sum_list xs \<le> max_i64 \<Longrightarrow> sum_i64 xs = sum_list xs"
  using fold_wrap64_exact [of xs 0] by (simp add: sum_i64_def)

lemma sum_list_map_update:
  fixes f :: "'a \<Rightarrow> int"
  shows "k < length xs \<Longrightarrow> sum_list (map f (xs[k := y])) = sum_list (map f xs) - f (xs ! k) + f y"
  by (induction xs arbitrary: k) (auto simp: nth_Cons split: nat.splits)

lemma list_all_disjoint:
  assumes "\<And>x. x \<in> set xs \<Longrightarrow> P x \<longleftrightarrow> x \<in> U"
  shows "list_all (\<lambda>x. \<not> P x) xs \<longleftrightarrow> set xs \<inter> U = {}"
  unfolding list_all_iff using assms by blast

lemma find_by_key:
  assumes "distinct (map f xs)" and "x \<in> set xs"
  shows "find (\<lambda>y. f y = f x) xs = Some x"
  using assms by (induction xs) (auto simp: image_iff)

lemma find_by_key_Some:
  assumes "find (\<lambda>y. f y = k) xs = Some x"
  shows "x \<in> set xs \<and> f x = k"
  using assms by (induction xs) (auto split: if_splits)

lemma find_by_key_None: "find (\<lambda>y. f y = k) xs = None \<longleftrightarrow> k \<notin> f ` set xs"
  by (induction xs) auto

end
