(* ===== verification/AuditEvent.thy ===== *)
theory AuditEvent
  imports Prelude
begin

text \<open>
  The audit event of internal/audit/event.go: the record, the digest that links one
  event to the one before it, the comparison of a stored copy with the bytes that were
  signed, and the line that describes it.
  JSON encoding and SHA-256 are arguments: \<^verbatim>\<open>marshal\<close> returns the bytes or an
  error text, \<^verbatim>\<open>unmarshal\<close> an event or nothing, \<^verbatim>\<open>sha\<close> a digest.
\<close>

record Event =
  AuditID :: string
  EventAt :: time
  Stage :: string
  Actor :: string
  ActorGroups :: "string list"
  ImpersonatedBy :: string
  ActingDivision :: string
  Verb :: string
  Resource :: string
  Subresource :: string
  Namespace :: string
  ObjectName :: string
  ObjectUID :: string
  ResponseCode :: int
  SourceIPs :: "string list"
  UserAgent :: string
  Payload :: string
  Annotations :: "(string \<times> string) list"
  PrevHash :: string
  Hash :: string
  CanonicalBytes :: string

definition ActingDivisionLabel :: string where
  "ActingDivisionLabel = ''govern.marstack.io/division''"

type_synonym marshal = "Event \<Rightarrow> string + string"
type_synonym unmarshal = "string \<Rightarrow> Event option"
type_synonym sha = "string \<Rightarrow> string"

definition Canonical :: "marshal \<Rightarrow> Event \<Rightarrow> string + string" where
  "Canonical marshal e =
     (case marshal e of
        Inl err \<Rightarrow> Inl (''canonicalise audit event '' @ AuditID e @ '': '' @ err)
      | Inr body \<Rightarrow> Inr body)"

definition Digest :: "sha \<Rightarrow> string \<Rightarrow> string \<Rightarrow> string" where
  "Digest sha previous canonical = sha (previous @ canonical)"

definition microsecond :: duration where "microsecond = 1000"

definition Matches :: "unmarshal \<Rightarrow> Event \<Rightarrow> string \<Rightarrow> bool" where
  "Matches unmarshal e canonical =
     (case unmarshal canonical of
        None \<Rightarrow> False
      | Some signed \<Rightarrow>
          AuditID e = AuditID signed \<and>
          Actor e = Actor signed \<and>
          ImpersonatedBy e = ImpersonatedBy signed \<and>
          ActingDivision e = ActingDivision signed \<and>
          Verb e = Verb signed \<and>
          Resource e = Resource signed \<and>
          Subresource e = Subresource signed \<and>
          Namespace e = Namespace signed \<and>
          ObjectName e = ObjectName signed \<and>
          ObjectUID e = ObjectUID signed \<and>
          ResponseCode e = ResponseCode signed \<and>
          truncate_time (EventAt e) microsecond = truncate_time (EventAt signed) microsecond)"

text \<open>
  \<^verbatim>\<open>strings.TrimSpace\<close> removes leading and trailing white space; on the ASCII range
  these are the characters 9 to 13 and 32.
\<close>

definition is_space :: "char \<Rightarrow> bool" where
  "is_space c = (let n = of_char c :: nat in n = 32 \<or> (9 \<le> n \<and> n \<le> 13))"

definition trim_space :: "string \<Rightarrow> string" where
  "trim_space s = rev (dropWhile is_space (rev (dropWhile is_space s)))"

definition Describe :: "Event \<Rightarrow> string" where
  "Describe e =
     (let target = Resource e;
          target = (if Namespace e \<noteq> [] then Namespace e @ ''/'' @ target else target);
          target = (if ObjectName e \<noteq> [] then target @ ''/'' @ ObjectName e else target)
      in trim_space (Actor e @ '' '' @ Verb e @ '' '' @ target))"

section \<open>What a stored copy and the signed bytes agree on\<close>

text \<open>The fields \<^verbatim>\<open>Matches\<close> compares, as a relation between two events.\<close>

definition same_signed :: "Event \<Rightarrow> Event \<Rightarrow> bool" where
  "same_signed e f \<longleftrightarrow>
     (AuditID e, Actor e, ImpersonatedBy e, ActingDivision e, Verb e, Resource e,
      Subresource e, Namespace e, ObjectName e, ObjectUID e, ResponseCode e,
      truncate_time (EventAt e) microsecond) =
     (AuditID f, Actor f, ImpersonatedBy f, ActingDivision f, Verb f, Resource f,
      Subresource f, Namespace f, ObjectName f, ObjectUID f, ResponseCode f,
      truncate_time (EventAt f) microsecond)"

lemma Matches_iff:
  "Matches unmarshal e c \<longleftrightarrow> (\<exists>d. unmarshal c = Some d \<and> same_signed e d)"
  by (auto simp: Matches_def same_signed_def split: option.splits)

lemma same_signed_refl [simp]: "same_signed e e"
  by (simp add: same_signed_def)

lemma same_signed_sym: "same_signed e f \<Longrightarrow> same_signed f e"
  by (simp add: same_signed_def)

lemma same_signed_trans: "same_signed e f \<Longrightarrow> same_signed f g \<Longrightarrow> same_signed e g"
  by (simp add: same_signed_def)

text \<open>
  The documented behaviour of encoding/json that the chain relies on, for one event:
  decoding its encoding gives back the fields that are compared.
\<close>

definition codec_ok :: "marshal \<Rightarrow> unmarshal \<Rightarrow> Event \<Rightarrow> bool" where
  "codec_ok marshal unmarshal e \<longleftrightarrow>
     (\<forall>body. marshal e = Inr body \<longrightarrow> (\<exists>d. unmarshal body = Some d \<and> same_signed e d))"

lemma same_signed_hashes [simp]:
  "same_signed (e\<lparr>PrevHash := p, Hash := h, CanonicalBytes := c\<rparr>) f \<longleftrightarrow> same_signed e f"
  by (simp add: same_signed_def)

lemma truncate_truncate [simp]: "truncate_time (truncate_time t d) d = truncate_time t d"
  by (simp add: truncate_time_def mod_diff_left_eq [symmetric])

end
