(* ===== verification/AuditChain.thy ===== *)
theory AuditChain
  imports AuditEvent
begin

text \<open>
  The hash chain of internal/audit/chain.go: \<^verbatim>\<open>Chain.Append\<close>, which links a batch to the
  cached tip and hands it to the sink and the archive, and \<^verbatim>\<open>Verify\<close>, which walks a range
  of stored events.
  The sink interface of the source is the locale \<^verbatim>\<open>audit_sink\<close>: its laws say what the
  chain needs of the table behind it, and the theory AuditStore shows that the table has them.
\<close>

section \<open>Appending\<close>

record Chain =
  chain_tip :: string
  chain_read :: bool

record 's Sink =
  sink_Tip :: "'s \<Rightarrow> string + string \<times> int"
  sink_Append :: "'s \<Rightarrow> Event list \<Rightarrow> 's \<times> string option"

type_synonym 'a Archive = "'a \<Rightarrow> Event list \<Rightarrow> 'a \<times> string option"

fun link_events :: "sha \<Rightarrow> marshal \<Rightarrow> string \<Rightarrow> Event list \<Rightarrow> string + Event list \<times> string" where
  "link_events sha marshal previous [] = Inr ([], previous)"
| "link_events sha marshal previous (event # events) =
     (case Canonical marshal event of
        Inl err \<Rightarrow> Inl err
      | Inr canonical \<Rightarrow>
          (let digest = Digest sha previous canonical;
               linked = event\<lparr>PrevHash := previous, Hash := digest, CanonicalBytes := canonical\<rparr>
           in case link_events sha marshal digest events of
                Inl err \<Rightarrow> Inl err
              | Inr (rest, final) \<Rightarrow> Inr (linked # rest, final)))"

definition Append ::
  "sha \<Rightarrow> marshal \<Rightarrow> 's Sink \<Rightarrow> 'a Archive option \<Rightarrow> Chain \<Rightarrow> 's \<Rightarrow> 'a \<Rightarrow> Event list \<Rightarrow>
   (Chain \<times> 's \<times> 'a) \<times> (string + int)" where
  "Append sha marshal sink archive c s a events =
     (if events = [] then ((c, s, a), Inr 0)
      else
        case (if chain_read c then Inr (chain_tip c) else map_sum id fst (sink_Tip sink s)) of
          Inl err \<Rightarrow> ((c, s, a), Inl err)
        | Inr tip \<Rightarrow>
            (let c = \<lparr>chain_tip = tip, chain_read = True\<rparr>
             in case link_events sha marshal tip events of
                  Inl err \<Rightarrow> ((c, s, a), Inl err)
                | Inr (linked, previous) \<Rightarrow>
                    (case sink_Append sink s linked of
                       (s, Some err) \<Rightarrow> ((c\<lparr>chain_read := False\<rparr>, s, a), Inl err)
                     | (s, None) \<Rightarrow>
                         (case archive of
                            None \<Rightarrow> ((c\<lparr>chain_tip := previous\<rparr>, s, a), Inr (int (length linked)))
                          | Some write \<Rightarrow>
                              (case write a linked of
                                 (a, Some err) \<Rightarrow>
                                   ((c\<lparr>chain_read := False\<rparr>, s, a),
                                    Inl (''archive audit events: '' @ err))
                               | (a, None) \<Rightarrow>
                                   ((c\<lparr>chain_tip := previous\<rparr>, s, a),
                                    Inr (int (length linked))))))))"

section \<open>Verifying\<close>

record Verification =
  Intact :: bool
  Checked :: int
  FirstSeq :: int
  LastSeq :: int
  BrokenAtSeq :: int
  Detail :: string
  ArchiveChecked :: bool

definition broken :: "Verification \<Rightarrow> int \<Rightarrow> string \<Rightarrow> Verification" where
  "broken v at detail = v\<lparr>Intact := False, BrokenAtSeq := at, Detail := detail\<rparr>"

fun verify_from ::
  "sha \<Rightarrow> unmarshal \<Rightarrow> int \<Rightarrow> string \<Rightarrow> Verification \<Rightarrow> Event list \<Rightarrow> Verification" where
  "verify_from sha unmarshal i previous v [] = v"
| "verify_from sha unmarshal i previous v (event # events) =
     (let v = v\<lparr>Checked := Checked v + 1\<rparr>
      in if PrevHash event \<noteq> previous then
           broken v i (''event '' @ AuditID event @ '' does not follow the one before it'')
         else if Digest sha previous (CanonicalBytes event) \<noteq> Hash event then
           broken v i (''event '' @ AuditID event @ '' was altered after it was recorded'')
         else if \<not> Matches unmarshal event (CanonicalBytes event) then
           broken v i (''the stored copy of event '' @ AuditID event @
             '' disagrees with what was signed'')
         else verify_from sha unmarshal (i + 1) (Hash event) (v\<lparr>LastSeq := i\<rparr>) events)"

definition Verify :: "sha \<Rightarrow> unmarshal \<Rightarrow> Event list \<Rightarrow> string \<Rightarrow> Verification" where
  "Verify sha unmarshal events expectedStart =
     verify_from sha unmarshal 0 expectedStart
       \<lparr>Intact = True, Checked = 0, FirstSeq = 0, LastSeq = 0, BrokenAtSeq = 0,
        Detail = [], ArchiveChecked = False\<rparr> events"

section \<open>What a chain is\<close>

text \<open>One event follows a hash when its three checks pass.\<close>

definition follows :: "sha \<Rightarrow> unmarshal \<Rightarrow> string \<Rightarrow> Event \<Rightarrow> bool" where
  "follows sha unmarshal previous e \<longleftrightarrow>
     PrevHash e = previous \<and> Hash e = Digest sha previous (CanonicalBytes e) \<and>
     Matches unmarshal e (CanonicalBytes e)"

fun linked :: "sha \<Rightarrow> unmarshal \<Rightarrow> string \<Rightarrow> Event list \<Rightarrow> bool" where
  "linked sha unmarshal start [] = True"
| "linked sha unmarshal start (e # es) =
     (follows sha unmarshal start e \<and> linked sha unmarshal (Hash e) es)"

fun tip_after :: "string \<Rightarrow> Event list \<Rightarrow> string" where
  "tip_after start [] = start"
| "tip_after start (e # es) = tip_after (Hash e) es"

lemma tip_after_append [simp]: "tip_after start (es @ fs) = tip_after (tip_after start es) fs"
  by (induction es arbitrary: start) simp_all

lemma tip_after_last: "es \<noteq> [] \<Longrightarrow> tip_after start es = Hash (last es)"
  by (induction es arbitrary: start) auto

lemma linked_append [simp]:
  "linked sha um start (es @ fs) \<longleftrightarrow>
     linked sha um start es \<and> linked sha um (tip_after start es) fs"
  by (induction es arbitrary: start) auto

section \<open>Verify decides the chain\<close>

lemma verify_from_intact:
  "Intact (verify_from sha um i previous v es) \<longleftrightarrow> Intact v \<and> linked sha um previous es"
proof (induction es arbitrary: i previous v)
  case Nil
  then show ?case by simp
next
  case (Cons e es)
  show ?case
  proof (cases "follows sha um previous e")
    case True
    then have "verify_from sha um i previous v (e # es) =
        verify_from sha um (i + 1) (Hash e) (v\<lparr>Checked := Checked v + 1, LastSeq := i\<rparr>) es"
      by (simp add: follows_def Let_def)
    with True Cons.IH show ?thesis
      by simp
  next
    case False
    then show ?thesis
      by (auto simp: follows_def broken_def Let_def)
  qed
qed

lemma verify_from_break:
  assumes "Intact v" and "\<not> Intact (verify_from sha um i previous v es)"
  shows "\<exists>pre e post. es = pre @ e # post \<and> linked sha um previous pre \<and>
           \<not> follows sha um (tip_after previous pre) e \<and>
           BrokenAtSeq (verify_from sha um i previous v es) = i + int (length pre) \<and>
           Checked (verify_from sha um i previous v es) = Checked v + int (length pre) + 1"
  using assms
proof (induction es arbitrary: i previous v)
  case Nil
  then show ?case by simp
next
  case (Cons e es)
  show ?case
  proof (cases "follows sha um previous e")
    case True
    let ?v = "v\<lparr>Checked := Checked v + 1, LastSeq := i\<rparr>"
    have step: "verify_from sha um i previous v (e # es) = verify_from sha um (i + 1) (Hash e) ?v es"
      using True by (simp add: follows_def Let_def)
    from Cons.prems step have "Intact ?v" and "\<not> Intact (verify_from sha um (i + 1) (Hash e) ?v es)"
      by simp_all
    from Cons.IH [OF this] obtain pre f post where IH:
      "es = pre @ f # post" "linked sha um (Hash e) pre"
      "\<not> follows sha um (tip_after (Hash e) pre) f"
      "BrokenAtSeq (verify_from sha um (i + 1) (Hash e) ?v es) = i + 1 + int (length pre)"
      "Checked (verify_from sha um (i + 1) (Hash e) ?v es) = Checked ?v + int (length pre) + 1"
      by blast
    show ?thesis
      by (rule exI [of _ "e # pre"], rule exI [of _ f], rule exI [of _ post])
        (use IH step True in simp)
  next
    case False
    then have "BrokenAtSeq (verify_from sha um i previous v (e # es)) = i \<and>
        Checked (verify_from sha um i previous v (e # es)) = Checked v + 1"
      by (auto simp: follows_def broken_def Let_def)
    with False show ?thesis
      by (intro exI [of _ "[]"] exI [of _ e] exI [of _ es]) simp
  qed
qed

lemma Verify_intact_linked: "Intact (Verify sha um es start) \<longleftrightarrow> linked sha um start es"
  by (simp add: Verify_def verify_from_intact)

lemma verify_from_checked:
  "Intact v \<Longrightarrow> linked sha um previous es \<Longrightarrow>
     Checked (verify_from sha um i previous v es) = Checked v + int (length es)"
  by (induction es arbitrary: i previous v) (auto simp: follows_def Let_def)

section \<open>What the digests fix\<close>

text \<open>The byte strings a log hashes, from a given start.\<close>

fun hashed_inputs :: "string \<Rightarrow> Event list \<Rightarrow> string set" where
  "hashed_inputs start [] = {}"
| "hashed_inputs start (e # es) = insert (start @ CanonicalBytes e) (hashed_inputs (Hash e) es)"

lemma hashed_inputs_append [simp]:
  "hashed_inputs start (es @ fs) = hashed_inputs start es \<union> hashed_inputs (tip_after start es) fs"
  by (induction es arbitrary: start) auto

lemma same_tip_length:
  assumes "length es = length fs"
    and "linked sha um start es" and "linked sha um start fs"
    and "\<forall>x \<in> hashed_inputs start es \<union> hashed_inputs start fs. length (sha x) = n"
  shows "length (tip_after start es) = length (tip_after start fs)"
proof (cases es rule: rev_cases)
  case Nil
  with assms show ?thesis by simp
next
  case (snoc es' e)
  with assms(1) obtain fs' f where fs: "fs = fs' @ [f]"
    by (cases fs rule: rev_cases) auto
  from snoc fs assms(2-4) show ?thesis
    by (simp add: follows_def Digest_def)
qed

lemma linked_determined:
  assumes "length es = length fs"
    and "linked sha um start es" and "linked sha um start fs"
    and "\<forall>x \<in> hashed_inputs start es \<union> hashed_inputs start fs. length (sha x) = n"
    and "inj_on sha (hashed_inputs start es \<union> hashed_inputs start fs)"
    and "tip_after start es = tip_after start fs"
  shows "map CanonicalBytes es = map CanonicalBytes fs"
  using assms
proof (induction es arbitrary: fs rule: rev_induct)
  case Nil
  then show ?case by simp
next
  case (snoc e es)
  from snoc.prems(1) obtain fs' f where fs: "fs = fs' @ [f]"
    by (cases fs rule: rev_cases) auto
  let ?x = "tip_after start es @ CanonicalBytes e"
  let ?y = "tip_after start fs' @ CanonicalBytes f"
  have "sha ?x = sha ?y"
    using snoc.prems(2,3,6) by (simp add: fs follows_def Digest_def)
  moreover have "?x \<in> hashed_inputs start (es @ [e]) \<union> hashed_inputs start fs"
    and "?y \<in> hashed_inputs start (es @ [e]) \<union> hashed_inputs start fs"
    by (simp_all add: fs)
  ultimately have xy: "?x = ?y"
    using snoc.prems(5) by (blast dest: inj_onD)
  have l: "linked sha um start es" "linked sha um start fs'" and len: "length es = length fs'"
    using snoc.prems(1-3) by (simp_all add: fs)
  have sub: "hashed_inputs start es \<union> hashed_inputs start fs' \<subseteq>
      hashed_inputs start (es @ [e]) \<union> hashed_inputs start fs"
    by (auto simp: fs)
  have n: "\<forall>x \<in> hashed_inputs start es \<union> hashed_inputs start fs'. length (sha x) = n"
    using snoc.prems(4) sub by blast
  have "length (tip_after start es) = length (tip_after start fs')"
    by (rule same_tip_length [OF len l n])
  with xy have tips: "tip_after start es = tip_after start fs'"
    and bytes: "CanonicalBytes e = CanonicalBytes f"
    by simp_all
  have "map CanonicalBytes es = map CanonicalBytes fs'"
    by (rule snoc.IH [OF len l n inj_on_subset [OF snoc.prems(5) sub] tips])
  with bytes show ?case
    by (simp add: fs)
qed

lemma linked_matches: "linked sha um start es \<Longrightarrow> e \<in> set es \<Longrightarrow> Matches um e (CanonicalBytes e)"
  by (induction es arbitrary: start) (auto simp: follows_def)

lemma same_bytes_same_signed:
  assumes "linked sha um start es" and "linked sha um start fs"
    and "map CanonicalBytes es = map CanonicalBytes fs"
  shows "list_all2 same_signed es fs"
proof -
  have len: "length es = length fs"
    using assms(3) by (metis length_map)
  have "same_signed (es ! i) (fs ! i)" if i: "i < length es" for i
  proof -
    have c: "CanonicalBytes (es ! i) = CanonicalBytes (fs ! i)"
      using assms(3) i len by (metis nth_map)
    have "Matches um (es ! i) (CanonicalBytes (es ! i))"
      by (rule linked_matches [OF assms(1)]) (use i in simp)
    moreover have "Matches um (fs ! i) (CanonicalBytes (fs ! i))"
      by (rule linked_matches [OF assms(2)]) (use i len in simp)
    ultimately obtain d where "same_signed (es ! i) d" and "same_signed (fs ! i) d"
      using c by (auto simp: Matches_iff)
    then show ?thesis
      by (blast intro: same_signed_sym same_signed_trans)
  qed
  with len show ?thesis
    by (simp add: list_all2_conv_all_nth)
qed

section \<open>Linking a batch\<close>

lemma link_events_linked:
  assumes "link_events sha marshal previous es = Inr (ls, final)"
    and "\<forall>e \<in> set es. codec_ok marshal um e"
  shows "linked sha um previous ls \<and> tip_after previous ls = final \<and> length ls = length es \<and>
         map AuditID ls = map AuditID es"
  using assms
proof (induction es arbitrary: previous ls final)
  case Nil
  then show ?case by simp
next
  case (Cons e es)
  from Cons.prems(1) obtain canonical rest where
    canonical: "Canonical marshal e = Inr canonical"
    and rest: "link_events sha marshal (Digest sha previous canonical) es = Inr (rest, final)"
    and ls: "ls = e\<lparr>PrevHash := previous, Hash := Digest sha previous canonical,
                    CanonicalBytes := canonical\<rparr> # rest"
    by (auto simp: Let_def split: sum.splits prod.splits)
  have "Matches um e canonical"
    using canonical Cons.prems(2)
    by (auto simp: Matches_iff Canonical_def codec_ok_def split: sum.splits)
  then have "follows sha um previous (hd ls)"
    by (auto simp: ls follows_def Matches_iff)
  moreover have "linked sha um (Digest sha previous canonical) rest \<and>
      tip_after (Digest sha previous canonical) rest = final \<and> length rest = length es \<and>
      map AuditID rest = map AuditID es"
    using Cons.IH [OF rest] Cons.prems(2) by simp
  ultimately show ?case
    by (simp add: ls)
qed

lemma link_events_total:
  assumes "\<forall>e \<in> set es. \<exists>b. marshal e = Inr b"
  shows "\<exists>ls final. link_events sha marshal previous es = Inr (ls, final)"
  using assms
proof (induction es arbitrary: previous)
  case Nil
  then show ?case by simp
next
  case (Cons e es)
  from Cons.prems obtain b where b: "Canonical marshal e = Inr b"
    by (auto simp: Canonical_def)
  obtain ls final where "link_events sha marshal (Digest sha previous b) es = Inr (ls, final)"
    using Cons.IH Cons.prems by force
  with b show ?case
    by (simp add: Let_def)
qed

section \<open>The sink interface\<close>

text \<open>
  What the chain relies on. \<^verbatim>\<open>log\<close> is the sink's list of events, oldest first, and
  \<^verbatim>\<open>persist\<close> what storing does to an event (the columns that are not kept).
  A sink may drop an event of a batch, but what it keeps continues its log; when no audit
  identifier of the batch is known to it, it keeps them all.
\<close>

locale audit_sink =
  fixes sink :: "'s Sink"
    and log :: "'s \<Rightarrow> Event list"
    and persist :: "Event \<Rightarrow> Event"
  assumes tip_is_last: "sink_Tip sink s = Inr (h, n) \<Longrightarrow> h = tip_after [] (log s)"
    and append_err: "sink_Append sink s es = (s', Some err) \<Longrightarrow> log s' = log s"
    and append_rows: "sink_Append sink s es = (s', None) \<Longrightarrow>
          \<exists>kept. set kept \<subseteq> set es \<and> log s' = log s @ map persist kept \<and>
                 (\<forall>i < length kept. PrevHash (kept ! i) = tip_after (tip_after [] (log s)) (take i kept))"
    and append_fresh: "sink_Append sink s es = (s', None) \<Longrightarrow> distinct (map AuditID es) \<Longrightarrow>
          set (map AuditID es) \<inter> set (map AuditID (log s)) = {} \<Longrightarrow> log s' = log s @ map persist es"
    and persist_hashes: "PrevHash (persist e) = PrevHash e \<and> Hash (persist e) = Hash e \<and>
          CanonicalBytes (persist e) = CanonicalBytes e"
    and persist_signed: "same_signed (persist e) e"
begin

lemma tip_persist [simp]: "tip_after start (map persist es) = tip_after start es"
  by (induction es arbitrary: start) (simp_all add: persist_hashes)

lemma follows_persist [simp]: "follows sha um p (persist e) = follows sha um p e"
  by (auto simp: follows_def persist_hashes Matches_iff
      intro: same_signed_trans persist_signed same_signed_sym [OF persist_signed])

lemma linked_persist [simp]: "linked sha um start (map persist es) = linked sha um start es"
  by (induction es arbitrary: start) (simp_all add: persist_hashes)

lemma read_tip: "map_sum id fst (sink_Tip sink s) = Inr h \<Longrightarrow> h = tip_after [] (log s)"
  by (cases "sink_Tip sink s") (auto dest: tip_is_last)

text \<open>Whatever subset of a linked batch the sink keeps, if it continues the log it is linked.\<close>

lemma kept_linked:
  assumes "\<forall>e \<in> set kept. \<exists>p. follows sha um p e"
    and "\<forall>i < length kept. PrevHash (kept ! i) = tip_after start (take i kept)"
  shows "linked sha um start kept"
  using assms
proof (induction kept arbitrary: start)
  case Nil
  then show ?case by simp
next
  case (Cons e es)
  have "PrevHash e = start"
    using Cons.prems(2) by (auto dest: spec [of _ 0])
  with Cons.prems(1) have "follows sha um start e"
    by (auto simp: follows_def)
  moreover have "linked sha um (Hash e) es"
  proof (rule Cons.IH)
    show "\<forall>e \<in> set es. \<exists>p. follows sha um p e"
      using Cons.prems(1) by simp
    show "\<forall>i < length es. PrevHash (es ! i) = tip_after (Hash e) (take i es)"
      using Cons.prems(2) by (auto dest: spec [of _ "Suc _"])
  qed
  ultimately show ?case
    by simp
qed

lemma linked_follows: "linked sha um start es \<Longrightarrow> e \<in> set es \<Longrightarrow> \<exists>p. follows sha um p e"
  by (induction es arbitrary: start) auto

lemma append_batch_linked:
  assumes "sink_Append sink s ls = (s', r)" and "linked sha um start ls"
    and "linked sha um [] (log s)"
  shows "linked sha um [] (log s')"
proof (cases r)
  case None
  with assms(1) obtain kept where k: "set kept \<subseteq> set ls" "log s' = log s @ map persist kept"
    "\<forall>i < length kept. PrevHash (kept ! i) = tip_after (tip_after [] (log s)) (take i kept)"
    using append_rows by blast
  have "linked sha um (tip_after [] (log s)) kept"
    by (rule kept_linked) (use k assms(2) linked_follows in blast)+
  with k(2) assms(3) show ?thesis
    by simp
next
  case (Some err)
  with assms(1,3) append_err show ?thesis
    by auto
qed

text \<open>The chain keeps the log verifiable, whatever its cached tip is and whatever fails.\<close>

lemma Append_keeps_linked:
  assumes "linked sha um [] (log s)" and "\<forall>e \<in> set es. codec_ok marshal um e"
    and "Append sha marshal sink archive c s a es = ((c', s', a'), r)"
  shows "linked sha um [] (log s')"
proof -
  have "linked sha um [] (log s1)"
    if "link_events sha marshal tip es = Inr (ls, f)" "sink_Append sink s ls = (s1, r1)" for tip ls f s1 r1
    using append_batch_linked [OF that(2) _ assms(1)] link_events_linked [OF that(1) assms(2)] by blast
  with assms(1,3) show ?thesis
    by (auto simp: Append_def Let_def split: if_splits sum.splits prod.splits option.splits)
qed

text \<open>An accepted batch of new events is recorded whole, and the cached tip stays the log's.\<close>

lemma Append_records:
  assumes "Append sha marshal sink archive c s a es = ((c', s', a'), Inr n)" and "es \<noteq> []"
    and "chain_read c \<longrightarrow> chain_tip c = tip_after [] (log s)"
    and "\<forall>e \<in> set es. codec_ok marshal um e"
    and "distinct (map AuditID es)" and "set (map AuditID es) \<inter> set (map AuditID (log s)) = {}"
  shows "n = int (length es) \<and> chain_read c' \<and> chain_tip c' = tip_after [] (log s') \<and>
         (\<exists>ls. log s' = log s @ map persist ls \<and> map AuditID ls = map AuditID es)"
proof -
  obtain tip ls final where tip: "tip = tip_after [] (log s)"
    and link: "link_events sha marshal tip es = Inr (ls, final)"
    and app: "sink_Append sink s ls = (s', None)"
    and c': "c' = \<lparr>chain_tip = final, chain_read = True\<rparr>" and n: "n = int (length ls)"
    using assms(1-3)
    by (auto simp: Append_def Let_def split: if_splits sum.splits prod.splits option.splits
        dest!: read_tip)
  have ls: "tip_after tip ls = final" "length ls = length es" "map AuditID ls = map AuditID es"
    using link_events_linked [OF link assms(4)] by auto
  have "log s' = log s @ map persist ls"
    using append_fresh [OF app] assms(5,6) ls(3) by simp
  with ls c' n tip show ?thesis
    by auto
qed

end

end
