(* ===== verification/AuditStore.thy ===== *)
theory AuditStore
  imports AuditChain
begin

text \<open>
  The audit table: internal/db/migrations/0005_audit.sql (the columns, their checks, the
  unique constraints and the trigger that links a new row to the tip) and
  internal/audit/store.go (\<^verbatim>\<open>Tip\<close>, \<^verbatim>\<open>Append\<close>, \<^verbatim>\<open>List\<close>, \<^verbatim>\<open>Range\<close>,
  \<^verbatim>\<open>Get\<close>).
  Rows are kept in the order of their sequence numbers. The identity column hands out
  numbers that a rollback does not give back, so \<^verbatim>\<open>next_seq\<close> moves on even when an
  insert fails. What the connection does in the appends to come is the table's
  \<^verbatim>\<open>script\<close> and \<^verbatim>\<open>tip_error\<close>; \<^verbatim>\<open>jsonb\<close> is what the column type makes of
  the payload text. The table is an implementation of the sink interface.
\<close>

datatype tx_outcome = Runs | BeginFails string | CommitFails string

record Table =
  rows :: "(int \<times> Event) list"
  next_seq :: int
  script :: "tx_outcome list"
  tip_error :: "string option"

definition empty_table :: Table where
  "empty_table = \<lparr>rows = [], next_seq = 1, script = [], tip_error = None\<rparr>"

definition persist :: "(string \<Rightarrow> string) \<Rightarrow> Event \<Rightarrow> Event" where
  "persist jsonb e = e\<lparr>EventAt := truncate_time (EventAt e) microsecond,
                      Payload := jsonb (Payload e), Annotations := []\<rparr>"

definition table_tip :: "Table \<Rightarrow> string option" where
  "table_tip t = (if rows t = [] then None else Some (Hash (snd (last (rows t)))))"

text \<open>The trigger \<^verbatim>\<open>audit_events_link\<close>: the exception it raises, if it raises one.\<close>

definition link_trigger :: "Table \<Rightarrow> Event \<Rightarrow> string option" where
  "link_trigger t e =
     (case table_tip t of
        None \<Rightarrow> (if PrevHash e \<noteq> [] then Some ''the first audit event must carry an empty prev_hash''
                 else None)
      | Some tip \<Rightarrow> (if PrevHash e \<noteq> tip
                     then Some ''audit chain break: prev_hash does not match the current tip''
                     else None))"

text \<open>
  One \<^verbatim>\<open>INSERT ... ON CONFLICT (audit_id) DO NOTHING\<close>: the identity value, the trigger,
  the checks, the conflict on audit_id, the unique hash.
\<close>

definition insert_row :: "(string \<Rightarrow> string) \<Rightarrow> Table \<Rightarrow> Event \<Rightarrow> Table \<times> string option" where
  "insert_row jsonb t e =
     (let seq = next_seq t; t' = t\<lparr>next_seq := seq + 1\<rparr>
      in case link_trigger t e of
           Some m \<Rightarrow> (t', Some m)
         | None \<Rightarrow>
             if length (Hash e) \<noteq> 32 then (t', Some ''audit_events_hash_len'')
             else if length (PrevHash e) \<noteq> 0 \<and> length (PrevHash e) \<noteq> 32 then
               (t', Some ''audit_events_prev_hash_len'')
             else if AuditID e \<in> AuditID ` snd ` set (rows t) then (t', None)
             else if Hash e \<in> Hash ` snd ` set (rows t) then (t', Some ''audit_events_hash_key'')
             else (t'\<lparr>rows := rows t @ [(seq, persist jsonb e)]\<rparr>, None))"

fun insert_all :: "(string \<Rightarrow> string) \<Rightarrow> Table \<Rightarrow> Event list \<Rightarrow> Table \<times> string option" where
  "insert_all jsonb t [] = (t, None)"
| "insert_all jsonb t (e # es) =
     (case insert_row jsonb t e of
        (t', Some m) \<Rightarrow> (t', Some (''record audit event '' @ AuditID e @ '': '' @ m))
      | (t', None) \<Rightarrow> insert_all jsonb t' es)"

definition rollback :: "Table \<Rightarrow> Table \<Rightarrow> Table" where
  "rollback before after = after\<lparr>rows := rows before\<rparr>"

definition store_Append :: "(string \<Rightarrow> string) \<Rightarrow> Table \<Rightarrow> Event list \<Rightarrow> Table \<times> string option" where
  "store_Append jsonb t0 es =
     (let t = t0\<lparr>script := tl (script t0)\<rparr>
      in case (if script t0 = [] then Runs else hd (script t0)) of
           BeginFails m \<Rightarrow> (t, Some (''begin audit append: '' @ m))
         | Runs \<Rightarrow>
             (case insert_all jsonb t es of
                (t', Some m) \<Rightarrow> (rollback t t', Some m)
              | (t', None) \<Rightarrow> (t', None))
         | CommitFails c \<Rightarrow>
             (case insert_all jsonb t es of
                (t', Some m) \<Rightarrow> (rollback t t', Some m)
              | (t', None) \<Rightarrow> (rollback t t', Some c)))"

definition store_Tip :: "Table \<Rightarrow> string + string \<times> int" where
  "store_Tip t =
     (case tip_error t of
        Some m \<Rightarrow> Inl (''read the audit chain tip: '' @ m)
      | None \<Rightarrow>
          if rows t = [] then Inr ([], 0)
          else Inr (Hash (snd (last (rows t))), fst (last (rows t))))"

definition store_sink :: "(string \<Rightarrow> string) \<Rightarrow> Table Sink" where
  "store_sink jsonb = \<lparr>sink_Tip = store_Tip, sink_Append = store_Append jsonb\<rparr>"

definition table_log :: "Table \<Rightarrow> Event list" where
  "table_log t = map snd (rows t)"

section \<open>Queries\<close>

record Query =
  q_Division :: string
  q_Actor :: string
  q_Verb :: string
  q_Resource :: string
  q_ObjectUID :: string
  q_ObjectName :: string
  q_Namespace :: string
  q_Since :: "time option"
  q_Until :: "time option"
  q_Limit :: int

definition query_limit :: "int \<Rightarrow> int" where
  "query_limit limit = (if limit \<le> 0 \<or> limit > 500 then 100 else limit)"

definition selects :: "Query \<Rightarrow> Event \<Rightarrow> bool" where
  "selects q e \<longleftrightarrow>
     (q_Division q = [] \<or> ActingDivision e = q_Division q) \<and>
     (q_Actor q = [] \<or> Actor e = q_Actor q) \<and>
     (q_Verb q = [] \<or> Verb e = q_Verb q) \<and>
     (q_Resource q = [] \<or> Resource e = q_Resource q) \<and>
     (q_ObjectUID q = [] \<or> ObjectUID e = q_ObjectUID q) \<and>
     (q_ObjectName q = [] \<or> ObjectName e = q_ObjectName q) \<and>
     (q_Namespace q = [] \<or> Namespace e = q_Namespace q) \<and>
     (case q_Since q of None \<Rightarrow> True | Some at \<Rightarrow> EventAt e \<ge> at) \<and>
     (case q_Until q of None \<Rightarrow> True | Some at \<Rightarrow> EventAt e \<le> at)"

definition store_List :: "Table \<Rightarrow> Query \<Rightarrow> (int \<times> Event) list" where
  "store_List t q = take (nat (query_limit (q_Limit q))) (filter (\<lambda>r. selects q (snd r)) (rev (rows t)))"

definition range_end :: "int \<Rightarrow> int" where
  "range_end to = (if to \<le> 0 then 4611686018427387904 else to)"

definition store_Range :: "Table \<Rightarrow> int \<Rightarrow> int \<Rightarrow> (int \<times> Event) list \<times> string" where
  "store_Range t from to =
     (let before = filter (\<lambda>r. fst r < from) (rows t);
          start = (if before = [] then [] else Hash (snd (last before)))
      in (filter (\<lambda>r. from \<le> fst r \<and> fst r \<le> range_end to) (rows t), start))"

definition store_Get :: "Table \<Rightarrow> int \<Rightarrow> (int \<times> Event) option" where
  "store_Get t seq =
     (case fst (store_Range t seq seq) of [] \<Rightarrow> None | r # _ \<Rightarrow> Some r)"

section \<open>The table implements the sink interface\<close>

lemma persist_fields [simp]:
  "PrevHash (persist jsonb e) = PrevHash e" "Hash (persist jsonb e) = Hash e"
  "CanonicalBytes (persist jsonb e) = CanonicalBytes e" "AuditID (persist jsonb e) = AuditID e"
  by (simp_all add: persist_def)

lemma persist_same_signed: "same_signed (persist jsonb e) e"
  by (simp add: persist_def same_signed_def)

lemma tip_after_log: "tip_after [] (table_log t) = (case table_tip t of None \<Rightarrow> [] | Some h \<Rightarrow> h)"
  by (simp add: table_log_def table_tip_def tip_after_last last_map)

lemma link_trigger_None: "link_trigger t e = None \<longleftrightarrow> PrevHash e = tip_after [] (table_log t)"
  by (simp add: link_trigger_def tip_after_log split: option.splits)

lemma insert_row_log:
  assumes "insert_row jsonb t e = (t', None)"
  shows "PrevHash e = tip_after [] (table_log t) \<and>
         (if AuditID e \<in> set (map AuditID (table_log t)) then table_log t' = table_log t
          else table_log t' = table_log t @ [persist jsonb e])"
  using assms
  by (auto simp: insert_row_def Let_def table_log_def link_trigger_None
      split: option.splits if_splits)

lemma insert_all_rows:
  assumes "insert_all jsonb t es = (t', None)"
  shows "\<exists>kept. set kept \<subseteq> set es \<and> table_log t' = table_log t @ map (persist jsonb) kept \<and>
           (\<forall>i < length kept. PrevHash (kept ! i) = tip_after (tip_after [] (table_log t)) (take i kept))"
  using assms
proof (induction es arbitrary: t)
  case Nil
  then show ?case by simp
next
  case (Cons e es)
  from Cons.prems obtain t1 where t1: "insert_row jsonb t e = (t1, None)"
    and rest: "insert_all jsonb t1 es = (t', None)"
    by (auto split: prod.splits option.splits)
  obtain kept where kept: "set kept \<subseteq> set es" "table_log t' = table_log t1 @ map (persist jsonb) kept"
    "\<forall>i < length kept. PrevHash (kept ! i) = tip_after (tip_after [] (table_log t1)) (take i kept)"
    using Cons.IH [OF rest] by blast
  show ?case
  proof (cases "AuditID e \<in> set (map AuditID (table_log t))")
    case True
    with insert_row_log [OF t1] have "table_log t1 = table_log t"
      by simp
    with kept show ?thesis
      by (intro exI [of _ kept]) auto
  next
    case False
    with insert_row_log [OF t1] have log: "table_log t1 = table_log t @ [persist jsonb e]"
      and prev: "PrevHash e = tip_after [] (table_log t)"
      by auto
    have "PrevHash ((e # kept) ! i) = tip_after (tip_after [] (table_log t)) (take i (e # kept))"
      if "i < length (e # kept)" for i
      using that kept(3) prev log by (cases i) simp_all
    then show ?thesis
      by (intro exI [of _ "e # kept"]) (use kept(1,2) log in auto)
  qed
qed

lemma insert_all_fresh:
  assumes "insert_all jsonb t es = (t', None)" and "distinct (map AuditID es)"
    and "set (map AuditID es) \<inter> set (map AuditID (table_log t)) = {}"
  shows "table_log t' = table_log t @ map (persist jsonb) es"
  using assms
proof (induction es arbitrary: t)
  case Nil
  then show ?case by simp
next
  case (Cons e es)
  from Cons.prems obtain t1 where t1: "insert_row jsonb t e = (t1, None)"
    and rest: "insert_all jsonb t1 es = (t', None)"
    by (auto split: prod.splits option.splits)
  have log: "table_log t1 = table_log t @ [persist jsonb e]"
    using insert_row_log [OF t1] Cons.prems(3) by auto
  have "table_log t' = table_log t1 @ map (persist jsonb) es"
    by (rule Cons.IH [OF rest]) (use Cons.prems(2,3) log in auto)
  with log show ?case
    by simp
qed

lemma store_Append_ok:
  "store_Append jsonb t es = (t', None) \<Longrightarrow>
     insert_all jsonb (t\<lparr>script := tl (script t)\<rparr>) es = (t', None)"
  by (auto simp: store_Append_def Let_def split: tx_outcome.splits prod.splits option.splits if_splits)

lemma store_Append_err:
  "store_Append jsonb t es = (t', Some m) \<Longrightarrow> rows t' = rows t"
  by (auto simp: store_Append_def Let_def rollback_def
      split: tx_outcome.splits prod.splits option.splits if_splits)

lemma table_log_script [simp]: "table_log (t\<lparr>script := s\<rparr>) = table_log t"
  by (simp add: table_log_def)

interpretation store: audit_sink "store_sink jsonb" table_log "persist jsonb"
proof unfold_locales
  fix s h n
  assume "sink_Tip (store_sink jsonb) s = Inr (h, n)"
  then show "h = tip_after [] (table_log s)"
    by (auto simp: store_sink_def store_Tip_def tip_after_log table_tip_def
        split: option.splits if_splits)
next
  fix s s' es err
  assume "sink_Append (store_sink jsonb) s es = (s', Some err)"
  then show "table_log s' = table_log s"
    by (simp add: store_sink_def store_Append_err table_log_def)
next
  fix s s' es
  assume "sink_Append (store_sink jsonb) s es = (s', None)"
  then show "\<exists>kept. set kept \<subseteq> set es \<and> table_log s' = table_log s @ map (persist jsonb) kept \<and>
      (\<forall>i < length kept. PrevHash (kept ! i) = tip_after (tip_after [] (table_log s)) (take i kept))"
    by (auto simp: store_sink_def dest!: store_Append_ok insert_all_rows)
next
  fix s s' es
  assume "sink_Append (store_sink jsonb) s es = (s', None)" "distinct (map AuditID es)"
    "set (map AuditID es) \<inter> set (map AuditID (table_log s)) = {}"
  then show "table_log s' = table_log s @ map (persist jsonb) es"
    using insert_all_fresh [of jsonb "s\<lparr>script := tl (script s)\<rparr>" es s']
    by (simp add: store_sink_def store_Append_ok)
next
  fix e
  show "PrevHash (persist jsonb e) = PrevHash e \<and> Hash (persist jsonb e) = Hash e \<and>
      CanonicalBytes (persist jsonb e) = CanonicalBytes e"
    by simp
  show "same_signed (persist jsonb e) e"
    by (rule persist_same_signed)
qed

end
