(* ===== verification/AuditLog.thy ===== *)
theory AuditLog
  imports AuditStore
begin

text \<open>
  The audit trail as a whole: the chain, the table and the archive through any sequence of
  batches, restarts and connection failures. The step relation \<^verbatim>\<open>audit_reach\<close> collects
  the states they can be in; the theorems say that what is in the table always verifies,
  that a log with the same end has the same signed content, and what happens to a batch
  that is delivered twice.
\<close>

section \<open>The reachable states of the trail\<close>

definition fresh_chain :: Chain where
  "fresh_chain = \<lparr>chain_tip = [], chain_read = False\<rparr>"

inductive audit_reach ::
  "sha \<Rightarrow> marshal \<Rightarrow> unmarshal \<Rightarrow> (string \<Rightarrow> string) \<Rightarrow> 'a Archive option \<Rightarrow> 'a \<Rightarrow>
   Chain \<Rightarrow> Table \<Rightarrow> 'a \<Rightarrow> bool"
  for sha marshal unmarshal jsonb archive a0 where
  start: "audit_reach sha marshal unmarshal jsonb archive a0 fresh_chain empty_table a0"
| batch: "audit_reach sha marshal unmarshal jsonb archive a0 c t a \<Longrightarrow>
     \<forall>e \<in> set es. codec_ok marshal unmarshal e \<Longrightarrow>
     Append sha marshal (store_sink jsonb) archive c t a es = ((c', t', a'), r) \<Longrightarrow>
     audit_reach sha marshal unmarshal jsonb archive a0 c' t' a'"
| restart: "audit_reach sha marshal unmarshal jsonb archive a0 c t a \<Longrightarrow>
     audit_reach sha marshal unmarshal jsonb archive a0 fresh_chain t a"
| connection: "audit_reach sha marshal unmarshal jsonb archive a0 c t a \<Longrightarrow>
     audit_reach sha marshal unmarshal jsonb archive a0 c (t\<lparr>script := s, tip_error := e\<rparr>) a"

section \<open>Sequence numbers\<close>

definition seqs_ok :: "Table \<Rightarrow> bool" where
  "seqs_ok t \<longleftrightarrow> sorted_wrt (<) (map fst (rows t)) \<and> (\<forall>r \<in> set (rows t). 0 < fst r \<and> fst r < next_seq t) \<and>
     0 < next_seq t"

lemma insert_row_seqs: "seqs_ok t \<Longrightarrow> insert_row jsonb t e = (t', r) \<Longrightarrow> seqs_ok t'"
  by (fastforce simp: insert_row_def seqs_ok_def Let_def sorted_wrt_append
      split: option.splits if_splits)

lemma insert_all_seqs: "seqs_ok t \<Longrightarrow> insert_all jsonb t es = (t', r) \<Longrightarrow> seqs_ok t' \<and> next_seq t \<le> next_seq t'"
proof (induction es arbitrary: t)
  case Nil
  then show ?case by simp
next
  case (Cons e es)
  obtain t1 o1 where t1: "insert_row jsonb t e = (t1, o1)"
    by fastforce
  have "seqs_ok t1"
    by (rule insert_row_seqs [OF Cons.prems(1) t1])
  moreover have "next_seq t \<le> next_seq t1"
    using t1 by (auto simp: insert_row_def Let_def split: option.splits if_splits)
  ultimately show ?case
    using Cons.IH [of t1] Cons.prems(2) t1 by (auto split: option.splits)
qed

lemma store_Append_seqs:
  assumes "seqs_ok t" and "store_Append jsonb t es = (t', r)"
  shows "seqs_ok t'"
proof -
  let ?t = "t\<lparr>script := tl (script t)\<rparr>"
  have s: "seqs_ok ?t"
    using assms(1) by (simp add: seqs_ok_def)
  have "seqs_ok u \<and> seqs_ok (rollback ?t u)" if "insert_all jsonb ?t es = (u, m)" for u m
    using insert_all_seqs [OF s that] assms(1) by (auto simp: seqs_ok_def rollback_def)
  with s assms(2) show ?thesis
    by (auto simp: store_Append_def Let_def split: tx_outcome.splits prod.splits option.splits if_splits)
qed

lemma Append_table:
  assumes "Append sha marshal (store_sink jsonb) archive c t a es = ((c', t', a'), r)"
  shows "t' = t \<or> (\<exists>ls o1. store_Append jsonb t ls = (t', o1))"
  using assms
  by (auto simp: Append_def Let_def store_sink_def split: if_splits sum.splits prod.splits option.splits)

lemma audit_reach_ok:
  "audit_reach sha marshal unmarshal jsonb archive a0 c t a \<Longrightarrow>
     linked sha unmarshal [] (table_log t) \<and> seqs_ok t"
proof (induction rule: audit_reach.induct)
  case start
  show ?case
    by (simp add: empty_table_def table_log_def seqs_ok_def)
next
  case (batch c t a es c' t' a' r)
  have "linked sha unmarshal [] (table_log t')"
    by (rule store.Append_keeps_linked [OF _ batch.hyps(2,3)]) (use batch.IH in simp)
  moreover have "seqs_ok t'"
    using Append_table [OF batch.hyps(3)] batch.IH store_Append_seqs by blast
  ultimately show ?case
    by simp
next
  case (restart c t a)
  then show ?case by simp
next
  case (connection c t a s e)
  then show ?case
    by (simp add: table_log_def seqs_ok_def)
qed

section \<open>Ranges of the table\<close>

lemma range_splits:
  fixes xs :: "(int \<times> 'b) list"
  assumes "sorted_wrt (<) (map fst xs)"
  shows "xs = filter (\<lambda>r. fst r < from) xs @ filter (\<lambda>r. from \<le> fst r \<and> fst r \<le> to) xs @
              filter (\<lambda>r. from \<le> fst r \<and> to < fst r) xs"
  using assms
proof (induction xs)
  case Nil
  then show ?case by simp
next
  case (Cons x xs)
  have IH: "xs = filter (\<lambda>r. fst r < from) xs @ filter (\<lambda>r. from \<le> fst r \<and> fst r \<le> to) xs @
      filter (\<lambda>r. from \<le> fst r \<and> to < fst r) xs"
    using Cons by simp
  have above: "\<forall>r \<in> set xs. fst x < fst r"
    using Cons.prems by auto
  consider "fst x < from" | "from \<le> fst x" "fst x \<le> to" | "from \<le> fst x" "to < fst x"
    by linarith
  then show ?case
  proof cases
    case 1
    with IH show ?thesis by simp
  next
    case 2
    then have "filter (\<lambda>r. fst r < from) xs = []"
      using above by (auto simp: filter_empty_conv)
    with 2 IH show ?thesis by simp
  next
    case 3
    then have "filter (\<lambda>r. fst r < from) xs = []" "filter (\<lambda>r. from \<le> fst r \<and> fst r \<le> to) xs = []"
      using above by (auto simp: filter_empty_conv)
    with 3 IH show ?thesis by simp
  qed
qed

lemma store_Range_linked:
  assumes "linked sha um [] (table_log t)" and "seqs_ok t"
  shows "linked sha um (snd (store_Range t from to)) (map snd (fst (store_Range t from to)))"
proof -
  let ?before = "filter (\<lambda>r. fst r < from) (rows t)"
  have "linked sha um [] (map snd (?before @ filter (\<lambda>r. from \<le> fst r \<and> fst r \<le> range_end to) (rows t) @
      filter (\<lambda>r. from \<le> fst r \<and> range_end to < fst r) (rows t)))"
    using assms range_splits [of "rows t" "from" "range_end to"]
    by (simp add: table_log_def seqs_ok_def)
  moreover have "tip_after [] (map snd ?before) = snd (store_Range t from to)"
    by (simp add: store_Range_def Let_def tip_after_last last_map)
  ultimately show ?thesis
    by (simp add: store_Range_def Let_def)
qed

section \<open>A batch that is delivered again\<close>

lemma insert_all_repeat:
  assumes "rows t \<noteq> []" and "AuditID e1 \<in> set (map AuditID (table_log t))"
    and "PrevHash e2 \<noteq> tip_after [] (table_log t)"
  shows "\<exists>t' m. insert_all jsonb t (e1 # e2 # es) = (t', Some m)"
proof (cases "insert_row jsonb t e1")
  case (Pair t1 o1)
  show ?thesis
  proof (cases o1)
    case None
    with Pair have "insert_row jsonb t e1 = (t1, None)"
      by simp
    from insert_row_log [OF this] assms(2) have log: "table_log t1 = table_log t"
      by simp
    obtain t2 o2 where t2: "insert_row jsonb t1 e2 = (t2, o2)"
      by fastforce
    with insert_row_log [of jsonb t1 e2 t2] log assms(3) obtain m where "o2 = Some m"
      by (cases o2) auto
    with Pair None t2 show ?thesis
      by simp
  next
    case (Some m)
    with Pair show ?thesis by simp
  qed
qed

lemma store_Append_repeat:
  assumes "rows t \<noteq> []" and "AuditID e1 \<in> set (map AuditID (table_log t))"
    and "PrevHash e2 \<noteq> tip_after [] (table_log t)"
  shows "\<exists>t' m. store_Append jsonb t (e1 # e2 # es) = (t', Some m) \<and> table_log t' = table_log t"
proof -
  let ?t = "t\<lparr>script := tl (script t)\<rparr>"
  obtain t' m where "insert_all jsonb ?t (e1 # e2 # es) = (t', Some m)"
    using insert_all_repeat [of ?t e1 e2 jsonb es] assms by auto
  then have "\<exists>u m. store_Append jsonb t (e1 # e2 # es) = (u, Some m)"
    by (auto simp: store_Append_def Let_def simp del: insert_all.simps split: tx_outcome.splits)
  then show ?thesis
    by (metis store_Append_err table_log_def)
qed

text \<open>
  A batch that is recorded and yet reported as failed is one whose archive write failed:
  the whole batch is in the table and the cached tip has been dropped.
\<close>

lemma Append_recorded_error:
  assumes "Append sha marshal (store_sink jsonb) archive c t a es = ((c1, t1, a1), Inl m)"
    and "table_log t1 \<noteq> table_log t"
    and "\<forall>e \<in> set es. codec_ok marshal um e"
    and "distinct (map AuditID es)" and "set (map AuditID es) \<inter> set (map AuditID (table_log t)) = {}"
  shows "\<not> chain_read c1 \<and> rows t1 \<noteq> [] \<and> (\<forall>e \<in> set es. AuditID e \<in> set (map AuditID (table_log t1)))"
proof -
  have no_err: "store_Append jsonb t ls = (u, Some err) \<Longrightarrow> table_log u = table_log t" for ls u err
    by (simp add: table_log_def store_Append_err)
  obtain tip ls f where link: "link_events sha marshal tip es = Inr (ls, f)"
    and app: "store_Append jsonb t ls = (t1, None)" and c1: "\<not> chain_read c1"
    using assms(1,2)
    by (auto simp: Append_def store_sink_def Let_def dest: no_err
        split: if_splits sum.splits prod.splits option.splits)
  have ids: "map AuditID ls = map AuditID es"
    using link_events_linked [OF link assms(3)] by simp
  have log: "table_log t1 = table_log t @ map (persist jsonb) ls"
    using store.append_fresh [of jsonb t ls t1] app assms(4,5) ids by (simp add: store_sink_def)
  from log assms(2) have "rows t1 \<noteq> []"
    by (auto simp: table_log_def)
  moreover have "set (map AuditID es) \<subseteq> set (map AuditID (table_log t1))"
    unfolding log ids [symmetric] by (auto simp: image_iff)
  ultimately show ?thesis
    using c1 by auto
qed

lemma Append_repeat_refused:
  assumes "\<not> chain_read c" and "store_Tip t = Inr (h, n)"
    and "rows t \<noteq> []" and "AuditID e1 \<in> set (map AuditID (table_log t))"
    and "Canonical marshal e1 = Inr b" and "Digest sha h b \<noteq> h"
  shows "\<exists>c' t' m. Append sha marshal (store_sink jsonb) archive c t a (e1 # e2 # es) = ((c', t', a), Inl m) \<and>
           table_log t' = table_log t"
proof (cases "link_events sha marshal h (e1 # e2 # es)")
  case (Inl m)
  with assms(1,2) show ?thesis
    by (simp add: Append_def store_sink_def Let_def del: link_events.simps)
next
  case (Inr p)
  have tip: "h = tip_after [] (table_log t)"
    using assms(2) store.tip_is_last by (fastforce simp: store_sink_def)
  obtain l1 l2 ls f where p: "p = (l1 # l2 # ls, f)" and l1: "AuditID l1 = AuditID e1"
    and l2: "PrevHash l2 = Digest sha h b"
    using Inr assms(5) by (auto simp: Let_def split: sum.splits prod.splits)
  obtain t' m where t': "store_Append jsonb t (l1 # l2 # ls) = (t', Some m)" "table_log t' = table_log t"
    using store_Append_repeat [of t l1 l2 jsonb ls] assms(3,4,6) l1 l2 tip by auto
  have "Append sha marshal (store_sink jsonb) archive c t a (e1 # e2 # es) =
      ((\<lparr>chain_tip = h, chain_read = False\<rparr>, t', a), Inl m)"
    using assms(1,2) Inr p t'(1)
    by (simp add: Append_def store_sink_def Let_def del: link_events.simps)
  with t'(2) show ?thesis
    by auto
qed

section \<open>A concrete trail, for the witnesses\<close>

definition example_event :: "string \<Rightarrow> Event" where
  "example_event i = \<lparr>AuditID = i, EventAt = 5000, Stage = ''ResponseComplete'', Actor = ''ana'',
     ActorGroups = [], ImpersonatedBy = [], ActingDivision = [], Verb = ''create'',
     Resource = ''namespaces'', Subresource = [], Namespace = [], ObjectName = [], ObjectUID = [],
     ResponseCode = 201, SourceIPs = [], UserAgent = [], Payload = ''{}'', Annotations = [],
     PrevHash = [], Hash = [], CanonicalBytes = []\<rparr>"

definition example_sha :: sha where
  "example_sha x = take 32 (rev x @ replicate 32 (CHR ''0''))"

definition example_marshal :: marshal where
  "example_marshal e = Inr (AuditID e)"

definition example_unmarshal :: unmarshal where
  "example_unmarshal b = Some (example_event b)"

definition example_batch :: "Event list" where
  "example_batch = [example_event ''a'', example_event ''b'']"

definition example_append :: "Chain \<Rightarrow> Table \<Rightarrow> Event list \<Rightarrow> (Chain \<times> Table \<times> unit) \<times> (string + int)" where
  "example_append c t es = Append example_sha example_marshal (store_sink id) None c t () es"

definition example_table :: Table where
  "example_table = fst (snd (fst (example_append fresh_chain empty_table example_batch)))"

lemma example_codec: "\<forall>e \<in> set example_batch. codec_ok example_marshal example_unmarshal e"
  by (simp add: example_batch_def codec_ok_def example_marshal_def example_unmarshal_def
      same_signed_def example_event_def)

lemma example_reach:
  "audit_reach example_sha example_marshal example_unmarshal id None ()
     (fst (fst (example_append fresh_chain empty_table example_batch))) example_table ()"
proof (rule audit_reach.batch [OF audit_reach.start example_codec])
  show "Append example_sha example_marshal (store_sink id) None fresh_chain empty_table () example_batch =
      ((fst (fst (example_append fresh_chain empty_table example_batch)), example_table, ()),
       snd (example_append fresh_chain empty_table example_batch))"
    by (simp add: example_append_def example_table_def prod_eq_iff)
qed

lemma example_table_log: "map AuditID (table_log example_table) = [''a'', ''b'']"
  by code_simp

section \<open>Properties\<close>

text \<open>
  C7. Whatever batches arrive, in whatever order, with whatever duplicates, restarts and
  failures of the connection or the archive, every range of the audit table verifies: a
  verification that reports a broken chain is never caused by the platform's own writes.
\<close>

theorem recorded_log_always_verifies:
  assumes "audit_reach sha marshal unmarshal jsonb archive a0 c t a"
  shows "Intact (Verify sha unmarshal (map snd (fst (store_Range t from to))) (snd (store_Range t from to)))"
  using audit_reach_ok [OF assms] by (simp add: Verify_intact_linked store_Range_linked)

theorem recorded_log_always_verifies_witness:
  "map AuditID (table_log example_table) = [''a'', ''b''] \<and>
   Intact (Verify example_sha example_unmarshal (map snd (fst (store_Range example_table 2 0)))
     (snd (store_Range example_table 2 0)))"
  using recorded_log_always_verifies [OF example_reach, of 2 0] example_table_log by simp


definition example_copy :: "Event list" where
  "example_copy = map (\<lambda>e. e\<lparr>UserAgent := ''kubectl''\<rparr>) (table_log example_table)"


text \<open>
  \<^verbatim>\<open>Verify\<close> decides the chain: it reports intact exactly for a linked log, having
  checked every event, and otherwise names the position of the first event that does not
  follow the hash before it, the events in front of it being linked.
\<close>

theorem Verify_locates_the_first_break:
  "if Intact (Verify sha unmarshal es start)
   then linked sha unmarshal start es \<and> Checked (Verify sha unmarshal es start) = int (length es)
   else (\<exists>pre e post. es = pre @ e # post \<and> linked sha unmarshal start pre \<and>
           \<not> follows sha unmarshal (tip_after start pre) e \<and>
           BrokenAtSeq (Verify sha unmarshal es start) = int (length pre))"
proof (cases "Intact (Verify sha unmarshal es start)")
  case True
  then have "linked sha unmarshal start es"
    by (simp add: Verify_intact_linked)
  with True show ?thesis
    by (simp add: Verify_def verify_from_checked)
next
  case False
  from verify_from_break [OF _ False [unfolded Verify_def]] show ?thesis
    unfolding Verify_def using False [unfolded Verify_def] by fastforce
qed

text \<open>
  An append that reports success on a batch of events the table does not know records
  all of them, in order, at the end of the table, counts them, and leaves the cached tip
  equal to the table's.
\<close>

theorem accepted_batch_is_recorded_whole:
  assumes "Append sha marshal (store_sink jsonb) archive c t a es = ((c', t', a'), Inr n)" and "es \<noteq> []"
    and "chain_read c \<longrightarrow> chain_tip c = tip_after [] (table_log t)"
    and "\<forall>e \<in> set es. codec_ok marshal unmarshal e"
    and "distinct (map AuditID es)" and "set (map AuditID es) \<inter> set (map AuditID (table_log t)) = {}"
  shows "n = int (length es) \<and> chain_read c' \<and> chain_tip c' = tip_after [] (table_log t') \<and>
         (\<exists>ls. table_log t' = table_log t @ map (persist jsonb) ls \<and> map AuditID ls = map AuditID es)"
  by (rule store.Append_records [OF assms])

theorem accepted_batch_is_recorded_whole_witness:
  "(\<exists>c' t'. example_append fresh_chain empty_table example_batch = ((c', t', ()), Inr 2) \<and>
     chain_tip c' = tip_after [] (table_log t') \<and> length (table_log t') = 2)"
proof -
  obtain c' t' where r: "example_append fresh_chain empty_table example_batch = ((c', t', ()), Inr 2)"
  proof -
    have "snd (example_append fresh_chain empty_table example_batch) = Inr 2"
      by code_simp
    then show thesis
      by (metis that prod.collapse old.unit.exhaust)
  qed
  have "2 = int (length example_batch) \<and> chain_read c' \<and> chain_tip c' = tip_after [] (table_log t') \<and>
      (\<exists>ls. table_log t' = table_log empty_table @ map (persist id) ls \<and>
            map AuditID ls = map AuditID example_batch)"
    by (rule accepted_batch_is_recorded_whole [OF r [unfolded example_append_def] _ _ example_codec])
      (simp_all add: example_batch_def example_event_def fresh_chain_def empty_table_def table_log_def)
  then obtain ls where "table_log t' = table_log empty_table @ map (persist id) ls"
    and "map AuditID ls = map AuditID example_batch"
    and tip: "chain_tip c' = tip_after [] (table_log t')"
    by blast
  then have "length (table_log t') = 2"
    by (auto simp: empty_table_def table_log_def example_batch_def)
  with r tip show ?thesis
    by blast
qed

text \<open>
  A batch of two or more new events that reached the table but was reported as failed
  (its archive write failed) can never be delivered: the retry the API server sends is
  refused by the table's trigger, because the first event is skipped as a duplicate while
  the second is linked to it, and the archive is not even called. The events stay out of
  the archive for good.
\<close>

theorem failed_archive_write_blocks_every_retry:
  assumes "Append sha marshal (store_sink jsonb) archive c t a (e1 # e2 # es) = ((c1, t1, a1), Inl m)"
    and "table_log t1 \<noteq> table_log t"
    and "\<forall>e \<in> set (e1 # e2 # es). codec_ok marshal unmarshal e"
    and "distinct (map AuditID (e1 # e2 # es))"
    and "set (map AuditID (e1 # e2 # es)) \<inter> set (map AuditID (table_log t)) = {}"
    and "tip_error t1 = None" and "Canonical marshal e1 = Inr b"
    and "Digest sha (tip_after [] (table_log t1)) b \<noteq> tip_after [] (table_log t1)"
  shows "\<exists>c2 t2 m2. Append sha marshal (store_sink jsonb) archive c1 t1 a1 (e1 # e2 # es) =
           ((c2, t2, a1), Inl m2) \<and> table_log t2 = table_log t1"
proof -
  note * = Append_recorded_error [OF assms(1-5)]
  obtain h n where h: "store_Tip t1 = Inr (h, n)"
    using assms(6) by (cases "rows t1 = []") (simp_all add: store_Tip_def)
  then have "h = tip_after [] (table_log t1)"
    using store.tip_is_last by (fastforce simp: store_sink_def)
  with * h assms(7,8) show ?thesis
    using Append_repeat_refused [of c1 t1 h n e1 marshal b sha jsonb archive a1 e2 es] by auto
qed

definition failing_archive :: "nat Archive" where
  "failing_archive n es = (if n = 0 then (1, Some ''disk full'') else (n + length es, None))"

definition example_failed :: "(Chain \<times> Table \<times> nat) \<times> (string + int)" where
  "example_failed = Append example_sha example_marshal (store_sink id) (Some failing_archive)
     fresh_chain empty_table 0 example_batch"

theorem failed_archive_write_blocks_every_retry_witness:
  "\<exists>c2 t2 m2. Append example_sha example_marshal (store_sink id) (Some failing_archive)
     (fst (fst example_failed)) (fst (snd (fst example_failed))) (snd (snd (fst example_failed)))
     example_batch = ((c2, t2, snd (snd (fst example_failed))), Inl m2) \<and>
   table_log t2 = table_log (fst (snd (fst example_failed)))"
proof -
  have failed: "snd example_failed = Inl ''archive audit events: disk full''"
    by code_simp
  show ?thesis
    unfolding example_batch_def
  proof (rule failed_archive_write_blocks_every_retry [where b = "''a''"])
    show "Append example_sha example_marshal (store_sink id) (Some failing_archive)
        fresh_chain empty_table 0 [example_event ''a'', example_event ''b''] =
        ((fst (fst example_failed), fst (snd (fst example_failed)), snd (snd (fst example_failed))),
         Inl ''archive audit events: disk full'')"
      using failed by (simp add: example_failed_def example_batch_def prod_eq_iff)
    show "table_log (fst (snd (fst example_failed))) \<noteq> table_log empty_table"
      by code_simp
    show "\<forall>e \<in> set [example_event ''a'', example_event ''b'']. codec_ok example_marshal example_unmarshal e"
      using example_codec by (simp add: example_batch_def)
    show "tip_error (fst (snd (fst example_failed))) = None"
      by code_simp
    show "Canonical example_marshal (example_event ''a'') = Inr ''a''"
      by code_simp
    show "Digest example_sha (tip_after [] (table_log (fst (snd (fst example_failed))))) ''a'' \<noteq>
        tip_after [] (table_log (fst (snd (fst example_failed))))"
      by code_simp
  qed (simp_all add: example_event_def empty_table_def table_log_def)
qed

end
