(* ===== verification/AuditService.thy ===== *)
theory AuditService
  imports AuditLog
begin

text \<open>
  The two ways into the audit trail: the webhook of internal/audit/webhook.go, which filters
  and converts what the API server delivers and hands it to the chain, and the service of
  internal/audit/service.go, which lists, fetches and verifies what was recorded.
  The bytes of an HTTP body, their decoding and the archive's index are arguments.
\<close>

section \<open>The webhook\<close>

record Filter =
  Groups :: "string list"
  Resources :: "string list"

definition Allows :: "Filter \<Rightarrow> string \<Rightarrow> string \<Rightarrow> bool" where
  "Allows f grp resource =
     (if Groups f = [] \<and> Resources f = [] then True
      else if grp \<in> set (Groups f) then True
      else if resource \<in> set (Resources f) then True
      else False)"

definition DefaultFilter :: Filter where
  "DefaultFilter = \<lparr>Groups = [''govern.marstack.io'', ''rbac.authorization.k8s.io''],
     Resources = [''namespaces'', ''resourcequotas'', ''limitranges'', ''networkpolicies'',
                  ''serviceaccounts'', ''secrets'']\<rparr>"

record auditUser =
  Username :: string
  UserGroups :: "string list"

record objectReference =
  ref_Resource :: string
  ref_Namespace :: string
  ref_Name :: string
  ref_UID :: string
  ref_APIGroup :: string
  ref_APIVersion :: string
  ref_Subresource :: string

record auditEvent =
  item_AuditID :: string
  item_Stage :: string
  item_Verb :: string
  item_User :: auditUser
  item_ImpersonatedUser :: "auditUser option"
  item_SourceIPs :: "string list"
  item_UserAgent :: string
  item_ObjectRef :: "objectReference option"
  item_ResponseStatus :: "int option"
  item_RequestReceivedTimestamp :: time
  item_Annotations :: "(string \<times> string) list"

definition qualified_resource :: "string \<Rightarrow> string \<Rightarrow> string" where
  "qualified_resource grp resource = (if grp = [] then resource else resource @ ''.'' @ grp)"

definition annotation :: "(string \<times> string) list \<Rightarrow> string \<Rightarrow> string" where
  "annotation m k = (case map_of m k of None \<Rightarrow> [] | Some v \<Rightarrow> v)"

definition convert ::
  "Filter \<Rightarrow> (auditEvent \<Rightarrow> string option) \<Rightarrow> time \<Rightarrow> auditEvent \<Rightarrow> Event option" where
  "convert flt marshal_item now item =
     (if item_Stage item \<noteq> ''ResponseComplete'' \<and> item_Stage item \<noteq> ''Panic'' then None
      else case item_ObjectRef item of
        None \<Rightarrow> None
      | Some ref \<Rightarrow>
          if \<not> Allows flt (ref_APIGroup ref) (ref_Resource ref) then None
          else case marshal_item item of
            None \<Rightarrow> None
          | Some payload \<Rightarrow>
              (let eventAt = (if is_zero_time (item_RequestReceivedTimestamp item) then now
                              else item_RequestReceivedTimestamp item);
                   event = \<lparr>AuditID = item_AuditID item, EventAt = eventAt, Stage = item_Stage item,
                     Actor = Username (item_User item), ActorGroups = UserGroups (item_User item),
                     ImpersonatedBy = [],
                     ActingDivision = annotation (item_Annotations item) ActingDivisionLabel,
                     Verb = item_Verb item,
                     Resource = qualified_resource (ref_APIGroup ref) (ref_Resource ref),
                     Subresource = ref_Subresource ref, Namespace = ref_Namespace ref,
                     ObjectName = ref_Name ref, ObjectUID = ref_UID ref, ResponseCode = 0,
                     SourceIPs = item_SourceIPs item, UserAgent = item_UserAgent item,
                     Payload = payload, Annotations = item_Annotations item,
                     PrevHash = [], Hash = [], CanonicalBytes = []\<rparr>;
                   event = (case item_ImpersonatedUser item of
                      None \<Rightarrow> event
                    | Some user \<Rightarrow> event\<lparr>ImpersonatedBy := Actor event, Actor := Username user,
                                         ActorGroups := UserGroups user\<rparr>);
                   event = (case item_ResponseStatus item of
                      None \<Rightarrow> event
                    | Some code \<Rightarrow> event\<lparr>ResponseCode := code\<rparr>)
               in if AuditID event = [] \<or> Actor event = [] then None else Some event))"

definition cut_prefix :: "string \<Rightarrow> string \<Rightarrow> string option" where
  "cut_prefix p s = (if take (length p) s = p then Some (drop (length p) s) else None)"

definition authorised :: "string \<Rightarrow> string \<Rightarrow> bool" where
  "authorised token header =
     (if token = [] then False
      else case cut_prefix ''Bearer '' header of
             None \<Rightarrow> False
           | Some presented \<Rightarrow> presented = token)"

text \<open>
  The handler: the status it answers with, and the chain's new state. \<^verbatim>\<open>body\<close> is the
  read body or nothing, \<^verbatim>\<open>decode\<close> the JSON decoder for an event list.
\<close>

definition convert_all ::
  "Filter \<Rightarrow> (auditEvent \<Rightarrow> string option) \<Rightarrow> time \<Rightarrow> auditEvent list \<Rightarrow> Event list" where
  "convert_all flt marshal_item now items = List.map_filter (convert flt marshal_item now) items"

definition ServeHTTP ::
  "sha \<Rightarrow> marshal \<Rightarrow> 's Sink \<Rightarrow> 'a Archive option \<Rightarrow> string \<Rightarrow> Filter \<Rightarrow>
   (auditEvent \<Rightarrow> string option) \<Rightarrow> (string \<Rightarrow> auditEvent list option) \<Rightarrow> time \<Rightarrow>
   Chain \<times> 's \<times> 'a \<Rightarrow> string \<Rightarrow> string option \<Rightarrow> int \<times> Chain \<times> 's \<times> 'a" where
  "ServeHTTP sha marshal sink archive token flt marshal_item decode now state header body =
     (if \<not> authorised token header then (401, state)
      else case body of
        None \<Rightarrow> (400, state)
      | Some bytes \<Rightarrow>
          (case decode bytes of
             None \<Rightarrow> (400, state)
           | Some items \<Rightarrow>
               (case state of (c, s, a) \<Rightarrow>
                  (case Append sha marshal sink archive c s a (convert_all flt marshal_item now items) of
                     (state', Inl _) \<Rightarrow> (503, state')
                   | (state', Inr _) \<Rightarrow> (200, state')))))"

section \<open>The service\<close>

datatype service_error = Unauthenticated | NotFoundError string | Internal string

type_synonym archive_index = "string \<rightharpoonup> string"

fun compare_records :: "archive_index \<Rightarrow> (int \<times> Event) list \<Rightarrow> Verification \<Rightarrow> Verification" where
  "compare_records hashes [] v = v"
| "compare_records hashes ((seq, e) # records) v =
     (case hashes (AuditID e) of
        None \<Rightarrow> v\<lparr>Intact := False, BrokenAtSeq := seq,
                 Detail := ''event '' @ AuditID e @ '' is in the database but not in the archive''\<rparr>
      | Some archivedHash \<Rightarrow>
          if archivedHash \<noteq> hex_encode (Hash e) then
            v\<lparr>Intact := False, BrokenAtSeq := seq,
              Detail := ''event '' @ AuditID e @ '' does not match the archived copy''\<rparr>
          else compare_records hashes records v)"

definition compareArchive ::
  "string + archive_index \<Rightarrow> (int \<times> Event) list \<Rightarrow> Verification \<Rightarrow> string + Verification" where
  "compareArchive archived records v =
     (case archived of
        Inl err \<Rightarrow> Inl err
      | Inr hashes \<Rightarrow> Inr (compare_records hashes records (v\<lparr>ArchiveChecked := True\<rparr>)))"

text \<open>
  \<^verbatim>\<open>archive\<close> is the result of reading the archive's hashes, when the service has an
  archive; \<^verbatim>\<open>range_error\<close> a failure of the range query.
\<close>

definition VerifyChain ::
  "sha \<Rightarrow> unmarshal \<Rightarrow> Table \<Rightarrow> string option \<Rightarrow> (string + archive_index) option \<Rightarrow>
   bool \<Rightarrow> int \<Rightarrow> int \<Rightarrow> bool \<Rightarrow> service_error + Verification" where
  "VerifyChain sha unmarshal t range_error archive signed_in from_seq to_seq compare =
     (if \<not> signed_in then Inl Unauthenticated
      else
        let from = (if from_seq \<le> 0 then 1 else from_seq)
        in case range_error of
             Some m \<Rightarrow> Inl (Internal m)
           | None \<Rightarrow>
               (let (records, start) = store_Range t from to_seq;
                    v = Verify sha unmarshal (map snd records) start;
                    v = (if records \<noteq> [] then
                           (let v = v\<lparr>FirstSeq := fst (hd records), LastSeq := fst (last records)\<rparr>
                            in if \<not> Intact v \<and> BrokenAtSeq v < int (length records)
                               then v\<lparr>BrokenAtSeq := fst (records ! nat (BrokenAtSeq v))\<rparr>
                               else v)
                         else v)
                in case (if compare then archive else None) of
                     None \<Rightarrow> Inr v
                   | Some archived \<Rightarrow>
                       (case compareArchive archived records v of
                          Inl err \<Rightarrow> Inl (Internal err)
                        | Inr v \<Rightarrow> Inr v)))"

definition GetEvent :: "Table \<Rightarrow> string option \<Rightarrow> bool \<Rightarrow> int \<Rightarrow> service_error + int \<times> Event" where
  "GetEvent t range_error signed_in seq =
     (if \<not> signed_in then Inl Unauthenticated
      else case range_error of
             Some m \<Rightarrow> Inl (Internal m)
           | None \<Rightarrow>
               (case store_Get t seq of
                  None \<Rightarrow> Inl (NotFoundError (''audit event '' @ show_int seq @ '' not found''))
                | Some r \<Rightarrow> Inr r))"

record ListEventsRequest =
  req_Division :: string
  req_Actor :: string
  req_Verb :: string
  req_Resource :: string
  req_ObjectUid :: string
  req_PageSize :: "int option"
  req_Since :: "time option"
  req_Until :: "time option"

definition query_of :: "ListEventsRequest \<Rightarrow> Query" where
  "query_of req = \<lparr>q_Division = req_Division req, q_Actor = req_Actor req, q_Verb = req_Verb req,
     q_Resource = req_Resource req, q_ObjectUID = req_ObjectUid req, q_ObjectName = [],
     q_Namespace = [], q_Since = req_Since req, q_Until = req_Until req,
     q_Limit = (case req_PageSize req of None \<Rightarrow> 0 | Some n \<Rightarrow> n)\<rparr>"

definition ListEvents ::
  "Table \<Rightarrow> string option \<Rightarrow> bool \<Rightarrow> ListEventsRequest \<Rightarrow> service_error + (int \<times> Event) list" where
  "ListEvents t list_error signed_in req =
     (if \<not> signed_in then Inl Unauthenticated
      else case list_error of
             Some m \<Rightarrow> Inl (Internal m)
           | None \<Rightarrow> Inr (store_List t (query_of req)))"

section \<open>Lemmas\<close>

lemma compare_records_intact:
  "Intact (compare_records hashes records v) \<longleftrightarrow>
     (\<forall>(seq, e) \<in> set records. hashes (AuditID e) = Some (hex_encode (Hash e))) \<and> Intact v"
  by (induction hashes records v rule: compare_records.induct) (auto split: option.splits if_splits)

lemma convert_actor:
  "convert flt marshal_item now item = Some e \<Longrightarrow>
     AuditID e = item_AuditID item \<and> AuditID e \<noteq> [] \<and> Actor e \<noteq> [] \<and>
     (case item_ImpersonatedUser item of
        None \<Rightarrow> Actor e = Username (item_User item) \<and> ImpersonatedBy e = []
      | Some user \<Rightarrow> Actor e = Username user \<and> ImpersonatedBy e = Username (item_User item))"
  by (auto simp: convert_def Let_def split: if_splits option.splits)

lemma authorised_iff: "authorised token header \<longleftrightarrow> token \<noteq> [] \<and> header = ''Bearer '' @ token"
proof -
  have "cut_prefix ''Bearer '' header = Some token \<longleftrightarrow> header = ''Bearer '' @ token"
    unfolding cut_prefix_def by (metis append_eq_conv_conj append_take_drop_id option.discI option.inject)
  then show ?thesis
    by (auto simp: authorised_def split: option.splits)
qed

section \<open>Properties\<close>

text \<open>
  Verifying a range of the trail against the archive, signed in and with the archive
  readable, reports intact exactly when every event of the range is in the archive with the
  hash the table has: the chain itself never fails for what the platform recorded.
\<close>

theorem VerifyChain_compares_with_the_archive:
  assumes "audit_reach sha marshal unmarshal jsonb archive a0 c t a"
  shows "\<exists>v. VerifyChain sha unmarshal t None (Some (Inr hashes)) True from to True = Inr v \<and>
     ArchiveChecked v \<and>
     (Intact v \<longleftrightarrow> (\<forall>(seq, e) \<in> set (fst (store_Range t (if from \<le> 0 then 1 else from) to)).
        hashes (AuditID e) = Some (hex_encode (Hash e))))"
proof -
  obtain records start where r: "store_Range t (if from \<le> 0 then 1 else from) to = (records, start)"
    by fastforce
  have "Intact (Verify sha unmarshal (map snd records) start)"
    using audit_reach_ok [OF assms] store_Range_linked [of sha unmarshal t "if from \<le> 0 then 1 else from" to] r
    by (simp add: Verify_intact_linked)
  moreover have "ArchiveChecked (compare_records hashes rs v) = ArchiveChecked v" for rs v
    by (induction hashes rs v rule: compare_records.induct) (simp_all split: option.splits)
  ultimately show ?thesis
    using r by (simp add: VerifyChain_def compareArchive_def compare_records_intact Let_def split del: if_split)
       (auto split: if_splits)
qed

theorem VerifyChain_compares_with_the_archive_witness:
  "\<exists>v. VerifyChain example_sha example_unmarshal example_table None (Some (Inr Map.empty)) True 0 0 True = Inr v \<and>
     ArchiveChecked v \<and> \<not> Intact v"
proof -
  have "fst (store_Range example_table 1 0) \<noteq> []"
    by code_simp
  then obtain r where "r \<in> set (fst (store_Range example_table 1 0))"
    by (metis list.set_intros(1) neq_Nil_conv)
  with VerifyChain_compares_with_the_archive [OF example_reach, of Map.empty 0 0]
  show ?thesis
    by (cases r) auto
qed

text \<open>
  A delivery without the configured bearer token is answered 401 and changes nothing, an
  empty configured token accepts nobody, and every delivery whose chain append fails is
  answered 503, so the API server keeps the batch.
\<close>

theorem ServeHTTP_answers:
  "ServeHTTP sha marshal sink archive token flt marshal_item decode now (c, s, a) header body =
     (if token \<noteq> [] \<and> header = ''Bearer '' @ token then
        (case Option.bind body decode of
           None \<Rightarrow> (400, c, s, a)
         | Some items \<Rightarrow>
             (case Append sha marshal sink archive c s a (convert_all flt marshal_item now items) of
                (state, r) \<Rightarrow> (if isl r then 503 else 200, state)))
      else (401, c, s, a))"
  by (auto simp: ServeHTTP_def authorised_iff split: option.splits prod.splits sum.splits)

text \<open>
  What the webhook records names the real caller: every converted event has an
  identifier and an actor, and under impersonation the actor is the impersonated user while
  the authenticated one is kept beside it; nothing outside the filter is recorded.
\<close>

theorem convert_attributes_the_event:
  assumes "convert flt marshal_item now item = Some e"
  shows "AuditID e \<noteq> [] \<and> Actor e \<noteq> [] \<and>
     (case item_ImpersonatedUser item of
        None \<Rightarrow> Actor e = Username (item_User item) \<and> ImpersonatedBy e = []
      | Some user \<Rightarrow> Actor e = Username user \<and> ImpersonatedBy e = Username (item_User item)) \<and>
     (\<exists>ref. item_ObjectRef item = Some ref \<and> Allows flt (ref_APIGroup ref) (ref_Resource ref) \<and>
        Resource e = qualified_resource (ref_APIGroup ref) (ref_Resource ref))"
  using convert_actor [OF assms] assms
  by (auto simp: convert_def Let_def split: if_splits option.splits)

definition example_item :: auditEvent where
  "example_item = \<lparr>item_AuditID = ''a'', item_Stage = ''ResponseComplete'', item_Verb = ''create'',
     item_User = \<lparr>Username = ''system:serviceaccount:govern'', UserGroups = []\<rparr>,
     item_ImpersonatedUser = Some \<lparr>Username = ''ana'', UserGroups = [''payments'']\<rparr>,
     item_SourceIPs = [], item_UserAgent = [],
     item_ObjectRef = Some \<lparr>ref_Resource = ''namespaces'', ref_Namespace = [], ref_Name = ''x'',
        ref_UID = [], ref_APIGroup = [], ref_APIVersion = [], ref_Subresource = []\<rparr>,
     item_ResponseStatus = Some 201, item_RequestReceivedTimestamp = 7, item_Annotations = []\<rparr>"

theorem convert_attributes_the_event_witness:
  "Actor (the (convert DefaultFilter (\<lambda>i. Some ''{}'') 9 example_item)) = ''ana'' \<and>
   ImpersonatedBy (the (convert DefaultFilter (\<lambda>i. Some ''{}'') 9 example_item)) = ''system:serviceaccount:govern''"
proof -
  obtain e where "convert DefaultFilter (\<lambda>i. Some ''{}'') 9 example_item = Some e"
    by (simp add: convert_def example_item_def DefaultFilter_def Allows_def Let_def)
  with convert_attributes_the_event [OF this] show ?thesis
    by (simp add: example_item_def)
qed

end
