(* ===== verification/KubeObjects.thy ===== *)
theory KubeObjects
  imports Prelude
begin

text \<open>
  The parts of the Kubernetes objects that the program reads. A resource quantity is what
  the program asks of it: its value in thousandths, its value, and whether it is zero; the
  arithmetic behind these accessors is not part of the repository.
  A list call of the client returns an error or the objects.
\<close>

record Quantity =
  MilliValue :: int
  Value :: int
  QuantityIsZero :: bool

definition zero_quantity :: Quantity where
  "zero_quantity = \<lparr>MilliValue = 0, Value = 0, QuantityIsZero = True\<rparr>"

record PodCondition =
  pc_Type :: string
  pc_Status :: string
  pc_Reason :: string
  pc_Message :: string

record KPod =
  pod_Namespace :: string
  pod_Name :: string
  pod_NodeName :: string
  pod_Phase :: string
  pod_Requests :: "(Quantity \<times> Quantity) list"
  pod_Conditions :: "PodCondition list"

record KNode =
  node_Name :: string
  node_Unschedulable :: bool
  node_Conditions :: "(string \<times> string) list"
  node_TaintEffects :: "string list"
  node_CPU :: "Quantity option"
  node_Memory :: "Quantity option"

text \<open>The accessors \<^verbatim>\<open>Cpu()\<close> and \<^verbatim>\<open>Memory()\<close> of a resource list: zero when absent.\<close>

definition quantity_or_zero :: "Quantity option \<Rightarrow> Quantity" where
  "quantity_or_zero q = (case q of None \<Rightarrow> zero_quantity | Some q \<Rightarrow> q)"

end
