(* ===== verification/GovernApi.thy ===== *)
theory GovernApi
  imports KubeObjects
begin

text \<open>
  The custom resources of api/v1alpha1: divisions, quota requests, decisions, preview
  environments and pricing policies, with the predicates the types define. Phases and
  outcomes are datatypes (the empty phase of a new object included); an optional time is an
  option. Object metadata is the part the controllers read.
\<close>

record ObjectMeta =
  om_Name :: string
  om_Namespace :: string
  om_UID :: string
  om_Generation :: int
  om_CreationTimestamp :: time
  om_DeletionTimestamp :: "time option"

record Condition =
  cond_Type :: string
  cond_Status :: string
  cond_Reason :: string
  cond_Message :: string
  cond_LastTransitionTime :: time

record Quota =
  q_CPU :: Quantity
  q_Memory :: Quantity
  q_Storage :: Quantity
  q_Pods :: int

definition zero_quota :: Quota where
  "zero_quota = \<lparr>q_CPU = zero_quantity, q_Memory = zero_quantity, q_Storage = zero_quantity, q_Pods = 0\<rparr>"

section \<open>Divisions\<close>

datatype DivisionPhase = NoDivisionPhase | DivisionPending | DivisionActive | DivisionSuspended
  | DivisionTerminating

datatype Role = RoleViewer | RoleOperator | RoleAdmin | RoleApprover

record Limits =
  DefaultRequestCPU :: Quantity
  DefaultRequestMemory :: Quantity
  MaxCPUPerPod :: Quantity
  MaxMemoryPerPod :: Quantity

record Grant =
  grant_Role :: Role
  grant_Group :: string

record DivisionSpec =
  DisplayName :: string
  Environments :: "string list"
  dv_Quota :: Quota
  dv_Limits :: Limits
  Access :: "Grant list"
  DefaultDeny :: "bool option"
  Suspended :: bool

record DivisionStatus =
  dv_Phase :: DivisionPhase
  dv_Namespaces :: "string list"
  QuotaBackend :: string
  dv_ObservedGeneration :: int
  dv_Conditions :: "Condition list"

record Division =
  dv_Meta :: ObjectMeta
  dv_Spec :: DivisionSpec
  dv_Status :: DivisionStatus

definition NamespaceFor :: "Division \<Rightarrow> string \<Rightarrow> string" where
  "NamespaceFor d environment = om_Name (dv_Meta d) @ ''-'' @ environment"

definition IsolationEnabled :: "Division \<Rightarrow> bool" where
  "IsolationEnabled d = (case DefaultDeny (dv_Spec d) of None \<Rightarrow> True | Some b \<Rightarrow> b)"

section \<open>Quota requests\<close>

datatype RequestPhase = NoRequestPhase | RequestPending | RequestAwaitingDecision | RequestApproved
  | RequestRejected | RequestChangesRequested | RequestApplied | RequestExpired | RequestWithdrawn

fun phase_text :: "RequestPhase \<Rightarrow> string" where
  "phase_text NoRequestPhase = []"
| "phase_text RequestPending = ''Pending''"
| "phase_text RequestAwaitingDecision = ''AwaitingDecision''"
| "phase_text RequestApproved = ''Approved''"
| "phase_text RequestRejected = ''Rejected''"
| "phase_text RequestChangesRequested = ''ChangesRequested''"
| "phase_text RequestApplied = ''Applied''"
| "phase_text RequestExpired = ''Expired''"
| "phase_text RequestWithdrawn = ''Withdrawn''"

record QuotaRequestSpec =
  qr_Division :: string
  qr_Target :: Quota
  qr_Reason :: string
  qr_RequestedBy :: string
  qr_IdempotencyKey :: string
  qr_Withdrawn :: bool

record Recommendation =
  rec_Current :: Quota
  rec_ObservedP95 :: Quota
  rec_ObservedP99 :: Quota
  rec_Proposed :: Quota
  rec_Window :: string
  rec_Basis :: string
  rec_ExhaustionAt :: "time option"
  rec_HeadroomPercent :: int

record PreflightFinding =
  pf_Severity :: string
  pf_Check :: string
  pf_Message :: string
  pf_Field :: string

record PreflightResult =
  Admitted :: bool
  Findings :: "PreflightFinding list"
  ClusterCommitmentPercent :: int
  EvaluatedAt :: "time option"

record SimPendingPod =
  sp_Namespace :: string
  sp_Name :: string
  sp_Reason :: string

record Simulation =
  sim_Schedulable :: bool
  sim_TypicalPodCPUMillicores :: int
  sim_TypicalPodMemoryBytes :: int
  sim_HeadroomPods :: int
  sim_PlacedPods :: int
  sim_UnplacedPods :: int
  sim_NodesExhausted :: "string list"
  sim_PendingNow :: "SimPendingPod list"
  sim_CommitmentBeforePercent :: int
  sim_CommitmentAfterPercent :: int
  sim_Verdict :: string
  sim_SimulatedAt :: "time option"

record QuotaRequestStatus =
  qr_Phase :: RequestPhase
  qr_Recommendation :: "Recommendation option"
  qr_Preflight :: "PreflightResult option"
  qr_Simulation :: "Simulation option"
  qr_DecisionRef :: string
  qr_EvidenceDigest :: string
  qr_ObservedGeneration :: int
  qr_Conditions :: "Condition list"

record QuotaRequest =
  qr_Meta :: ObjectMeta
  qr_Spec :: QuotaRequestSpec
  qr_Status :: QuotaRequestStatus

fun Open :: "QuotaRequest \<Rightarrow> bool" where
  "Open r = (case qr_Phase (qr_Status r) of
       NoRequestPhase \<Rightarrow> \<not> qr_Withdrawn (qr_Spec r)
     | RequestPending \<Rightarrow> \<not> qr_Withdrawn (qr_Spec r)
     | RequestAwaitingDecision \<Rightarrow> \<not> qr_Withdrawn (qr_Spec r)
     | RequestChangesRequested \<Rightarrow> \<not> qr_Withdrawn (qr_Spec r)
     | _ \<Rightarrow> False)"

declare Open.simps [simp del]

section \<open>Decisions\<close>

datatype Outcome = OutcomeApproved | OutcomeRejected | OutcomeChangesRequested

record RequestRef =
  ref_Kind :: string
  rref_Name :: string
  rref_Namespace :: string
  rref_UID :: string

record Evidence =
  ev_Recommendation :: "Recommendation option"
  ev_Preflight :: "PreflightResult option"
  ev_Simulation :: "Simulation option"
  ev_Digest :: string
  ev_CapturedAt :: time

record DecisionSpec =
  dc_Request :: RequestRef
  dc_Outcome :: Outcome
  dc_Reason :: string
  dc_Evidence :: Evidence
  dc_DecidedBy :: string
  dc_GrantedUntil :: "time option"
  dc_RevokedReason :: string

record DecisionStatus =
  dc_Applied :: bool
  dc_AppliedAt :: "time option"
  dc_Expired :: bool
  dc_Message :: string
  dc_ObservedGeneration :: int
  dc_Conditions :: "Condition list"

record Decision =
  dc_Meta :: ObjectMeta
  dc_Spec :: DecisionSpec
  dc_Status :: DecisionStatus

definition Lapsed :: "Decision \<Rightarrow> time \<Rightarrow> bool" where
  "Lapsed d now =
     (if dc_Outcome (dc_Spec d) \<noteq> OutcomeApproved then False
      else case dc_GrantedUntil (dc_Spec d) of None \<Rightarrow> False | Some until \<Rightarrow> now > until)"

section \<open>Preview environments\<close>

datatype EnvironmentPhase = NoEnvironmentPhase | EnvironmentPending | EnvironmentReady
  | EnvironmentExpired | EnvironmentReclaiming | EnvironmentOrphaned

record ChangeRef =
  ch_Repository :: string
  ch_Number :: int
  ch_Branch :: string
  ch_Revision :: string

record Renewal =
  Extend :: string
  ren_Reason :: string
  GrantedBy :: string
  GrantedAt :: time

record EphemeralEnvironmentSpec =
  ee_Division :: string
  ee_Change :: ChangeRef
  ee_Quota :: Quota
  ee_TTL :: string
  ee_RequestedBy :: string
  Renewals :: "Renewal list"

record EphemeralEnvironmentStatus =
  ee_Phase :: EnvironmentPhase
  ee_Namespace :: string
  LeaseStartedAt :: "time option"
  ee_ExpiresAt :: "time option"
  GrantedTTL :: string
  ReclaimedAt :: "time option"
  ee_ObservedGeneration :: int
  ee_Conditions :: "Condition list"

record EphemeralEnvironment =
  ee_Meta :: ObjectMeta
  ee_Spec :: EphemeralEnvironmentSpec
  ee_Status :: EphemeralEnvironmentStatus

fun Live :: "EphemeralEnvironment \<Rightarrow> bool" where
  "Live e = (case ee_Phase (ee_Status e) of
       EnvironmentPending \<Rightarrow> True
     | EnvironmentReady \<Rightarrow> True
     | NoEnvironmentPhase \<Rightarrow> True
     | _ \<Rightarrow> False)"

section \<open>Pricing policies\<close>

datatype UnallocatedStrategy = UnallocatedPlatform | UnallocatedProRata

record Rates =
  CPUCoreMonth :: string
  MemoryGiMonth :: string
  StorageGiMonth :: string
  LoadBalancerMonth :: string
  EgressGiRate :: string

record PricingPolicySpec =
  pp_Currency :: string
  pp_Rates :: Rates
  EffectiveFrom :: string
  EffectiveTo :: string
  pp_Unallocated :: UnallocatedStrategy
  pp_ApprovedBy :: string
  pp_ApprovedAt :: time

record PricingPolicyObject =
  pp_Meta :: ObjectMeta
  pp_Spec :: PricingPolicySpec

end
