(* ===== verification/Float64.thy ===== *)
theory Float64
  imports Complex_Main Prelude "HOL-Library.Log_Nat"
begin

text \<open>
  Go's \<^verbatim>\<open>float64\<close> as far as the program uses it: a value is a rational number, and every
  operation rounds its exact result to 53 significant bits, ties to even. The exponent
  range is not bounded: the program's operands are counts of millicores and bytes and their
  quotients, far from the limits of the format. \<^verbatim>\<open>go_round\<close> is math.Round,
  \<^verbatim>\<open>float_to_i64\<close> the conversion to int64, whose value out of range is the one of the
  amd64 instruction (Go leaves it to the implementation).
  The locale \<^verbatim>\<open>rounding\<close> states what the percentages rely on.
\<close>

section \<open>Rounding to 53 bits\<close>

definition pow2 :: "int \<Rightarrow> rat" where
  "pow2 e = (if 0 \<le> e then 2 ^ nat e else 1 / 2 ^ nat (- e))"

text \<open>The binary exponent of a non-zero rational, from the bit lengths of its fraction.\<close>

definition exponent :: "rat \<Rightarrow> int" where
  "exponent x = (let (p, q) = quotient_of \<bar>x\<bar>; d = bitlen p - bitlen q
                 in if pow2 d \<le> \<bar>x\<bar> then d else d - 1)"

definition rne :: "rat \<Rightarrow> int" where
  "rne x = (let f = \<lfloor>x\<rfloor>; d = x - of_int f
            in if d < 1 / 2 then f else if d > 1 / 2 then f + 1 else if even f then f else f + 1)"

definition fl :: "rat \<Rightarrow> rat" where
  "fl x = (if x = 0 then 0
           else let u = pow2 (exponent x - 52) in of_int (rne (x / u)) * u)"

definition fdiv :: "rat \<Rightarrow> rat \<Rightarrow> rat" where
  "fdiv a b = fl (a / b)"

definition fmul :: "rat \<Rightarrow> rat \<Rightarrow> rat" where
  "fmul a b = fl (a * b)"

definition fadd :: "rat \<Rightarrow> rat \<Rightarrow> rat" where
  "fadd a b = fl (a + b)"

definition float_of_int :: "int \<Rightarrow> rat" where
  "float_of_int n = fl (of_int n)"

section \<open>Rounding to integers and conversion\<close>

definition trunc :: "rat \<Rightarrow> int" where
  "trunc x = (if 0 \<le> x then \<lfloor>x\<rfloor> else \<lceil>x\<rceil>)"

definition go_round :: "rat \<Rightarrow> rat" where
  "go_round x = (if 0 \<le> x then of_int \<lfloor>x + 1 / 2\<rfloor> else of_int \<lceil>x - 1 / 2\<rceil>)"

definition go_ceil :: "rat \<Rightarrow> rat" where
  "go_ceil x = of_int \<lceil>x\<rceil>"

definition float_to_i64 :: "rat \<Rightarrow> int" where
  "float_to_i64 x = (if in_i64 (trunc x) then trunc x else min_i64)"

definition wrap32 :: "int \<Rightarrow> int" where
  "wrap32 x = (x + 2147483648) mod 4294967296 - 2147483648"

definition float_to_i32 :: "rat \<Rightarrow> int" where
  "float_to_i32 x = wrap32 (float_to_i64 x)"

section \<open>Powers of two and exponents\<close>

lemma pow2_pos [simp]: "0 < pow2 e"
  by (simp add: pow2_def)

lemma pow2_powr: "(of_rat (pow2 e) :: real) = 2 powr of_int e"
  by (simp add: pow2_def of_rat_power of_rat_divide powr_realpow [symmetric] powr_minus_divide)

lemma pow2_add: "pow2 (a + b) = pow2 a * pow2 b"
proof -
  have "(of_rat (pow2 (a + b)) :: real) = of_rat (pow2 a * pow2 b)"
    by (simp only: of_rat_mult pow2_powr of_int_add powr_add)
  then show ?thesis
    by (simp only: of_rat_eq_iff)
qed

lemma pow2_0 [simp]: "pow2 0 = 1" and pow2_1: "pow2 1 = 2"
  by (simp_all add: pow2_def)

lemma pow2_mono: "a \<le> b \<Longrightarrow> pow2 a \<le> pow2 b"
proof -
  assume "a \<le> b"
  then have "(of_rat (pow2 a) :: real) \<le> of_rat (pow2 b)"
    by (simp add: pow2_powr)
  then show ?thesis
    by (simp only: of_rat_less_eq)
qed

lemma pow2_less_imp: "pow2 a < pow2 b \<Longrightarrow> a < b"
  using pow2_mono [of b a] by (metis not_le)

lemma pow2_nat: "pow2 (int n) = 2 ^ n"
  by (simp add: pow2_def)

lemma exponent_bounds:
  assumes "0 < x"
  shows "pow2 (exponent x) \<le> x \<and> x < pow2 (exponent x + 1)"
proof -
  obtain p q where pq: "quotient_of x = (p, q)"
    by fastforce
  from quotient_of_div [OF pq] have x: "x = of_int p / of_int q" .
  have q: "0 < q"
    using quotient_of_denom_pos [OF pq] .
  have p: "0 < p"
    using assms q by (simp add: x zero_less_divide_iff)
  have bit: "pow2 (bitlen n - 1) \<le> of_int n \<and> of_int n < pow2 (bitlen n)" if "0 < n" for n
  proof -
    have "2 ^ nat (bitlen n - 1) \<le> n \<and> n < 2 ^ nat (bitlen n)" and "0 < bitlen n"
      using bitlen_bounds [OF that] bitlen_eq_zero_iff [of n] bitlen_nonneg [of n] that by auto
    then show ?thesis
      unfolding pow2_def by (simp flip: of_int_le_iff of_int_less_iff)
  qed
  let ?d = "bitlen p - bitlen q"
  have "x < pow2 (bitlen p) / pow2 (bitlen q - 1)"
    unfolding x using bit [OF p] bit [OF q] p q by (intro frac_less) auto
  also have "\<dots> = pow2 (?d + 1)"
    using pow2_add [of "?d + 1" "bitlen q - 1"] by (simp add: divide_eq_eq less_imp_neq [symmetric])
  finally have up: "x < pow2 (?d + 1)" .
  have "pow2 (?d - 1) = pow2 (bitlen p - 1) / pow2 (bitlen q)"
    using pow2_add [of "?d - 1" "bitlen q"] by (simp add: eq_divide_eq less_imp_neq [symmetric])
  also have "\<dots> \<le> x"
    unfolding x using bit [OF p] bit [OF q] p q by (intro frac_le) auto
  finally have low: "pow2 (?d - 1) \<le> x" .
  show ?thesis
    using up low assms by (simp add: exponent_def pq Let_def)
qed

lemma exponent_mono:
  assumes "0 < x" and "x \<le> y"
  shows "exponent x \<le> exponent y"
proof -
  have "pow2 (exponent x) < pow2 (exponent y + 1)"
    using exponent_bounds [of x] exponent_bounds [of y] assms by linarith
  then show ?thesis
    using pow2_less_imp by fastforce
qed

section \<open>Rounding is monotone and keeps small integers\<close>

lemma rne_mono: "x \<le> y \<Longrightarrow> rne x \<le> rne y"
proof -
  assume xy: "x \<le> y"
  then have f: "\<lfloor>x\<rfloor> \<le> \<lfloor>y\<rfloor>"
    by (rule floor_mono)
  show ?thesis
  proof (cases "\<lfloor>x\<rfloor> = \<lfloor>y\<rfloor>")
    case True
    with xy show ?thesis
      by (simp add: rne_def Let_def)
  next
    case False
    with f have "\<lfloor>x\<rfloor> + 1 \<le> \<lfloor>y\<rfloor>"
      by simp
    moreover have "rne x \<le> \<lfloor>x\<rfloor> + 1" "\<lfloor>y\<rfloor> \<le> rne y"
      by (simp_all add: rne_def Let_def)
    ultimately show ?thesis
      by linarith
  qed
qed

lemma rne_of_int [simp]: "rne (of_int n) = n"
  by (simp add: rne_def Let_def)

lemma rne_near: "\<bar>of_int (rne x) - x\<bar> \<le> 1 / 2"
proof -
  have "of_int \<lfloor>x\<rfloor> \<le> x" and "x < of_int \<lfloor>x\<rfloor> + 1"
    by linarith+
  then show ?thesis
    by (simp add: rne_def Let_def)
qed

lemma fl_bounds:
  assumes "0 < x"
  shows "pow2 (exponent x) \<le> fl x \<and> fl x \<le> pow2 (exponent x + 1)"
proof -
  let ?u = "pow2 (exponent x - 52)"
  have e: "pow2 (exponent x) = of_int (2 ^ 52) * ?u" "pow2 (exponent x + 1) = of_int (2 ^ 53) * ?u"
    using pow2_add [of 52 "exponent x - 52"] pow2_add [of 53 "exponent x - 52"]
      pow2_nat [of 52] pow2_nat [of 53]
    by (simp_all add: add.commute)
  have "of_int (2 ^ 52) \<le> x / ?u" "x / ?u \<le> of_int (2 ^ 53)"
    using exponent_bounds [OF assms] unfolding e by (simp_all add: pos_le_divide_eq pos_divide_le_eq)
  then have "2 ^ 52 \<le> rne (x / ?u)" "rne (x / ?u) \<le> 2 ^ 53"
    using rne_mono by (metis rne_of_int)+
  then have "of_int (2 ^ 52) * ?u \<le> of_int (rne (x / ?u)) * ?u" "of_int (rne (x / ?u)) * ?u \<le> of_int (2 ^ 53) * ?u"
    by (simp_all only: mult_le_cancel_right_pos pow2_pos of_int_le_iff)
  with assms e show ?thesis
    by (simp only: fl_def Let_def) simp
qed

lemma fl_0 [simp]: "fl 0 = 0"
  by (simp add: fl_def)

lemma fl_nonneg: "0 \<le> x \<Longrightarrow> 0 \<le> fl x"
  using fl_bounds [of x] pow2_pos [of "exponent x"] by (cases "x = 0") (auto simp: less_le)

lemma fl_mono:
  assumes "0 \<le> x" and "x \<le> y"
  shows "fl x \<le> fl y"
proof (cases "x = 0")
  case True
  with assms show ?thesis
    by (simp add: fl_nonneg)
next
  case False
  with assms have pos: "0 < x" "0 < y"
    by linarith+
  show ?thesis
  proof (cases "exponent x = exponent y")
    case True
    let ?u = "pow2 (exponent y - 52)"
    have "rne (x / ?u) \<le> rne (y / ?u)"
      using assms(2) by (intro rne_mono divide_right_mono) (simp_all add: less_imp_le)
    then show ?thesis
      using pos True by (simp add: fl_def Let_def)
  next
    case False
    with exponent_mono [OF pos(1) assms(2)] have "exponent x + 1 \<le> exponent y"
      by simp
    then show ?thesis
      using fl_bounds [OF pos(1)] fl_bounds [OF pos(2)] pow2_mono by (meson order_trans)
  qed
qed

lemma fl_of_nat_exact:
  assumes "n < 2 ^ 53"
  shows "fl (of_nat n) = of_nat n"
proof (cases "n = 0")
  case True
  then show ?thesis by simp
next
  case False
  let ?x = "of_nat n :: rat"
  let ?e = "exponent ?x"
  have x: "0 < ?x"
    using False by simp
  have "(of_nat n :: rat) < of_nat (2 ^ 53)"
    using assms by (simp only: of_nat_less_iff)
  then have "pow2 ?e < pow2 53"
    using exponent_bounds [OF x] by (simp add: pow2_def)
  then have e: "?e - 52 \<le> 0"
    using pow2_less_imp by fastforce
  then obtain k where k: "?e - 52 = - int k"
    by (metis nonpos_int_cases)
  have u: "pow2 (?e - 52) = 1 / 2 ^ k"
    unfolding k by (cases "k = 0") (simp_all add: pow2_def)
  have "?x / pow2 (?e - 52) = of_int (int n * 2 ^ k)"
    by (simp add: u)
  then have "rne (?x / pow2 (?e - 52)) = int n * 2 ^ k"
    by (simp only: rne_of_int)
  with x show ?thesis
    by (simp add: fl_def Let_def u)
qed

section \<open>What the percentages rely on\<close>

locale rounding =
  fixes rnd :: "rat \<Rightarrow> rat"
  assumes rnd_mono: "0 \<le> x \<Longrightarrow> x \<le> y \<Longrightarrow> rnd x \<le> rnd y"
    and rnd_small: "n < 2 ^ 53 \<Longrightarrow> rnd (of_nat n) = of_nat n"
begin

lemma rnd_0 [simp]: "rnd 0 = 0"
  using rnd_small [of 0] by simp

lemma rnd_1 [simp]: "rnd 1 = 1"
  using rnd_small [of 1] by simp

lemma rnd_100 [simp]: "rnd 100 = 100"
  using rnd_small [of 100] by simp

lemma rnd_pos: "1 \<le> n \<Longrightarrow> 1 \<le> rnd (of_int n)"
  using rnd_mono [of 1 "of_int n"] by simp

text \<open>A quotient of rounded counts times 100 is on the right side of 100.\<close>

lemma percent_le:
  assumes "0 \<le> part" and "part \<le> whole" and "0 < whole"
  shows "0 \<le> rnd (rnd (rnd (of_int part) / rnd (of_int whole)) * 100) \<and>
         rnd (rnd (rnd (of_int part) / rnd (of_int whole)) * 100) \<le> 100"
proof -
  have w: "1 \<le> rnd (of_int whole)"
    using assms(3) by (simp add: rnd_pos)
  have p: "0 \<le> rnd (of_int part)" "rnd (of_int part) \<le> rnd (of_int whole)"
    using assms(1,2) rnd_mono [of 0 "of_int part"] rnd_mono [of "of_int part" "of_int whole"] by simp_all
  let ?q = "rnd (of_int part) / rnd (of_int whole)"
  have q: "0 \<le> ?q" "?q \<le> 1"
    using w p by simp_all
  have r: "0 \<le> rnd ?q" "rnd ?q \<le> 1"
    using q rnd_mono [of 0 ?q] rnd_mono [of ?q 1] by simp_all
  show ?thesis
    using r rnd_mono [of 0 "rnd ?q * 100"] rnd_mono [of "rnd ?q * 100" 100] by simp
qed

lemma percent_ge:
  assumes "whole \<le> part" and "0 < whole"
  shows "100 \<le> rnd (rnd (rnd (of_int part) / rnd (of_int whole)) * 100)"
proof -
  have w: "1 \<le> rnd (of_int whole)"
    using assms(2) by (simp add: rnd_pos)
  have p: "rnd (of_int whole) \<le> rnd (of_int part)"
    using assms rnd_mono [of "of_int whole" "of_int part"] by simp
  let ?q = "rnd (of_int part) / rnd (of_int whole)"
  have "1 \<le> ?q"
    using w p by simp
  then have "1 \<le> rnd ?q"
    using rnd_mono [of 1 ?q] by simp
  then show ?thesis
    using rnd_mono [of 100 "rnd ?q * 100"] by simp
qed

end

interpretation f64: rounding fl
  by unfold_locales (simp_all add: fl_mono fl_of_nat_exact)

end
