(* ===== verification/Preflight.thy ===== *)
theory Preflight
  imports GovernApi Float64
begin

text \<open>
  The preflight check of internal/requests/preflight.go: what the cluster can allocate, what
  its divisions have been promised, and whether a target fits. The replies of the two list
  calls are arguments, as is the clock.
\<close>

section \<open>Compute amounts of the requests package\<close>

record RCompute =
  rc_CPUMillicores :: int
  rc_MemoryBytes :: int
  rc_StorageBytes :: int
  rc_Pods :: int

definition zero_rcompute :: RCompute where
  "zero_rcompute = \<lparr>rc_CPUMillicores = 0, rc_MemoryBytes = 0, rc_StorageBytes = 0, rc_Pods = 0\<rparr>"

definition quotaOf :: "Quota \<Rightarrow> RCompute" where
  "quotaOf q = \<lparr>rc_CPUMillicores = MilliValue (q_CPU q), rc_MemoryBytes = Value (q_Memory q),
                rc_StorageBytes = Value (q_Storage q), rc_Pods = q_Pods q\<rparr>"

definition add_compute :: "RCompute \<Rightarrow> int \<Rightarrow> int \<Rightarrow> RCompute" where
  "add_compute c cpu mem = c\<lparr>rc_CPUMillicores := wrap64 (rc_CPUMillicores c + cpu),
                             rc_MemoryBytes := wrap64 (rc_MemoryBytes c + mem)\<rparr>"

section \<open>Preflight\<close>

definition warnCommitmentPercent :: int where "warnCommitmentPercent = 85"

record PreflightView =
  pv_nodes :: "api_error + KNode list"
  pv_divisions :: "api_error + Division list"

definition percentOf :: "int \<Rightarrow> int \<Rightarrow> int" where
  "percentOf part whole =
     (if whole \<le> 0 then 0
      else let v = go_round (fmul (fdiv (float_of_int part) (float_of_int whole)) 100)
           in if v > of_int max_i32 then max_i32 else float_to_i32 v)"

definition allocatable :: "PreflightView \<Rightarrow> string + RCompute" where
  "allocatable v =
     (case pv_nodes v of
        Inl err \<Rightarrow> Inl (''list nodes: '' @ error_text err)
      | Inr nodes \<Rightarrow>
          Inr (fold (\<lambda>node tot.
                 if node_Unschedulable node then tot
                 else
                   let tot = (case node_CPU node of None \<Rightarrow> tot
                                | Some cpu \<Rightarrow> add_compute tot (MilliValue cpu) 0)
                   in case node_Memory node of None \<Rightarrow> tot
                      | Some memory \<Rightarrow> add_compute tot 0 (Value memory))
               nodes zero_rcompute))"

text \<open>What all divisions hold, and what the named one holds (the last of that name).\<close>

definition committed :: "PreflightView \<Rightarrow> string \<Rightarrow> string + RCompute \<times> RCompute" where
  "committed v division =
     (case pv_divisions v of
        Inl err \<Rightarrow> Inl (''list divisions: '' @ error_text err)
      | Inr items \<Rightarrow>
          Inr (fold (\<lambda>item (tot, current).
                 let quota = quotaOf (dv_Quota (dv_Spec item));
                     tot = add_compute tot (rc_CPUMillicores quota) (rc_MemoryBytes quota)
                 in (tot, if om_Name (dv_Meta item) = division then quota else current))
               items (zero_rcompute, zero_rcompute)))"

definition after_target :: "RCompute \<Rightarrow> RCompute \<Rightarrow> RCompute \<Rightarrow> RCompute" where
  "after_target tot current target =
     \<lparr>rc_CPUMillicores =
        wrap64 (wrap64 (rc_CPUMillicores tot - rc_CPUMillicores current) + rc_CPUMillicores target),
      rc_MemoryBytes =
        wrap64 (wrap64 (rc_MemoryBytes tot - rc_MemoryBytes current) + rc_MemoryBytes target),
      rc_StorageBytes = 0, rc_Pods = 0\<rparr>"

definition shrink_findings :: "RCompute \<Rightarrow> RCompute \<Rightarrow> PreflightFinding list" where
  "shrink_findings target current =
     (if rc_CPUMillicores target < rc_CPUMillicores current then
        [\<lparr>pf_Severity = ''warn'', pf_Check = ''quota-shrinks'',
          pf_Message = ''the target of '' @ show_int (rc_CPUMillicores target) @
            ''m is below the current quota of '' @ show_int (rc_CPUMillicores current) @
            ''m, so running workloads may be evicted from their headroom'',
          pf_Field = ''spec.target.cpu''\<rparr>]
      else [])"

definition cpu_findings :: "RCompute \<Rightarrow> RCompute \<Rightarrow> PreflightFinding list" where
  "cpu_findings after alloc =
     (if rc_CPUMillicores alloc > 0 \<and> rc_CPUMillicores after > rc_CPUMillicores alloc then
        [\<lparr>pf_Severity = ''block'', pf_Check = ''cluster-cpu'',
          pf_Message = ''granting this would commit '' @ show_int (rc_CPUMillicores after) @
            ''m of cpu against '' @ show_int (rc_CPUMillicores alloc) @ ''m allocatable in the cluster'',
          pf_Field = ''spec.target.cpu''\<rparr>]
      else [])"

definition memory_findings :: "RCompute \<Rightarrow> RCompute \<Rightarrow> PreflightFinding list" where
  "memory_findings after alloc =
     (if rc_MemoryBytes alloc > 0 \<and> rc_MemoryBytes after > rc_MemoryBytes alloc then
        [\<lparr>pf_Severity = ''block'', pf_Check = ''cluster-memory'',
          pf_Message = ''granting this would commit '' @ show_int (rc_MemoryBytes after) @
            '' bytes of memory against '' @ show_int (rc_MemoryBytes alloc) @
            '' allocatable in the cluster'',
          pf_Field = ''spec.target.memory''\<rparr>]
      else [])"

definition headroom_findings :: "bool \<Rightarrow> int \<Rightarrow> PreflightFinding list" where
  "headroom_findings admitted percent =
     (if admitted \<and> percent \<ge> warnCommitmentPercent then
        [\<lparr>pf_Severity = ''warn'', pf_Check = ''cluster-headroom'',
          pf_Message = ''the cluster would be '' @ show_int percent @
            ''% committed on cpu, leaving little room for another division'',
          pf_Field = []\<rparr>]
      else [])"

definition Evaluate :: "PreflightView \<Rightarrow> time \<Rightarrow> string \<Rightarrow> RCompute \<Rightarrow> string + PreflightResult" where
  "Evaluate v now division target =
     (case allocatable v of
        Inl m \<Rightarrow> Inl m
      | Inr alloc \<Rightarrow>
     (case committed v division of
        Inl m \<Rightarrow> Inl m
      | Inr (tot, current) \<Rightarrow>
          (let after = after_target tot current target;
               percent = percentOf (rc_CPUMillicores after) (rc_CPUMillicores alloc);
               cpu = cpu_findings after alloc;
               memory = memory_findings after alloc;
               admitted = (cpu = [] \<and> memory = [])
           in Inr \<lparr>Admitted = admitted,
                   Findings = shrink_findings target current @ cpu @ memory @
                              headroom_findings admitted percent,
                   ClusterCommitmentPercent = percent, EvaluatedAt = Some now\<rparr>)))"

definition firstBlocking :: "PreflightResult \<Rightarrow> string" where
  "firstBlocking result =
     (case find (\<lambda>f. pf_Severity f = ''block'') (Findings result) of
        Some f \<Rightarrow> pf_Message f
      | None \<Rightarrow> ''the target does not fit'')"

section \<open>Percentages\<close>

lemma percentOf_below:
  assumes "0 \<le> part" and "part \<le> whole" and "0 < whole"
  shows "0 \<le> percentOf part whole \<and> percentOf part whole \<le> 100"
proof -
  let ?v = "fmul (fdiv (float_of_int part) (float_of_int whole)) 100"
  have v: "0 \<le> ?v" "?v \<le> 100"
    using f64.percent_le [OF assms] by (simp_all add: fmul_def fdiv_def float_of_int_def)
  define n where "n = \<lfloor>?v + 1 / 2\<rfloor>"
  have n: "0 \<le> n" "n \<le> 100"
    using v unfolding n_def by linarith+
  have r: "go_round ?v = of_int n"
    using v by (simp add: go_round_def n_def)
  have "float_to_i32 (of_int n) = n"
    using n by (simp add: float_to_i32_def float_to_i64_def trunc_def wrap32_def in_i64_def min_i64_def max_i64_def)
  moreover have "\<not> (of_int n :: rat) > of_int max_i32"
    using n by (simp add: max_i32_def)
  ultimately show ?thesis
    using assms(3) n r by (simp add: percentOf_def Let_def)
qed

lemma percentOf_above:
  assumes "whole \<le> part" and "0 < whole"
  shows "100 \<le> percentOf part whole"
proof -
  let ?v = "fmul (fdiv (float_of_int part) (float_of_int whole)) 100"
  have v: "100 \<le> ?v"
    using f64.percent_ge [OF assms] by (simp add: fmul_def fdiv_def float_of_int_def)
  define n where "n = \<lfloor>?v + 1 / 2\<rfloor>"
  have n: "100 \<le> n"
    using v unfolding n_def by linarith
  have r: "go_round ?v = of_int n"
    using v by (simp add: go_round_def n_def)
  show ?thesis
  proof (cases "n > max_i32")
    case True
    then have "(of_int n :: rat) > of_int max_i32"
      by (simp only: of_int_less_iff)
    with assms(2) r show ?thesis
      by (simp add: percentOf_def Let_def max_i32_def)
  next
    case False
    then have "float_to_i32 (of_int n) = n"
      using n by (simp add: float_to_i32_def float_to_i64_def trunc_def wrap32_def in_i64_def min_i64_def
          max_i64_def max_i32_def)
    moreover have "\<not> (of_int n :: rat) > of_int max_i32"
      using False by (simp only: of_int_less_iff not_False_eq_True)
    ultimately show ?thesis
      using assms(2) n r by (simp add: percentOf_def Let_def)
  qed
qed

lemma Evaluate_cases:
  assumes "Evaluate v now division target = Inr result"
  obtains alloc tot current where
    "allocatable v = Inr alloc" and "committed v division = Inr (tot, current)"
    and "result = \<lparr>Admitted = (cpu_findings (after_target tot current target) alloc = [] \<and>
                             memory_findings (after_target tot current target) alloc = []),
           Findings = shrink_findings target current @
             cpu_findings (after_target tot current target) alloc @
             memory_findings (after_target tot current target) alloc @
             headroom_findings (cpu_findings (after_target tot current target) alloc = [] \<and>
                             memory_findings (after_target tot current target) alloc = [])
               (percentOf (rc_CPUMillicores (after_target tot current target)) (rc_CPUMillicores alloc)),
           ClusterCommitmentPercent =
             percentOf (rc_CPUMillicores (after_target tot current target)) (rc_CPUMillicores alloc),
           EvaluatedAt = Some now\<rparr>"
  using assms by (auto simp: Evaluate_def Let_def split: sum.splits prod.splits)

lemma finding_severities:
  "f \<in> set (shrink_findings target current) \<Longrightarrow> pf_Severity f = ''warn''"
  "f \<in> set (headroom_findings admitted percent) \<Longrightarrow> pf_Severity f = ''warn''"
  "f \<in> set (cpu_findings after alloc) \<Longrightarrow> pf_Severity f = ''block''"
  "f \<in> set (memory_findings after alloc) \<Longrightarrow> pf_Severity f = ''block''"
  by (auto simp: shrink_findings_def headroom_findings_def cpu_findings_def memory_findings_def
      split: if_splits)

lemma findings_Nil:
  "cpu_findings after alloc = [] \<longleftrightarrow>
     \<not> (0 < rc_CPUMillicores alloc \<and> rc_CPUMillicores alloc < rc_CPUMillicores after)"
  "memory_findings after alloc = [] \<longleftrightarrow>
     \<not> (0 < rc_MemoryBytes alloc \<and> rc_MemoryBytes alloc < rc_MemoryBytes after)"
  by (simp_all add: cpu_findings_def memory_findings_def)

section \<open>Properties\<close>

text \<open>
  Preflight admits a target exactly when, in each dimension the cluster has capacity
  for, what would be committed is at most what is allocatable; it records a blocking finding
  exactly when it does not admit, and the reason given is the first of them.
\<close>

theorem preflight_blocks_exactly_what_exceeds_the_cluster:
  assumes "Evaluate v now division target = Inr result"
  shows "\<exists>alloc tot current. allocatable v = Inr alloc \<and> committed v division = Inr (tot, current) \<and>
     Admitted result =
       (\<not> (0 < rc_CPUMillicores alloc \<and>
           rc_CPUMillicores alloc < rc_CPUMillicores (after_target tot current target)) \<and>
        \<not> (0 < rc_MemoryBytes alloc \<and>
           rc_MemoryBytes alloc < rc_MemoryBytes (after_target tot current target))) \<and>
     Admitted result = list_all (\<lambda>f. pf_Severity f \<noteq> ''block'') (Findings result) \<and>
     (Admitted result = False) = (\<exists>f \<in> set (Findings result). pf_Severity f = ''block'' \<and>
        firstBlocking result = pf_Message f)"
  using assms
proof (rule Evaluate_cases)
  fix alloc tot current
  let ?after = "after_target tot current target"
  let ?c = "cpu_findings ?after alloc" and ?m = "memory_findings ?after alloc"
  assume v: "allocatable v = Inr alloc" "committed v division = Inr (tot, current)"
    and r: "result = \<lparr>Admitted = (?c = [] \<and> ?m = []),
           Findings = shrink_findings target current @ ?c @ ?m @
             headroom_findings (?c = [] \<and> ?m = []) (percentOf (rc_CPUMillicores ?after) (rc_CPUMillicores alloc)),
           ClusterCommitmentPercent = percentOf (rc_CPUMillicores ?after) (rc_CPUMillicores alloc),
           EvaluatedAt = Some now\<rparr>"
  have blocks: "f \<in> set (Findings result) \<Longrightarrow> pf_Severity f = ''block'' \<longleftrightarrow> f \<in> set ?c \<union> set ?m" for f
    unfolding r by (auto dest: finding_severities)
  have all: "list_all (\<lambda>f. pf_Severity f \<noteq> ''block'') (Findings result) = Admitted result"
  proof -
    have "set ?c \<union> set ?m \<subseteq> set (Findings result)"
      by (auto simp: r)
    moreover have "Admitted result \<longleftrightarrow> set ?c \<union> set ?m = {}"
      by (simp add: r)
    moreover have "list_all (\<lambda>f. pf_Severity f \<noteq> ''block'') (Findings result) \<longleftrightarrow>
        set (Findings result) \<inter> (set ?c \<union> set ?m) = {}"
      by (rule list_all_disjoint) (rule blocks)
    ultimately show ?thesis
      by (metis Int_absorb1)
  qed
  have "\<exists>f \<in> set (Findings result). pf_Severity f = ''block'' \<and> firstBlocking result = pf_Message f"
    if "\<not> Admitted result"
  proof -
    have "find (\<lambda>f. pf_Severity f = ''block'') (Findings result) \<noteq> None"
      using that all by (auto simp: find_None_iff list_all_iff)
    then obtain f where f: "find (\<lambda>f. pf_Severity f = ''block'') (Findings result) = Some f"
      by blast
    then have "f \<in> set (Findings result)" and "pf_Severity f = ''block''"
      by (auto simp: find_Some_iff)
    with f show ?thesis
      by (intro bexI [of _ f]) (simp_all add: firstBlocking_def)
  qed
  then have "(Admitted result = False) = (\<exists>f \<in> set (Findings result). pf_Severity f = ''block'' \<and>
      firstBlocking result = pf_Message f)"
    using all by (auto simp: list_all_iff)
  moreover have "Admitted result = (\<not> (0 < rc_CPUMillicores alloc \<and> rc_CPUMillicores alloc < rc_CPUMillicores ?after) \<and>
      \<not> (0 < rc_MemoryBytes alloc \<and> rc_MemoryBytes alloc < rc_MemoryBytes ?after))"
    by (simp add: r findings_Nil)
  ultimately show ?thesis
    using v all [symmetric] by (intro exI conjI)
qed

definition small_quota :: "int \<Rightarrow> Quota" where
  "small_quota n = \<lparr>q_CPU = \<lparr>MilliValue = 1000 * n, Value = n, QuantityIsZero = (n = 0)\<rparr>,
     q_Memory = \<lparr>MilliValue = 1000 * n, Value = n, QuantityIsZero = (n = 0)\<rparr>,
     q_Storage = zero_quantity, q_Pods = 0\<rparr>"

definition example_division :: Division where
  "example_division = \<lparr>
     dv_Meta = \<lparr>om_Name = ''payments'', om_Namespace = [], om_UID = ''d1'', om_Generation = 1,
       om_CreationTimestamp = 1, om_DeletionTimestamp = None\<rparr>,
     dv_Spec = \<lparr>DisplayName = ''Payments'', Environments = [''dev''], dv_Quota = small_quota 2,
       dv_Limits = \<lparr>DefaultRequestCPU = zero_quantity, DefaultRequestMemory = zero_quantity,
         MaxCPUPerPod = zero_quantity, MaxMemoryPerPod = zero_quantity\<rparr>,
       Access = [], DefaultDeny = None, Suspended = False\<rparr>,
     dv_Status = \<lparr>dv_Phase = DivisionActive, dv_Namespaces = [''payments-dev''], QuotaBackend = [],
       dv_ObservedGeneration = 1, dv_Conditions = []\<rparr>\<rparr>"

definition example_preflight_view :: PreflightView where
  "example_preflight_view = \<lparr>
     pv_nodes = Inr [\<lparr>node_Name = ''a'', node_Unschedulable = False, node_Conditions = [],
        node_TaintEffects = [], node_CPU = Some \<lparr>MilliValue = 4000, Value = 4, QuantityIsZero = False\<rparr>,
        node_Memory = Some \<lparr>MilliValue = 8000, Value = 8, QuantityIsZero = False\<rparr>\<rparr>],
     pv_divisions = Inr [example_division]\<rparr>"

definition example_preflight :: "string + PreflightResult" where
  "example_preflight = Evaluate example_preflight_view 9 ''payments'' (quotaOf (small_quota 5))"

theorem preflight_blocks_exactly_what_exceeds_the_cluster_witness:
  "\<exists>r. example_preflight = Inr r \<and> \<not> Admitted r \<and>
     (\<exists>f \<in> set (Findings r). pf_Severity f = ''block'' \<and> firstBlocking r = pf_Message f)"
proof -
  have "allocatable example_preflight_view = Inr \<lparr>rc_CPUMillicores = 4000, rc_MemoryBytes = 8,
      rc_StorageBytes = 0, rc_Pods = 0\<rparr>" (is "_ = Inr ?a")
    by code_simp
  moreover have "committed example_preflight_view ''payments'' = Inr (quotaOf (small_quota 2), quotaOf (small_quota 2))"
    by code_simp
  moreover have "after_target (quotaOf (small_quota 2)) (quotaOf (small_quota 2)) (quotaOf (small_quota 5)) =
      quotaOf (small_quota 5)"
    by code_simp
  moreover have "cpu_findings (quotaOf (small_quota 5)) ?a \<noteq> []"
    unfolding findings_Nil by code_simp
  ultimately obtain r where r: "example_preflight = Inr r" "\<not> Admitted r"
    by (simp add: example_preflight_def Evaluate_def Let_def)
  with preflight_blocks_exactly_what_exceeds_the_cluster [OF r(1) [unfolded example_preflight_def]]
  show ?thesis
    by auto
qed

text \<open>
  The commitment percentage, computed in floating point, never crosses 100 in the wrong
  direction: between 0 and 100 while the commitment fits the capacity, at least 100 once it
  reaches it, and always an int32.
\<close>

theorem percentOf_is_sound:
  assumes "0 < whole" and "0 \<le> part"
  shows "if part \<le> whole then 0 \<le> percentOf part whole \<and> percentOf part whole \<le> 100
         else 100 \<le> percentOf part whole"
  using assms percentOf_below [of part whole] percentOf_above [of whole part] by auto

theorem percentOf_is_sound_witness: "percentOf 2 3 = 67 \<and> percentOf 2 3 \<le> 100 \<and> 100 \<le> percentOf 4 3"
proof -
  have "percentOf 2 3 = 67"
    by code_simp
  with percentOf_is_sound [of 3 2] percentOf_is_sound [of 3 4] show ?thesis
    by simp
qed

text \<open>
  When no schedulable node reports capacity (all nodes cordoned, say) the check passes
  everything: any target of any division is admitted, at a commitment of 0 percent.
\<close>

theorem preflight_admits_everything_without_capacity:
  assumes "Evaluate v now division target = Inr result"
    and "pv_nodes v = Inr nodes" and "\<forall>n \<in> set nodes. node_Unschedulable n"
  shows "Admitted result \<and> ClusterCommitmentPercent result = 0"
proof -
  have "fold (\<lambda>node tot.
                 if node_Unschedulable node then tot
                 else
                   let tot = (case node_CPU node of None \<Rightarrow> tot
                                | Some cpu \<Rightarrow> add_compute tot (MilliValue cpu) 0)
                   in case node_Memory node of None \<Rightarrow> tot
                      | Some memory \<Rightarrow> add_compute tot 0 (Value memory)) nodes c = c" for c
    using assms(3) by (induction nodes arbitrary: c) auto
  with assms(2) have "allocatable v = Inr zero_rcompute"
    by (simp add: allocatable_def)
  with assms(1) show ?thesis
    by (auto simp: Evaluate_def zero_rcompute_def cpu_findings_def memory_findings_def percentOf_def Let_def
        split: sum.splits prod.splits)
qed

definition cordoned_view :: PreflightView where
  "cordoned_view = \<lparr>
     pv_nodes = Inr [\<lparr>node_Name = ''a'', node_Unschedulable = True, node_Conditions = [],
        node_TaintEffects = [], node_CPU = Some \<lparr>MilliValue = 4000, Value = 4, QuantityIsZero = False\<rparr>,
        node_Memory = None\<rparr>],
     pv_divisions = Inr [example_division]\<rparr>"

theorem preflight_admits_everything_without_capacity_witness:
  "\<exists>r. Evaluate cordoned_view 9 ''payments'' (quotaOf (small_quota 1000000)) = Inr r \<and> Admitted r"
proof -
  obtain r where r: "Evaluate cordoned_view 9 ''payments'' (quotaOf (small_quota 1000000)) = Inr r"
    by (simp add: Evaluate_def cordoned_view_def allocatable_def committed_def Let_def split: prod.splits)
  have "Admitted r \<and> ClusterCommitmentPercent r = 0"
    by (rule preflight_admits_everything_without_capacity [OF r]) (auto simp: cordoned_view_def)
  with r show ?thesis
    by blast
qed

end
