(* ===== verification/Duration.thy ===== *)
theory Duration
  imports Float64
begin

text \<open>
  Go's \<^verbatim>\<open>time.Duration\<close> as the program uses it: ParseDuration, Round, Minutes, Hours,
  String, and the difference of two times. An unsigned 64-bit value is an \<^typ>\<open>int\<close> with
  the wrap-around of the one addition that can overflow written out. Parsing returns an
  option, since no caller keeps the text of the error.
\<close>

section \<open>Parsing\<close>

definition is_digit :: "char \<Rightarrow> bool" where
  "is_digit c \<longleftrightarrow> 48 \<le> (of_char c :: nat) \<and> (of_char c :: nat) \<le> 57"

definition digit_value :: "char \<Rightarrow> int" where
  "digit_value c = int (of_char c) - 48"

fun leadingInt :: "int \<Rightarrow> string \<Rightarrow> (int \<times> string) option" where
  "leadingInt x [] = Some (x, [])"
| "leadingInt x (c # s) =
     (if \<not> is_digit c then Some (x, c # s)
      else if x > 9223372036854775808 div 10 then None
      else let x' = x * 10 + digit_value c
           in if x' > 9223372036854775808 then None else leadingInt x' s)"

fun leadingFraction :: "int \<Rightarrow> rat \<Rightarrow> bool \<Rightarrow> string \<Rightarrow> int \<times> rat \<times> string" where
  "leadingFraction x scale overflow [] = (x, scale, [])"
| "leadingFraction x scale overflow (c # s) =
     (if \<not> is_digit c then (x, scale, c # s)
      else if overflow then leadingFraction x scale overflow s
      else if x > 9223372036854775807 div 10 then leadingFraction x scale True s
      else let y = x * 10 + digit_value c
           in if y > 9223372036854775808 then leadingFraction x scale True s
              else leadingFraction y (fmul scale 10) overflow s)"

text \<open>The unit map; the two micro signs are written as the bytes of their encodings.\<close>

definition unit_of :: "string \<Rightarrow> int option" where
  "unit_of u =
     (if u = ''ns'' then Some 1
      else if u = ''us'' \<or> u = [CHR 0xC2, CHR 0xB5, CHR 0x73] \<or> u = [CHR 0xCE, CHR 0xBC, CHR 0x73] then Some 1000
      else if u = ''ms'' then Some 1000000
      else if u = ''s'' then Some 1000000000
      else if u = ''m'' then Some 60000000000
      else if u = ''h'' then Some 3600000000000
      else None)"

definition in_unit :: "char \<Rightarrow> bool" where
  "in_unit c \<longleftrightarrow> \<not> (c = CHR ''.'' \<or> is_digit c)"

definition scaled :: "int \<Rightarrow> int \<Rightarrow> rat \<Rightarrow> int \<Rightarrow> int option" where
  "scaled v f scale unit =
     (if v > 9223372036854775808 div unit then None
      else if f > 0 then
        (let v' = v * unit + trunc (fmul (float_of_int f) (fdiv (float_of_int unit) scale))
         in if v' > 9223372036854775808 then None else Some v')
      else Some (v * unit))"

text \<open>The part after the decimal point, if there is one, and whether it had digits.\<close>

definition fraction :: "string \<Rightarrow> int \<times> rat \<times> string \<times> bool" where
  "fraction s =
     (if s \<noteq> [] \<and> hd s = CHR ''.''
      then (case leadingFraction 0 1 False (tl s) of
              (f, scale, r) \<Rightarrow> (f, scale, r, length r \<noteq> length (tl s)))
      else (0, 1, s, False))"

text \<open>One number with its unit: its nanoseconds and what is left of the text.\<close>

definition component :: "string \<Rightarrow> (int \<times> string) option" where
  "component s =
     (if \<not> (hd s = CHR ''.'' \<or> is_digit (hd s)) then None
      else case leadingInt 0 s of
        None \<Rightarrow> None
      | Some (v, s1) \<Rightarrow>
          (case fraction s1 of
             (f, scale, s2, post) \<Rightarrow>
               if length s1 = length s \<and> \<not> post then None
               else if takeWhile in_unit s2 = [] then None
               else case unit_of (takeWhile in_unit s2) of
                 None \<Rightarrow> None
               | Some unit \<Rightarrow> map_option (\<lambda>v. (v, dropWhile in_unit s2)) (scaled v f scale unit)))"

lemma leadingInt_shorter: "leadingInt x s = Some (v, r) \<Longrightarrow> length r \<le> length s"
  by (induction x s rule: leadingInt.induct) (auto simp: Let_def split: if_splits)

lemma leadingFraction_shorter: "leadingFraction x scale ov s = (f, sc, r) \<Longrightarrow> length r \<le> length s"
  by (induction x scale ov s rule: leadingFraction.induct) (auto simp: Let_def split: if_splits)

lemma fraction_shorter: "fraction s = (f, sc, r, post) \<Longrightarrow> length r \<le> length s"
  by (cases s) (auto simp: fraction_def dest: leadingFraction_shorter split: if_splits prod.splits)

lemma component_shorter:
  assumes "component s = Some (v, r)"
  shows "length r < length s"
proof -
  obtain v0 s1 f scale s2 post
    where s1: "leadingInt 0 s = Some (v0, s1)" and s2: "fraction s1 = (f, scale, s2, post)"
      and u: "takeWhile in_unit s2 \<noteq> []" and r: "r = dropWhile in_unit s2"
    using assms by (auto simp: component_def split: if_splits option.splits prod.splits)
  have "length r < length s2"
    using u r by (cases s2) (auto simp: le_imp_less_Suc length_dropWhile_le split: if_splits)
  with leadingInt_shorter [OF s1] fraction_shorter [OF s2] show ?thesis
    by simp
qed

function components :: "int \<Rightarrow> string \<Rightarrow> int option" where
  "components d s =
     (if s = [] then Some d
      else case component s of
        None \<Rightarrow> None
      | Some (v, rest) \<Rightarrow>
          (let d' = (d + v) mod 18446744073709551616
           in if d' > 9223372036854775808 then None else components d' rest))"
  by pat_completeness auto
termination
  by (relation "measure (\<lambda>(d, s). length s)") (auto intro: component_shorter)

declare components.simps [simp del]

definition ParseDuration :: "string \<Rightarrow> duration option" where
  "ParseDuration orig =
     (let neg = (orig \<noteq> [] \<and> hd orig = CHR ''-'');
          s = (if orig \<noteq> [] \<and> (hd orig = CHR ''-'' \<or> hd orig = CHR ''+'') then tl orig else orig)
      in if s = ''0'' then Some 0
         else if s = [] then None
         else case components 0 s of
           None \<Rightarrow> None
         | Some d \<Rightarrow>
             if neg then Some (wrap64 (- wrap64 d))
             else if d > 9223372036854775807 then None
             else Some d)"

section \<open>What parses\<close>

lemma components_range:
  "components d s = Some r \<Longrightarrow> 0 \<le> d \<Longrightarrow> d \<le> 9223372036854775808 \<Longrightarrow> 0 \<le> r \<and> r \<le> 9223372036854775808"
proof (induction d s rule: components.induct)
  case (1 d s)
  show ?case
  proof (cases "s = []")
    case True
    with 1 show ?thesis
      by (simp add: components.simps)
  next
    case False
    with 1 show ?thesis
      by (subst (asm) components.simps) (auto simp: Let_def split: option.splits prod.splits if_splits)
  qed
qed

lemma ParseDuration_in_i64: "ParseDuration s = Some d \<Longrightarrow> in_i64 d"
  by (auto simp: ParseDuration_def Let_def in_i64_def min_i64_def max_i64_def split: if_splits option.splits
      dest: components_range intro: wrap64_in [unfolded in_i64_def min_i64_def max_i64_def, THEN conjunct1]
        wrap64_in [unfolded in_i64_def min_i64_def max_i64_def, THEN conjunct2])

lemma digit_code: "n < 10 \<Longrightarrow> of_char (digit n) = 48 + n"
  by (simp add: digit_def)

lemma is_digit_digit [simp]: "n < 10 \<Longrightarrow> is_digit (digit n)"
  by (simp add: is_digit_def digit_code)

lemma digit_value_digit [simp]: "n < 10 \<Longrightarrow> digit_value (digit n) = int n"
  by (simp add: digit_value_def digit_code)

lemma leadingInt_show_nat:
  "n \<le> 9223372036854775808 \<Longrightarrow> leadingInt 0 (show_nat n @ s) = leadingInt (int n) s"
proof (induction n arbitrary: s rule: show_nat.induct)
  case (1 n)
  show ?case
  proof (cases "n < 10")
    case True
    then show ?thesis
      by (subst show_nat.simps) simp
  next
    case False
    with 1 have "leadingInt 0 (show_nat (n div 10) @ digit (n mod 10) # s) =
        leadingInt (int (n div 10)) (digit (n mod 10) # s)"
      by simp
    also have "\<dots> = leadingInt (int n) s"
    proof -
      have "int (n div 10) * 10 + int (n mod 10) = int n"
        by presburger
      moreover have "\<not> int (n div 10) > 9223372036854775808 div 10"
        using 1(2) by simp
      ultimately show ?thesis
        using 1(2) by (simp add: Let_def)
    qed
    finally show ?thesis
      using False by (subst show_nat.simps) simp
  qed
qed

lemma show_nat_digits: "c \<in> set (show_nat n) \<Longrightarrow> is_digit c"
  by (induction n rule: show_nat.induct) (subst (asm) (2) show_nat.simps, auto split: if_splits)

lemma show_nat_nonempty [simp]: "show_nat n \<noteq> []"
  by (subst show_nat.simps) simp

lemma hd_show_nat: "is_digit (hd (show_nat n))"
  using show_nat_digits [of "hd (show_nat n)" n] by simp

text \<open>A whole number followed by a unit of letters is one component.\<close>

lemma component_show_nat:
  assumes "u \<noteq> []" and "\<forall>c \<in> set u. in_unit c" and "unit_of u = Some k"
    and "rest = [] \<or> \<not> in_unit (hd rest)" and "n \<le> 9223372036854775808" and "int n \<le> 9223372036854775808 div k"
  shows "component (show_nat n @ u @ rest) = Some (int n * k, rest)"
proof -
  obtain c u' where u: "u = c # u'"
    using assms(1) by (cases u) auto
  have c: "\<not> is_digit c" "c \<noteq> CHR ''.''"
    using assms(2) by (auto simp: u in_unit_def)
  have "leadingInt 0 (show_nat n @ u @ rest) = Some (int n, u @ rest)"
    using leadingInt_show_nat [OF assms(5), of "u @ rest"] c by (simp add: u)
  moreover have "fraction (u @ rest) = (0, 1, u @ rest, False)"
    using c by (simp add: fraction_def u)
  moreover have "takeWhile in_unit (u @ rest) = u" and "dropWhile in_unit (u @ rest) = rest"
    using assms(2,4) by (cases rest; auto simp: takeWhile_append dropWhile_append)+
  moreover have "scaled (int n) 0 1 k = Some (int n * k)"
    using assms(6) by (simp add: scaled_def)
  moreover have "is_digit (hd (show_nat n @ u @ rest))"
    using hd_show_nat [of n] by simp
  ultimately show ?thesis
    using assms(1,3) by (simp add: component_def)
qed

section \<open>Rounding, minutes and hours\<close>

definition round_duration :: "duration \<Rightarrow> duration \<Rightarrow> duration" where
  "round_duration d m =
     (if m \<le> 0 then d
      else let r = d smod m
           in if d < 0 then
                (let r = - r
                 in if r + r < m then wrap64 (d + r)
                    else let d1 = wrap64 (wrap64 (d - m) + r) in if d1 < d then d1 else min_i64)
              else if r + r < m then wrap64 (d - r)
              else let d1 = wrap64 (wrap64 (d + m) - r) in if d1 > d then d1 else max_i64)"

definition Minutes :: "duration \<Rightarrow> rat" where
  "Minutes d = fadd (float_of_int (d sdiv minute)) (fdiv (float_of_int (d smod minute)) 60000000000)"

definition Hours :: "duration \<Rightarrow> rat" where
  "Hours d = fadd (float_of_int (d sdiv hour)) (fdiv (float_of_int (d smod hour)) 3600000000000)"

text \<open>\<^verbatim>\<open>t.Sub(u)\<close> saturates at the ends of the 64-bit range.\<close>

definition time_sub :: "time \<Rightarrow> time \<Rightarrow> duration" where
  "time_sub t u = max min_i64 (min max_i64 (t - u))"

section \<open>Text\<close>

text \<open>The fraction of \<^verbatim>\<open>v / 10^prec\<close> without trailing zeros, and its integer part.\<close>

fun drop_zeros :: "string \<Rightarrow> string" where
  "drop_zeros s = rev (dropWhile (\<lambda>c. c = CHR ''0'') (rev s))"

definition fmt_frac :: "nat \<Rightarrow> nat \<Rightarrow> string" where
  "fmt_frac v prec =
     (let ds = drop_zeros (map (\<lambda>i. digit (v div 10 ^ (prec - 1 - i) mod 10)) [0..<prec])
      in if ds = [] then [] else CHR ''.'' # ds)"

definition fmt_unit :: "nat \<Rightarrow> nat \<Rightarrow> string" where
  "fmt_unit u prec = show_nat (u div 10 ^ prec) @ fmt_frac u prec"

definition show_duration :: "duration \<Rightarrow> string" where
  "show_duration d =
     (let u = nat \<bar>d\<bar>;
          body =
            (if u = 0 then ''0s''
             else if u < 1000 then fmt_unit u 0 @ ''ns''
             else if u < 1000000 then fmt_unit u 3 @ [CHR 0xC2, CHR 0xB5, CHR 0x73]
             else if u < 1000000000 then fmt_unit u 6 @ ''ms''
             else
               let secs = u div 1000000000; mins = secs div 60; hours = mins div 60;
                   s = show_nat (secs mod 60) @ fmt_frac u 9 @ ''s'';
                   m = (if mins > 0 then show_nat (mins mod 60) @ ''m'' else []);
                   h = (if hours > 0 then show_nat hours @ ''h'' else [])
               in h @ m @ s)
      in (if d < 0 then ''-'' else []) @ body)"

end
