(* ===== verification/Recommender.thy ===== *)
theory Recommender
  imports Preflight Duration
begin

text \<open>
  The quota recommendation of internal/requests/recommender.go: eight queries to the metrics
  source, the proposed amounts with their headroom and step, and the estimated time until the
  current quota is used up. The source is an argument: the answer to each query is an error, no
  value, or a float64, which may be infinite or not a number. Go does not define in which order
  a map of queries is visited, so the order is an argument too.
\<close>

datatype gofloat = Finite rat | PosInf | NegInf | NaN

record RecError =
  err_no_usage :: bool
  err_unavailable :: bool
  err_text :: string

definition ErrUnavailable :: RecError where
  "ErrUnavailable = \<lparr>err_no_usage = False, err_unavailable = True,
                     err_text = ''no metrics source is configured''\<rparr>"

definition ErrNoUsage :: RecError where
  "ErrNoUsage = \<lparr>err_no_usage = True, err_unavailable = False,
                 err_text = ''the metrics source reports no usage for this division''\<rparr>"

definition DefaultWindow :: duration where "DefaultWindow = 30 * 24 * hour"
definition trendWindow :: duration where "trendWindow = 7 * 24 * hour"
definition defaultHeadroom :: rat where "defaultHeadroom = fl (3 / 10)"
definition cpuStepMillis :: int where "cpuStepMillis = 500"
definition memoryStepBytes :: int where "memoryStepBytes = 512 * 1024 * 1024"

record Samples =
  CPUCurrentMillicores :: int
  CPUp95Millicores :: int
  CPUp99Millicores :: int
  MemoryCurrentBytes :: int
  Memoryp95Bytes :: int
  Memoryp99Bytes :: int
  CPUSlopePerSecond :: gofloat
  MemorySlopePerSecond :: gofloat

record RRecommendation =
  rr_Current :: RCompute
  rr_ObservedP95 :: RCompute
  rr_ObservedP99 :: RCompute
  rr_Proposed :: RCompute
  rr_Window :: string
  rr_Basis :: string
  rr_HeadroomPercent :: int
  rr_ExhaustionAt :: "time option"

type_synonym source = "string \<Rightarrow> RecError + gofloat option"
type_synonym visit_order = "(string \<times> string) list \<Rightarrow> (string \<times> string) list"

record Recommender =
  rec_source :: "(source \<times> bool) option"
  rec_window :: duration
  rec_headroom :: rat

definition NewRecommender :: "(source \<times> bool) option \<Rightarrow> duration \<Rightarrow> Recommender" where
  "NewRecommender src window =
     \<lparr>rec_source = src, rec_window = (if window \<le> 0 then DefaultWindow else window),
      rec_headroom = defaultHeadroom\<rparr>"

definition Available :: "Recommender \<Rightarrow> bool" where
  "Available r = (case rec_source r of None \<Rightarrow> False | Some (_, up) \<Rightarrow> up)"

section \<open>Numbers\<close>

fun int64_of :: "gofloat \<Rightarrow> int" where
  "int64_of (Finite x) = float_to_i64 x"
| "int64_of _ = min_i64"

fun cores :: "gofloat \<Rightarrow> int" where
  "cores (Finite x) = float_to_i64 (go_round (fmul x 1000))"
| "cores _ = min_i64"

definition withHeadroom :: "int \<Rightarrow> rat \<Rightarrow> int" where
  "withHeadroom value headroom = float_to_i64 (go_ceil (fmul (float_of_int value) (fadd 1 headroom)))"

definition roundUpTo :: "int \<Rightarrow> int \<Rightarrow> int" where
  "roundUpTo value step =
     (if value \<le> 0 then step
      else let remainder = value smod step
           in if remainder = 0 then value else wrap64 (wrap64 (value + step) - remainder))"

text \<open>Seconds until a headroom is used up at a slope, if that is within a year.\<close>

fun secondsUntil :: "rat \<Rightarrow> gofloat \<Rightarrow> rat option" where
  "secondsUntil headroom NaN = None"
| "secondsUntil headroom NegInf = None"
| "secondsUntil headroom PosInf = (if headroom \<le> 0 then None else Some 0)"
| "secondsUntil headroom (Finite slope) =
     (if slope \<le> 0 \<or> headroom \<le> 0 then None
      else let seconds = fdiv headroom slope
           in if seconds > 365 * 24 * 3600 then None else Some seconds)"

section \<open>Queries\<close>

definition regexpEscape :: "string \<Rightarrow> string" where
  "regexpEscape s = concat (map (\<lambda>c. if c \<in> set ([CHR 0x5C] @ ''.+*?()[]{}^$|'') then [CHR 0x5C, c] else [c]) s)"

fun join :: "string \<Rightarrow> string list \<Rightarrow> string" where
  "join sep [] = []"
| "join sep [x] = x"
| "join sep (x # y # xs) = x @ sep @ join sep (y # xs)"

definition dquote :: string where "dquote = [CHR 0x22]"

definition namespaceSelector :: "string list \<Rightarrow> string" where
  "namespaceSelector namespaces =
     ''namespace=~'' @ dquote @ join ''|'' (map regexpEscape namespaces) @ dquote"

definition promDuration :: "duration \<Rightarrow> string" where
  "promDuration window =
     (let hours = float_to_i64 (Hours window)
      in if hours smod 24 = 0 then show_int (hours sdiv 24) @ ''d'' else show_int hours @ ''h'')"

definition queries :: "string list \<Rightarrow> duration \<Rightarrow> (string \<times> string) list" where
  "queries namespaces window0 =
     (let selector = namespaceSelector namespaces; window = promDuration window0; trend = promDuration trendWindow;
          cpu = ''sum(rate(container_cpu_usage_seconds_total{'' @ selector @ '',container!='' @ dquote @ dquote @ ''}[5m]))'';
          memory = ''sum(container_memory_working_set_bytes{'' @ selector @ '',container!='' @ dquote @ dquote @ ''})''
      in [(''cpuCurrent'', cpu),
          (''cpuP95'', ''quantile_over_time(0.95, '' @ cpu @ ''['' @ window @ '':5m])''),
          (''cpuP99'', ''quantile_over_time(0.99, '' @ cpu @ ''['' @ window @ '':5m])''),
          (''cpuSlope'', ''deriv('' @ cpu @ ''['' @ trend @ '':1h])''),
          (''memCurrent'', memory),
          (''memP95'', ''quantile_over_time(0.95, '' @ memory @ ''['' @ window @ '':5m])''),
          (''memP99'', ''quantile_over_time(0.99, '' @ memory @ ''['' @ window @ '':5m])''),
          (''memSlope'', ''deriv('' @ memory @ ''['' @ trend @ '':1h])'')])"

text \<open>The values found so far; a name without a value reads as 0, as in a Go map.\<close>

fun ask :: "source \<Rightarrow> (string \<times> string) list \<Rightarrow> (string \<rightharpoonup> gofloat) \<Rightarrow> RecError + (string \<rightharpoonup> gofloat)" where
  "ask src [] values = Inr values"
| "ask src ((name, query) # rest) values =
     (case src query of
        Inl err \<Rightarrow> Inl (err\<lparr>err_text := ''sample '' @ name @ '': '' @ err_text err\<rparr>)
      | Inr None \<Rightarrow> ask src rest values
      | Inr (Some v) \<Rightarrow> ask src rest (values(name \<mapsto> v)))"

definition value_of :: "(string \<rightharpoonup> gofloat) \<Rightarrow> string \<Rightarrow> gofloat" where
  "value_of values name = (case values name of None \<Rightarrow> Finite 0 | Some v \<Rightarrow> v)"

definition sample :: "visit_order \<Rightarrow> source \<Rightarrow> string list \<Rightarrow> duration \<Rightarrow> RecError + Samples" where
  "sample visit src namespaces window =
     (case ask src (visit (queries namespaces window)) Map.empty of
        Inl err \<Rightarrow> Inl err
      | Inr values \<Rightarrow>
          if list_all (\<lambda>(name, _). values name = None) (queries namespaces window) then Inl ErrNoUsage
          else Inr \<lparr>CPUCurrentMillicores = cores (value_of values ''cpuCurrent''),
                    CPUp95Millicores = cores (value_of values ''cpuP95''),
                    CPUp99Millicores = cores (value_of values ''cpuP99''),
                    MemoryCurrentBytes = int64_of (value_of values ''memCurrent''),
                    Memoryp95Bytes = int64_of (value_of values ''memP95''),
                    Memoryp99Bytes = int64_of (value_of values ''memP99''),
                    CPUSlopePerSecond = value_of values ''cpuSlope'',
                    MemorySlopePerSecond = value_of values ''memSlope''\<rparr>)"

section \<open>The recommendation\<close>

definition after_seconds :: "time \<Rightarrow> rat \<Rightarrow> time" where
  "after_seconds now seconds = now + wrap64 (float_to_i64 seconds * second)"

definition exhaustion :: "time \<Rightarrow> Samples \<Rightarrow> RCompute \<Rightarrow> time option" where
  "exhaustion now samples current =
     (let soonest =
            (case secondsUntil (fdiv (float_of_int (wrap64 (rc_CPUMillicores current - CPUCurrentMillicores samples))) 1000)
                    (CPUSlopePerSecond samples) of
               None \<Rightarrow> 0 | Some seconds \<Rightarrow> after_seconds now seconds);
          soonest =
            (case secondsUntil (float_of_int (wrap64 (rc_MemoryBytes current - MemoryCurrentBytes samples)))
                    (MemorySlopePerSecond samples) of
               None \<Rightarrow> soonest
             | Some seconds \<Rightarrow>
                 let candidate = after_seconds now seconds
                 in if is_zero_time soonest \<or> candidate < soonest then candidate else soonest)
      in if is_zero_time soonest then None else Some soonest)"

definition propose_compute :: "rat \<Rightarrow> Samples \<Rightarrow> RCompute \<Rightarrow> RCompute" where
  "propose_compute headroom samples current =
     (let cpu = roundUpTo (withHeadroom (CPUp99Millicores samples) headroom) cpuStepMillis;
          memory = roundUpTo (withHeadroom (Memoryp99Bytes samples) headroom) memoryStepBytes
      in \<lparr>rc_CPUMillicores = (if cpu < rc_CPUMillicores current then rc_CPUMillicores current else cpu),
          rc_MemoryBytes = (if memory < rc_MemoryBytes current then rc_MemoryBytes current else memory),
          rc_StorageBytes = rc_StorageBytes current, rc_Pods = rc_Pods current\<rparr>)"

definition observed_compute :: "int \<Rightarrow> int \<Rightarrow> RCompute" where
  "observed_compute cpu memory =
     \<lparr>rc_CPUMillicores = cpu, rc_MemoryBytes = memory, rc_StorageBytes = 0, rc_Pods = 0\<rparr>"

definition Recommend ::
  "visit_order \<Rightarrow> Recommender \<Rightarrow> time \<Rightarrow> string list \<Rightarrow> RCompute \<Rightarrow> RecError + RRecommendation" where
  "Recommend visit r now namespaces current =
     (case rec_source r of
        None \<Rightarrow> Inl ErrUnavailable
      | Some (src, up) \<Rightarrow>
          if \<not> up then Inl ErrUnavailable
          else if namespaces = [] then Inl ErrNoUsage
          else (case sample visit src namespaces (rec_window r) of
             Inl err \<Rightarrow> Inl err
           | Inr samples \<Rightarrow>
               Inr \<lparr>rr_Current = observed_compute (CPUCurrentMillicores samples) (MemoryCurrentBytes samples),
                    rr_ObservedP95 = observed_compute (CPUp95Millicores samples) (Memoryp95Bytes samples),
                    rr_ObservedP99 = observed_compute (CPUp99Millicores samples) (Memoryp99Bytes samples),
                    rr_Proposed = propose_compute (rec_headroom r) samples current,
                    rr_Window = show_duration (rec_window r),
                    rr_Basis = ''p99 over '' @ show_duration (rec_window r) @ '' plus '' @
                      show_int (float_to_i64 (go_round (fmul (rec_headroom r) 100))) @
                      ''% headroom, rounded up to '' @ show_int cpuStepMillis @ ''m cpu and '' @
                      show_int (memoryStepBytes sdiv 1024 sdiv 1024) @ ''Mi memory'',
                    rr_HeadroomPercent = float_to_i32 (go_round (fmul (rec_headroom r) 100)),
                    rr_ExhaustionAt = exhaustion now samples current\<rparr>))"

section \<open>What a recommendation covers\<close>

lemma fl_of_int_exact: "0 \<le> n \<Longrightarrow> n < 9007199254740992 \<Longrightarrow> fl (of_int n) = of_int n"
  using fl_of_nat_exact [of "nat n"] by (simp add: of_nat_nat)

lemma withHeadroom_covers:
  assumes "0 \<le> v" and "v \<le> 2 ^ 50" and "0 \<le> h" and "h \<le> 1"
  shows "v \<le> withHeadroom v h \<and> withHeadroom v h \<le> 2 * v"
proof -
  let ?x = "fadd 1 h"
  have "fl 1 = 1" "fl 2 = 2"
    using fl_of_int_exact [of 1] fl_of_int_exact [of 2] by simp_all
  then have x: "1 \<le> ?x" "?x \<le> 2"
    using fl_mono [of 1 "1 + h"] fl_mono [of "1 + h" 2] assms by (simp_all add: fadd_def)
  have v: "float_of_int v = of_int v" "fl (of_int (2 * v)) = of_int (2 * v)"
    using assms fl_of_int_exact [of v] fl_of_int_exact [of "2 * v"] by (auto simp: float_of_int_def)
  have "fl (of_int v) \<le> fl (of_int v * ?x)"
    using assms x by (intro fl_mono) (auto simp: mult_le_cancel_left1)
  moreover have "fl (of_int v * ?x) \<le> fl (of_int (2 * v))"
    using assms x mult_left_mono [of ?x 2 "of_int v"] by (intro fl_mono) (auto simp: mult.commute)
  ultimately have "of_int v \<le> fmul (of_int v) ?x" "fmul (of_int v) ?x \<le> of_int (2 * v)"
    using v by (simp_all add: fmul_def float_of_int_def)
  then have c: "v \<le> \<lceil>fmul (of_int v) ?x\<rceil>" "\<lceil>fmul (of_int v) ?x\<rceil> \<le> 2 * v"
    by (simp_all add: le_ceiling_iff ceiling_le_iff less_le_trans)
  moreover have "in_i64 \<lceil>fmul (of_int v) ?x\<rceil>"
    by (rule in_i64_between [OF _ _ c]) (use assms in \<open>simp_all add: in_i64_def min_i64_def max_i64_def\<close>)
  ultimately show ?thesis
    using v(1) by (simp add: withHeadroom_def go_ceil_def float_to_i64_def trunc_def)
qed

lemma roundUpTo_covers:
  assumes "0 < step" and "value + step \<le> max_i64"
  shows "value \<le> roundUpTo value step \<and> step dvd roundUpTo value step \<and> roundUpTo value step \<le> max value 0 + step"
proof (cases "value \<le> 0")
  case True
  with assms show ?thesis
    by (simp add: roundUpTo_def)
next
  case False
  define r where "r = value mod step"
  have r: "value smod step = r" "0 \<le> r" "r < step"
    using assms False by (simp_all add: r_def signed_modulo_int_def sgn_if)
  have "in_i64 (value + step)" "in_i64 (value + step - r)"
    using assms False r by (auto simp: in_i64_def min_i64_def)
  moreover have "step dvd value - r"
    by (simp add: r_def)
  then have "step dvd value + step - r"
    by (metis add_diff_eq add.commute dvd_add_triv_left_iff)
  ultimately show ?thesis
    using r False by (auto simp: roundUpTo_def Let_def)
qed

text \<open>What one resource of the proposal owes to its 99th percentile, step and current value.\<close>

definition covers :: "int \<Rightarrow> int \<Rightarrow> int \<Rightarrow> int \<Rightarrow> bool" where
  "covers proposed current p99 step \<longleftrightarrow>
     current \<le> proposed \<and> p99 \<le> proposed \<and> proposed \<le> max current (2 * p99 + step) \<and>
     (proposed = current \<or> step dvd proposed)"

lemma proposal_covers:
  assumes "0 \<le> p99" "p99 \<le> 2 ^ 50" "0 \<le> h" "h \<le> 1" "0 < step" "step \<le> 2 ^ 30"
  defines "x \<equiv> roundUpTo (withHeadroom p99 h) step"
  shows "covers (if x < current then current else x) current p99 step"
proof -
  have "withHeadroom p99 h + step \<le> max_i64"
    using withHeadroom_covers [OF assms(1-4)] assms by (simp add: max_i64_def)
  from roundUpTo_covers [OF assms(5) this] withHeadroom_covers [OF assms(1-4)] assms(1) show ?thesis
    by (auto simp: covers_def x_def)
qed

text \<open>
  A recommendation never proposes less than the division has, nor less than the 99th
  percentile it observed; it proposes the current amount or a whole number of steps, at most a
  step above twice the percentile; storage and pods stay as they are; and it is made only from
  a source that is up and for a division with namespaces. (For percentiles up to 2^50 and a
  headroom between nothing and the percentile itself.)
\<close>
theorem recommendation_covers_what_was_observed:
  assumes run: "Recommend visit r now namespaces current = Inr a"
    and h: "0 \<le> rec_headroom r" "rec_headroom r \<le> 1"
    and cpu: "0 \<le> rc_CPUMillicores (rr_ObservedP99 a)" "rc_CPUMillicores (rr_ObservedP99 a) \<le> 2 ^ 50"
    and mem: "0 \<le> rc_MemoryBytes (rr_ObservedP99 a)" "rc_MemoryBytes (rr_ObservedP99 a) \<le> 2 ^ 50"
  shows "covers (rc_CPUMillicores (rr_Proposed a)) (rc_CPUMillicores current)
           (rc_CPUMillicores (rr_ObservedP99 a)) cpuStepMillis \<and>
    covers (rc_MemoryBytes (rr_Proposed a)) (rc_MemoryBytes current)
           (rc_MemoryBytes (rr_ObservedP99 a)) memoryStepBytes \<and>
    rc_StorageBytes (rr_Proposed a) = rc_StorageBytes current \<and> rc_Pods (rr_Proposed a) = rc_Pods current \<and>
    Available r \<and> namespaces \<noteq> []"
proof -
  obtain samples where a: "rr_ObservedP99 a = observed_compute (CPUp99Millicores samples) (Memoryp99Bytes samples)"
    "rr_Proposed a = propose_compute (rec_headroom r) samples current" and up: "Available r" "namespaces \<noteq> []"
    using run by (auto simp: Recommend_def Available_def split: option.splits prod.splits if_splits sum.splits)
  have steps: "0 < cpuStepMillis" "cpuStepMillis \<le> 2 ^ 30" "0 < memoryStepBytes" "memoryStepBytes \<le> 2 ^ 30"
    by (simp_all add: cpuStepMillis_def memoryStepBytes_def)
  have "covers (rc_CPUMillicores (rr_Proposed a)) (rc_CPUMillicores current) (CPUp99Millicores samples) cpuStepMillis"
    using proposal_covers [OF _ _ h steps(1,2), of "CPUp99Millicores samples"] cpu
    by (simp add: a propose_compute_def observed_compute_def Let_def)
  moreover have "covers (rc_MemoryBytes (rr_Proposed a)) (rc_MemoryBytes current) (Memoryp99Bytes samples) memoryStepBytes"
    using proposal_covers [OF _ _ h steps(3,4), of "Memoryp99Bytes samples"] mem
    by (simp add: a propose_compute_def observed_compute_def Let_def)
  ultimately show ?thesis
    using up by (simp add: a propose_compute_def observed_compute_def Let_def)
qed

text \<open>A source that answers every query with the same number.\<close>

definition flat_source :: "rat \<Rightarrow> source" where
  "flat_source x query = Inr (Some (Finite x))"

definition example_samples :: Samples where
  "example_samples = \<lparr>CPUCurrentMillicores = 2000, CPUp95Millicores = 2000, CPUp99Millicores = 2000,
     MemoryCurrentBytes = 2, Memoryp95Bytes = 2, Memoryp99Bytes = 2,
     CPUSlopePerSecond = Finite 2, MemorySlopePerSecond = Finite 2\<rparr>"

lemma ask_flat:
  "ask (flat_source x) qs vs = Inr (\<lambda>n. if n \<in> set (map fst qs) then Some (Finite x) else vs n)"
  by (induction qs arbitrary: vs) (auto simp: flat_source_def fun_eq_iff)

lemma query_names: "map fst (queries namespaces w) =
    [''cpuCurrent'', ''cpuP95'', ''cpuP99'', ''cpuSlope'', ''memCurrent'', ''memP95'', ''memP99'', ''memSlope'']"
  by (simp add: queries_def Let_def)

lemma list_all_names: "list_all (\<lambda>(name, _). P name) qs = list_all P (map fst qs)"
  by (induction qs) auto

lemma sample_flat: "sample id (flat_source 2) [''a''] w = Inr example_samples"
proof -
  have "cores (Finite 2) = 2000" "int64_of (Finite 2) = 2"
    by code_simp+
  then show ?thesis
    unfolding sample_def id_apply ask_flat list_all_names query_names
    by (simp add: value_of_def example_samples_def)
qed

theorem recommendation_covers_what_was_observed_witness:
  "\<exists>a. Recommend id (NewRecommender (Some (flat_source 2, True)) 0) 7 [''a''] zero_rcompute = Inr a \<and>
     covers (rc_CPUMillicores (rr_Proposed a)) 0 2000 500"
proof -
  let ?r = "NewRecommender (Some (flat_source 2, True)) 0"
  have "\<exists>a. Recommend id ?r 7 [''a''] zero_rcompute = Inr a \<and> rr_ObservedP99 a = observed_compute 2000 2"
    by (simp add: Recommend_def NewRecommender_def sample_flat example_samples_def)
  then obtain a where a: "Recommend id ?r 7 [''a''] zero_rcompute = Inr a" "rr_ObservedP99 a = observed_compute 2000 2"
    by blast
  have "0 \<le> rec_headroom ?r" "rec_headroom ?r \<le> 1"
    unfolding NewRecommender_def by code_simp+
  then have "covers (rc_CPUMillicores (rr_Proposed a)) (rc_CPUMillicores zero_rcompute)
      (rc_CPUMillicores (rr_ObservedP99 a)) cpuStepMillis"
    using recommendation_covers_what_was_observed [OF a(1)] a(2) by (simp add: observed_compute_def)
  with a show ?thesis
    by (auto simp: observed_compute_def zero_rcompute_def cpuStepMillis_def)
qed

end
