(* ===== verification/Packing.thy ===== *)
theory Packing
  imports Prelude "HOL-Library.Multiset" "HOL-Library.Product_Lexorder" "HOL-Library.List_Lexorder"
    "HOL-Library.Char_ord"
begin

text \<open>
  The bin packing of internal/simulate/packing.go: nodes with allocatable and allocated
  capacity, pods sorted by size, and best fit by CPU slack. Amounts are int64 values.
  The choice of a node is an interface (the locale \<^verbatim>\<open>node_choice\<close>): what the placement
  loop guarantees rests on two laws, and \<^verbatim>\<open>bestFit\<close> is shown to obey them.
\<close>

section \<open>Nodes and pods\<close>

record Node =
  NodeName :: string
  AllocatableCPU :: int
  AllocatableMem :: int
  AllocatedCPU :: int
  AllocatedMem :: int
  NodeSchedulable :: bool
  UnschedulableBy :: string

record Pod =
  PodName :: string
  CPU :: int
  Mem :: int

definition max64 :: "int \<Rightarrow> int \<Rightarrow> int" where
  "max64 a b = (if a > b then a else b)"

definition FreeCPU :: "Node \<Rightarrow> int" where
  "FreeCPU n = max64 (wrap64 (AllocatableCPU n - AllocatedCPU n)) 0"

definition FreeMem :: "Node \<Rightarrow> int" where
  "FreeMem n = max64 (wrap64 (AllocatableMem n - AllocatedMem n)) 0"

section \<open>Best fit\<close>

text \<open>The scan keeps the best index so far (-1 for none) and its slack.\<close>

fun best_fit_from :: "int \<Rightarrow> Node list \<Rightarrow> Pod \<Rightarrow> int \<Rightarrow> int \<Rightarrow> int" where
  "best_fit_from i [] pod best bestSlack = best"
| "best_fit_from i (node # nodes) pod best bestSlack =
     (if FreeCPU node < CPU pod \<or> FreeMem node < Mem pod then
        best_fit_from (i + 1) nodes pod best bestSlack
      else
        let slack = wrap64 (FreeCPU node - CPU pod)
        in if best < 0 \<or> slack < bestSlack
           then best_fit_from (i + 1) nodes pod i slack
           else best_fit_from (i + 1) nodes pod best bestSlack)"

definition bestFit :: "Node list \<Rightarrow> Pod \<Rightarrow> int" where
  "bestFit nodes pod = best_fit_from 0 nodes pod (- 1) 0"

section \<open>Placing\<close>

record Placement =
  Placed :: int
  Unplaced :: "Pod list"
  NodesExhausted :: "string list"
  FreeAfter :: "string \<rightharpoonup> Node"

definition pod_order :: "Pod \<Rightarrow> int \<times> int" where
  "pod_order p = (- CPU p, - Mem p)"

definition allocate :: "Node \<Rightarrow> Pod \<Rightarrow> Node" where
  "allocate n p = n\<lparr>AllocatedCPU := wrap64 (AllocatedCPU n + CPU p),
                   AllocatedMem := wrap64 (AllocatedMem n + Mem p)\<rparr>"

text \<open>
  The loop over the sorted pods: the remaining nodes, the pods left over so far, how many
  were placed, and the names of the nodes that ran out.
\<close>

fun place_loop ::
  "(Node list \<Rightarrow> Pod \<Rightarrow> int) \<Rightarrow> Node list \<Rightarrow> Pod list \<Rightarrow> int \<Rightarrow> string set \<Rightarrow> Pod list \<Rightarrow>
   Node list \<times> Pod list \<times> int \<times> string set" where
  "place_loop pick remaining unplaced placed exhausted [] = (remaining, unplaced, placed, exhausted)"
| "place_loop pick remaining unplaced placed exhausted (pod # pods) =
     (let index = pick remaining pod
      in if index < 0 then place_loop pick remaining (unplaced @ [pod]) placed exhausted pods
         else
           let node = allocate (remaining ! nat index) pod;
               exhausted = (if FreeCPU node = 0 \<or> FreeMem node = 0
                            then insert (NodeName node) exhausted else exhausted)
           in place_loop pick (remaining[nat index := node]) unplaced (placed + 1) exhausted pods)"

definition set_free :: "Node \<Rightarrow> (string \<rightharpoonup> Node) \<Rightarrow> (string \<rightharpoonup> Node)" where
  "set_free n m = m(NodeName n \<mapsto> n)"

definition place_with :: "(Node list \<Rightarrow> Pod \<Rightarrow> int) \<Rightarrow> Node list \<Rightarrow> Pod list \<Rightarrow> Placement" where
  "place_with pick nodes pods =
     (let remaining = filter NodeSchedulable nodes;
          ordered = sort_key pod_order pods;
          (remaining, unplaced, placed, exhausted) = place_loop pick remaining [] 0 {} ordered
      in \<lparr>Placed = placed, Unplaced = unplaced,
          NodesExhausted = sort (map NodeName (filter (\<lambda>n. NodeName n \<in> exhausted) remaining)),
          FreeAfter = fold set_free remaining Map.empty\<rparr>)"

definition Place :: "Node list \<Rightarrow> Pod list \<Rightarrow> Placement" where
  "Place = place_with bestFit"

section \<open>Sane inputs\<close>

definition fits :: "Node \<Rightarrow> Pod \<Rightarrow> bool" where
  "fits n p \<longleftrightarrow> CPU p \<le> FreeCPU n \<and> Mem p \<le> FreeMem n"

text \<open>
  Capacities and requests are non-negative int64 values, as the API server guarantees for
  resource quantities, and what is allocated after the placement stays within an int64.
\<close>

definition node_ok :: "Node \<Rightarrow> bool" where
  "node_ok n \<longleftrightarrow> 0 \<le> AllocatableCPU n \<and> AllocatableCPU n \<le> max_i64 \<and>
     0 \<le> AllocatableMem n \<and> AllocatableMem n \<le> max_i64 \<and>
     0 \<le> AllocatedCPU n \<and> AllocatedCPU n \<le> max_i64 \<and>
     0 \<le> AllocatedMem n \<and> AllocatedMem n \<le> max_i64"

definition pod_ok :: "Pod \<Rightarrow> bool" where
  "pod_ok p \<longleftrightarrow> 0 \<le> CPU p \<and> 0 \<le> Mem p"

lemma FreeCPU_nonneg [simp]: "0 \<le> FreeCPU n" and FreeMem_nonneg [simp]: "0 \<le> FreeMem n"
  by (simp_all add: FreeCPU_def FreeMem_def max64_def)

lemma Free_exact:
  assumes "node_ok n"
  shows "FreeCPU n = max (AllocatableCPU n - AllocatedCPU n) 0"
    and "FreeMem n = max (AllocatableMem n - AllocatedMem n) 0"
proof -
  have "in_i64 (AllocatableCPU n - AllocatedCPU n)" "in_i64 (AllocatableMem n - AllocatedMem n)"
    using assms by (auto simp: node_ok_def in_i64_def min_i64_def max_i64_def)
  then show "FreeCPU n = max (AllocatableCPU n - AllocatedCPU n) 0"
    and "FreeMem n = max (AllocatableMem n - AllocatedMem n) 0"
    by (simp_all add: FreeCPU_def FreeMem_def max64_def)
qed

lemma allocate_exact:
  assumes "node_ok n" and "pod_ok p" and "fits n p"
  shows "AllocatedCPU (allocate n p) = AllocatedCPU n + CPU p \<and>
         AllocatedMem (allocate n p) = AllocatedMem n + Mem p \<and> node_ok (allocate n p) \<and>
         AllocatedCPU n + CPU p \<le> max (AllocatedCPU n) (AllocatableCPU n) \<and>
         AllocatedMem n + Mem p \<le> max (AllocatedMem n) (AllocatableMem n)"
proof -
  have cpu: "0 \<le> CPU p" "CPU p \<le> max (AllocatableCPU n - AllocatedCPU n) 0"
    and mem: "0 \<le> Mem p" "Mem p \<le> max (AllocatableMem n - AllocatedMem n) 0"
    using assms Free_exact [OF assms(1)] by (simp_all add: fits_def pod_ok_def)
  have b: "AllocatedCPU n + CPU p \<le> max (AllocatedCPU n) (AllocatableCPU n)"
    "AllocatedMem n + Mem p \<le> max (AllocatedMem n) (AllocatableMem n)"
    using cpu mem by linarith+
  moreover have "in_i64 (AllocatedCPU n + CPU p)" "in_i64 (AllocatedMem n + Mem p)"
    using assms(1) cpu mem b by (auto simp: node_ok_def in_i64_def min_i64_def)
  ultimately show ?thesis
    using assms(1) cpu mem by (auto simp: allocate_def node_ok_def)
qed

lemma allocate_capacity [simp]:
  "AllocatableCPU (allocate n p) = AllocatableCPU n" "AllocatableMem (allocate n p) = AllocatableMem n"
  "NodeName (allocate n p) = NodeName n" "NodeSchedulable (allocate n p) = NodeSchedulable n"
  by (simp_all add: allocate_def)

section \<open>The choice of a node\<close>

locale node_choice =
  fixes pick :: "Node list \<Rightarrow> Pod \<Rightarrow> int"
  assumes pick_some: "0 \<le> pick nodes pod \<Longrightarrow>
        nat (pick nodes pod) < length nodes \<and> fits (nodes ! nat (pick nodes pod)) pod"
    and pick_none: "pick nodes pod < 0 \<Longrightarrow> n \<in> set nodes \<Longrightarrow> \<not> fits n pod"
begin

text \<open>One node later in the loop: the same capacity, at least as much allocated.\<close>

definition grown :: "Node \<Rightarrow> Node \<Rightarrow> bool" where
  "grown n n' \<longleftrightarrow> NodeName n' = NodeName n \<and> AllocatableCPU n' = AllocatableCPU n \<and>
     AllocatableMem n' = AllocatableMem n \<and> node_ok n' \<and>
     AllocatedCPU n \<le> AllocatedCPU n' \<and> AllocatedMem n \<le> AllocatedMem n' \<and>
     AllocatedCPU n' \<le> max (AllocatedCPU n) (AllocatableCPU n) \<and>
     AllocatedMem n' \<le> max (AllocatedMem n) (AllocatableMem n)"

lemma grown_refl: "node_ok n \<Longrightarrow> grown n n"
  by (simp add: grown_def)

lemma grown_trans: "grown a b \<Longrightarrow> grown b c \<Longrightarrow> grown a c"
  by (auto simp: grown_def)

lemma grown_allocate: "node_ok n \<Longrightarrow> pod_ok p \<Longrightarrow> fits n p \<Longrightarrow> grown n (allocate n p)"
  using allocate_exact [of n p] by (auto simp: grown_def pod_ok_def)

lemma grown_fits: "grown n n' \<Longrightarrow> node_ok n \<Longrightarrow> fits n' p \<Longrightarrow> fits n p"
  by (auto simp: grown_def fits_def Free_exact)

lemma place_loop_spec:
  assumes "place_loop pick remaining unplaced placed exhausted pods = (remaining', unplaced', placed', exhausted')"
    and "\<forall>n \<in> set remaining. node_ok n" and "\<forall>p \<in> set pods. pod_ok p"
  shows "list_all2 grown remaining remaining' \<and>
     (\<exists>left. unplaced' = unplaced @ left \<and> placed' = placed + int (length pods - length left) \<and>
        length left \<le> length pods \<and> set left \<subseteq> set pods \<and>
        (\<forall>p \<in> set left. \<forall>n \<in> set remaining'. \<not> fits n p) \<and>
        sum_list (map AllocatedCPU remaining') + sum_list (map CPU left) =
          sum_list (map AllocatedCPU remaining) + sum_list (map CPU pods) \<and>
        sum_list (map AllocatedMem remaining') + sum_list (map Mem left) =
          sum_list (map AllocatedMem remaining) + sum_list (map Mem pods))"
  using assms
proof (induction pods arbitrary: remaining unplaced placed exhausted)
  case Nil
  then show ?case
    by (auto simp: list_all2_same grown_refl)
next
  case (Cons pod pods)
  let ?i = "pick remaining pod"
  have ok: "\<forall>p \<in> set pods. pod_ok p" "pod_ok pod"
    using Cons.prems(3) by simp_all
  show ?case
  proof (cases "?i < 0")
    case True
    with Cons.prems(1) have step: "place_loop pick remaining (unplaced @ [pod]) placed exhausted pods =
        (remaining', unplaced', placed', exhausted')"
      by (simp add: Let_def)
    from Cons.IH [OF step Cons.prems(2) ok(1)] obtain left where g: "list_all2 grown remaining remaining'"
      and l: "unplaced' = unplaced @ pod # left" "placed' = placed + int (length pods - length left)"
        "length left \<le> length pods" "set left \<subseteq> set pods"
        "\<forall>p \<in> set left. \<forall>n \<in> set remaining'. \<not> fits n p"
      and s: "sum_list (map AllocatedCPU remaining') + sum_list (map CPU left) =
          sum_list (map AllocatedCPU remaining) + sum_list (map CPU pods)"
        "sum_list (map AllocatedMem remaining') + sum_list (map Mem left) =
          sum_list (map AllocatedMem remaining) + sum_list (map Mem pods)"
      by auto
    have "\<not> fits n' pod" if "n' \<in> set remaining'" for n'
    proof -
      from that g obtain n where "n \<in> set remaining" "grown n n'"
        by (metis in_set_conv_nth list_all2_conv_all_nth)
      with pick_none [OF True] Cons.prems(2) grown_fits show ?thesis
        by blast
    qed
    with g l s show ?thesis
      by (intro conjI exI [of _ "pod # left"]) auto
  next
    case False
    then have i: "nat ?i < length remaining" "fits (remaining ! nat ?i) pod"
      using pick_some [of remaining pod] by simp_all
    let ?n = "remaining ! nat ?i"
    let ?remaining = "remaining[nat ?i := allocate ?n pod]"
    have n: "node_ok ?n"
      using Cons.prems(2) i(1) by simp
    note alloc = allocate_exact [OF n ok(2) i(2)]
    obtain ex where step: "place_loop pick ?remaining unplaced (placed + 1) ex pods =
        (remaining', unplaced', placed', exhausted')"
      using Cons.prems(1) False by (auto simp: Let_def)
    have "\<forall>n \<in> set ?remaining. node_ok n"
      using Cons.prems(2) alloc by (auto dest: set_update_subset_insert [THEN subsetD])
    from Cons.IH [OF step this ok(1)] obtain left where g: "list_all2 grown ?remaining remaining'"
      and l: "unplaced' = unplaced @ left" "placed' = placed + 1 + int (length pods - length left)"
        "length left \<le> length pods" "set left \<subseteq> set pods"
        "\<forall>p \<in> set left. \<forall>n \<in> set remaining'. \<not> fits n p"
      and s: "sum_list (map AllocatedCPU remaining') + sum_list (map CPU left) =
          sum_list (map AllocatedCPU ?remaining) + sum_list (map CPU pods)"
        "sum_list (map AllocatedMem remaining') + sum_list (map Mem left) =
          sum_list (map AllocatedMem ?remaining) + sum_list (map Mem pods)"
      by auto
    have "list_all2 grown remaining ?remaining"
      using Cons.prems(2) grown_allocate [OF n ok(2) i(2)] i(1)
      by (auto simp: list_all2_conv_all_nth nth_list_update grown_refl)
    then have g': "list_all2 grown remaining remaining'"
      using g list_all2_trans [of grown grown grown] grown_trans by blast
    have "sum_list (map AllocatedCPU ?remaining) = sum_list (map AllocatedCPU remaining) + CPU pod"
      "sum_list (map AllocatedMem ?remaining) = sum_list (map AllocatedMem remaining) + Mem pod"
      using i(1) alloc by (simp_all add: sum_list_map_update)
    with g' l s show ?thesis
      by (intro conjI exI [of _ left]) auto
  qed
qed

end

section \<open>Best fit chooses a fitting node\<close>

lemma best_fit_from_none:
  "best_fit_from i nodes pod best slack < 0 \<Longrightarrow> 0 \<le> i \<Longrightarrow> best < 0 \<and> (\<forall>n \<in> set nodes. \<not> fits n pod)"
proof (induction i nodes pod best slack rule: best_fit_from.induct)
  case (1 i pod best bestSlack)
  then show ?case by simp
next
  case (2 i node nodes pod best bestSlack)
  then show ?case
    by (auto simp: fits_def Let_def split: if_splits)
qed

lemma best_fit_from_some:
  "0 \<le> best_fit_from i nodes pod best slack \<Longrightarrow>
     best_fit_from i nodes pod best slack = best \<or>
     (\<exists>k < length nodes. best_fit_from i nodes pod best slack = i + int k \<and> fits (nodes ! k) pod)"
proof (induction i nodes pod best slack rule: best_fit_from.induct)
  case (1 i pod best bestSlack)
  then show ?case by simp
next
  case (2 i node nodes pod best bestSlack)
  have later: "\<exists>k < length (node # nodes). i + 1 + int k' = i + int k \<and> fits ((node # nodes) ! k) pod"
    if "k' < length nodes" "fits (nodes ! k') pod" for k'
    using that by (intro exI [of _ "Suc k'"]) simp
  have here: "\<exists>k < length (node # nodes). i = i + int k \<and> fits ((node # nodes) ! k) pod" if "fits node pod"
    using that by (intro exI [of _ 0]) simp
  consider (no) "FreeCPU node < CPU pod \<or> FreeMem node < Mem pod"
    | (take) "fits node pod" "best < 0 \<or> wrap64 (FreeCPU node - CPU pod) < bestSlack"
    | (keep) "fits node pod" "\<not> (best < 0 \<or> wrap64 (FreeCPU node - CPU pod) < bestSlack)"
    unfolding fits_def by (meson not_le)
  then show ?case
  proof cases
    case no
    with 2 later show ?thesis
      by (auto simp: Let_def)
  next
    case take
    then have "best_fit_from i (node # nodes) pod best bestSlack =
        best_fit_from (i + 1) nodes pod i (wrap64 (FreeCPU node - CPU pod))"
      by (auto simp: fits_def Let_def)
    with 2 take later here show ?thesis
      by (auto simp: fits_def)
  next
    case keep
    then have "best_fit_from i (node # nodes) pod best bestSlack =
        best_fit_from (i + 1) nodes pod best bestSlack"
      by (auto simp: fits_def Let_def)
    with 2 keep later show ?thesis
      by (auto simp: fits_def)
  qed
qed

interpretation best_fit: node_choice bestFit
proof unfold_locales
  fix nodes pod
  assume c: "0 \<le> bestFit nodes pod"
  with best_fit_from_some [of 0 nodes pod "- 1" 0]
  show "nat (bestFit nodes pod) < length nodes \<and> fits (nodes ! nat (bestFit nodes pod)) pod"
    by (auto simp: bestFit_def)
next
  fix nodes pod n
  assume "bestFit nodes pod < 0" and "n \<in> set nodes"
  with best_fit_from_none [of 0 nodes pod "- 1" 0] show "\<not> fits n pod"
    by (auto simp: bestFit_def)
qed

section \<open>Best fit leaves the least slack\<close>

definition slack_of :: "Node \<Rightarrow> Pod \<Rightarrow> int" where
  "slack_of n p = FreeCPU n - CPU p"

lemma slack_exact: "fits n p \<Longrightarrow> pod_ok p \<Longrightarrow> wrap64 (FreeCPU n - CPU p) = slack_of n p"
proof -
  assume a: "fits n p" "pod_ok p"
  have "FreeCPU n \<le> max_i64"
    using wrap64_in [of "AllocatableCPU n - AllocatedCPU n"]
    by (simp add: FreeCPU_def max64_def in_i64_def max_i64_def)
  with a have "in_i64 (FreeCPU n - CPU p)"
    by (simp add: fits_def pod_ok_def in_i64_def min_i64_def max_i64_def)
  then show ?thesis
    by (simp add: slack_of_def)
qed

text \<open>The chosen index against every node the scan has seen.\<close>

definition chosen_slack :: "int \<Rightarrow> Node list \<Rightarrow> Pod \<Rightarrow> int \<Rightarrow> int \<Rightarrow> int" where
  "chosen_slack i nodes pod slack r = (if r < i then slack else slack_of (nodes ! nat (r - i)) pod)"

lemma chosen_slack_Cons:
  "r \<noteq> i \<Longrightarrow> chosen_slack i (n # ns) pod slack r = chosen_slack (i + 1) ns pod slack r"
proof -
  assume "r \<noteq> i"
  moreover have "i < r \<Longrightarrow> nat (r - i) = Suc (nat (r - (i + 1)))"
    by simp
  ultimately show ?thesis
    by (auto simp: chosen_slack_def)
qed

lemma best_fit_from_least:
  assumes "pod_ok pod" and "0 \<le> i" and "best < i"
    and "r = best_fit_from i nodes pod best slack" and "0 \<le> r"
  shows "(r < i \<longrightarrow> r = best) \<and> (0 \<le> best \<longrightarrow> chosen_slack i nodes pod slack r \<le> slack \<and>
           (r = best \<or> chosen_slack i nodes pod slack r < slack)) \<and>
         (\<forall>k < length nodes. fits (nodes ! k) pod \<longrightarrow>
            chosen_slack i nodes pod slack r \<le> slack_of (nodes ! k) pod \<and>
            (r \<le> i + int k \<or> chosen_slack i nodes pod slack r < slack_of (nodes ! k) pod))"
  using assms
proof (induction nodes arbitrary: i best slack)
  case Nil
  then show ?case
    by (auto simp: chosen_slack_def)
next
  case (Cons node nodes)
  let ?s = "slack_of node pod"
  consider (no) "\<not> fits node pod"
    | (take) "fits node pod" "best < 0 \<or> ?s < slack"
    | (keep) "fits node pod" "0 \<le> best" "slack \<le> ?s"
    by linarith
  then show ?case
  proof cases
    case no
    then have r: "r = best_fit_from (i + 1) nodes pod best slack"
      using Cons.prems(4) by (auto simp: fits_def)
    have "r \<noteq> i"
      using Cons.IH [of "i + 1" best slack] Cons.prems r by auto
    with Cons.IH [of "i + 1" best slack] Cons.prems r no show ?thesis
      by (auto simp: chosen_slack_Cons less_Suc_eq_0_disj)
  next
    case take
    then have r: "r = best_fit_from (i + 1) nodes pod i ?s"
      using Cons.prems(1,4) slack_exact [of node pod] by (auto simp: fits_def Let_def)
    from Cons.IH [of "i + 1" i ?s] Cons.prems r
    have IH: "(r < i + 1 \<longrightarrow> r = i) \<and> (chosen_slack (i + 1) nodes pod ?s r \<le> ?s \<and>
           (r = i \<or> chosen_slack (i + 1) nodes pod ?s r < ?s)) \<and>
         (\<forall>k < length nodes. fits (nodes ! k) pod \<longrightarrow>
            chosen_slack (i + 1) nodes pod ?s r \<le> slack_of (nodes ! k) pod \<and>
            (r \<le> i + 1 + int k \<or> chosen_slack (i + 1) nodes pod ?s r < slack_of (nodes ! k) pod))"
      by auto
    then have "i \<le> r"
      by linarith
    moreover have "nat (r - (i + 1)) = nat (r - i) - Suc 0"
      by simp
    ultimately have "chosen_slack i (node # nodes) pod slack r = chosen_slack (i + 1) nodes pod ?s r"
      by (cases "r = i") (simp_all add: chosen_slack_def nth_Cons')
    with IH take show ?thesis
      by (auto simp: less_Suc_eq_0_disj)
  next
    case keep
    then have r: "r = best_fit_from (i + 1) nodes pod best slack"
      using Cons.prems(1,4) slack_exact [of node pod] by (auto simp: fits_def Let_def)
    have "r \<noteq> i"
      using Cons.IH [of "i + 1" best slack] Cons.prems r by auto
    with Cons.IH [of "i + 1" best slack] Cons.prems r keep show ?thesis
      by (auto simp: chosen_slack_Cons less_Suc_eq_0_disj)
  qed
qed

section \<open>Properties\<close>

lemma Place_loop:
  obtains remaining' left exhausted where
    "place_loop bestFit (filter NodeSchedulable nodes) [] 0 {} (sort_key pod_order pods) =
       (remaining', Unplaced (Place nodes pods), Placed (Place nodes pods), exhausted)"
    "FreeAfter (Place nodes pods) = fold set_free remaining' Map.empty"
    "NodesExhausted (Place nodes pods) = sort (map NodeName (filter (\<lambda>n. NodeName n \<in> exhausted) remaining'))"
  by (cases "place_loop bestFit (filter NodeSchedulable nodes) [] 0 {} (sort_key pod_order pods)")
    (auto simp: Place_def place_with_def Let_def)

lemma fold_map_upd: "fold set_free ns m k = Some n \<Longrightarrow> n \<in> set ns \<and> NodeName n = k \<or> m k = Some n"
  by (induction ns arbitrary: m) (fastforce simp: set_free_def split: if_splits)+

lemma fold_map_upd_keep:
  "k \<notin> NodeName ` set ns \<Longrightarrow> fold set_free ns m k = m k"
  by (induction ns arbitrary: m) (simp_all add: set_free_def)

lemma fold_map_upd_get:
  "distinct (map NodeName ns) \<Longrightarrow> n \<in> set ns \<Longrightarrow>
     fold set_free ns m (NodeName n) = Some n"
proof (induction ns arbitrary: m)
  case Nil
  then show ?case by simp
next
  case (Cons a ns)
  have "set_free a m (NodeName a) = Some a"
    by (simp add: set_free_def)
  with Cons show ?case
    by (cases "n = a") (simp_all add: fold_map_upd_keep)
qed

text \<open>
  The scan chooses the fitting node with the least CPU left over, the first of them when
  several tie, and -1 exactly when the pod fits nowhere.
\<close>

theorem bestFit_is_best:
  assumes "pod_ok pod"
  shows "if bestFit nodes pod < 0 then (\<forall>n \<in> set nodes. \<not> fits n pod)
         else nat (bestFit nodes pod) < length nodes \<and> fits (nodes ! nat (bestFit nodes pod)) pod \<and>
              (\<forall>k < length nodes. fits (nodes ! k) pod \<longrightarrow>
                 slack_of (nodes ! nat (bestFit nodes pod)) pod \<le> slack_of (nodes ! k) pod \<and>
                 (nat (bestFit nodes pod) \<le> k \<or>
                  slack_of (nodes ! nat (bestFit nodes pod)) pod < slack_of (nodes ! k) pod))"
proof (cases "bestFit nodes pod < 0")
  case True
  with best_fit.pick_none show ?thesis
    by auto
next
  case False
  with best_fit_from_least [OF assms, of 0 "- 1" "bestFit nodes pod" nodes 0] best_fit.pick_some [of nodes pod]
  show ?thesis
    by (auto simp: bestFit_def chosen_slack_def nat_le_iff)
qed

definition example_nodes :: "Node list" where
  "example_nodes =
     [\<lparr>NodeName = ''a'', AllocatableCPU = 4000, AllocatableMem = 8000, AllocatedCPU = 1000,
        AllocatedMem = 1000, NodeSchedulable = True, UnschedulableBy = []\<rparr>,
      \<lparr>NodeName = ''b'', AllocatableCPU = 2000, AllocatableMem = 8000, AllocatedCPU = 1500,
        AllocatedMem = 1000, NodeSchedulable = True, UnschedulableBy = []\<rparr>,
      \<lparr>NodeName = ''c'', AllocatableCPU = 9000, AllocatableMem = 9000, AllocatedCPU = 0,
        AllocatedMem = 0, NodeSchedulable = False, UnschedulableBy = ''cordoned''\<rparr>]"

definition example_pods :: "Pod list" where
  "example_pods = [\<lparr>PodName = ''p'', CPU = 500, Mem = 100\<rparr>, \<lparr>PodName = ''q'', CPU = 3000, Mem = 100\<rparr>,
                   \<lparr>PodName = ''r'', CPU = 2500, Mem = 100\<rparr>]"

theorem bestFit_is_best_witness:
  "bestFit example_nodes (hd example_pods) = 1 \<and>
   slack_of (example_nodes ! 1) (hd example_pods) \<le> slack_of (example_nodes ! 0) (hd example_pods)"
proof -
  have "pod_ok (hd example_pods)"
    by (simp add: pod_ok_def example_pods_def)
  moreover have b: "bestFit example_nodes (hd example_pods) = 1"
    by code_simp
  moreover have "length example_nodes = 3" and "fits (example_nodes ! 0) (hd example_pods)"
    by code_simp+
  ultimately show ?thesis
    using bestFit_is_best [of "hd example_pods" example_nodes] by auto
qed

lemma sort_key_ok: "\<forall>p \<in> set pods. pod_ok p \<Longrightarrow> \<forall>p \<in> set (sort_key pod_order pods). pod_ok p"
  by simp

lemma sum_list_sort_key: "sum_list (map f (sort_key g xs)) = sum_list (map f xs)"
  for f :: "'a \<Rightarrow> int"
  by (metis mset_map mset_sort sum_mset_sum_list)

lemma grownD:
  "best_fit.grown n n' \<Longrightarrow> NodeName n' = NodeName n \<and> AllocatableCPU n' = AllocatableCPU n \<and>
     AllocatableMem n' = AllocatableMem n \<and>
     AllocatedCPU n \<le> AllocatedCPU n' \<and> AllocatedCPU n' \<le> max (AllocatedCPU n) (AllocatableCPU n) \<and>
     AllocatedMem n \<le> AllocatedMem n' \<and> AllocatedMem n' \<le> max (AllocatedMem n) (AllocatableMem n)"
  by (simp add: best_fit.grown_def)

text \<open>
  No pod is lost and none is refused without cause: the placed and the unplaced pods
  together are as many as were asked for, every unplaced pod is one of them, and it fits on
  no node of the final state, so a pod is only reported as unplaced when there is no room.
\<close>

theorem Place_refuses_only_what_does_not_fit:
  assumes "\<forall>n \<in> set nodes. node_ok n" and "\<forall>p \<in> set pods. pod_ok p"
  shows "Placed (Place nodes pods) + int (length (Unplaced (Place nodes pods))) = int (length pods) \<and>
     set (Unplaced (Place nodes pods)) \<subseteq> set pods \<and>
     (\<forall>p \<in> set (Unplaced (Place nodes pods)). \<forall>n \<in> ran (FreeAfter (Place nodes pods)). \<not> fits n p)"
proof -
  obtain rem' ex where loop: "place_loop bestFit (filter NodeSchedulable nodes) [] 0 {} (sort_key pod_order pods) =
      (rem', Unplaced (Place nodes pods), Placed (Place nodes pods), ex)"
    and free: "FreeAfter (Place nodes pods) = fold set_free rem' Map.empty"
    by (rule Place_loop)
  have "ran (FreeAfter (Place nodes pods)) \<subseteq> set rem'"
    unfolding free ran_def by (auto dest!: fold_map_upd)
  with best_fit.place_loop_spec [OF loop] assms show ?thesis
    by (fastforce simp: of_nat_diff)
qed

theorem Place_refuses_only_what_does_not_fit_witness:
  "Placed (Place example_nodes example_pods) = 2 \<and>
   Placed (Place example_nodes example_pods) + int (length (Unplaced (Place example_nodes example_pods))) = 3"
proof -
  have "\<forall>n \<in> set example_nodes. node_ok n" "\<forall>p \<in> set example_pods. pod_ok p"
    by (simp_all add: example_nodes_def example_pods_def node_ok_def pod_ok_def max_i64_def)
  moreover have "Placed (Place example_nodes example_pods) = 2"
    by code_simp
  moreover have "length example_pods = 3"
    by code_simp
  ultimately show ?thesis
    using Place_refuses_only_what_does_not_fit [of example_nodes example_pods] by simp
qed

text \<open>
  C22. The simulation never puts more on a node than it can allocate: every node of the
  result is one of the schedulable nodes with at least what it had and, in each dimension,
  no more than its allocatable amount or what was there before.
\<close>

theorem Place_never_overcommits:
  assumes "\<forall>n \<in> set nodes. node_ok n" and "\<forall>p \<in> set pods. pod_ok p"
    and "FreeAfter (Place nodes pods) name = Some n'"
  shows "\<exists>n \<in> set nodes. NodeSchedulable n \<and> NodeName n = name \<and>
     AllocatedCPU n \<le> AllocatedCPU n' \<and> AllocatedCPU n' \<le> max (AllocatedCPU n) (AllocatableCPU n) \<and>
     AllocatedMem n \<le> AllocatedMem n' \<and> AllocatedMem n' \<le> max (AllocatedMem n) (AllocatableMem n)"
proof -
  obtain rem' ex where loop: "place_loop bestFit (filter NodeSchedulable nodes) [] 0 {} (sort_key pod_order pods) =
      (rem', Unplaced (Place nodes pods), Placed (Place nodes pods), ex)"
    and free: "FreeAfter (Place nodes pods) = fold set_free rem' Map.empty"
    by (rule Place_loop)
  have n': "n' \<in> set rem'" "NodeName n' = name"
    using fold_map_upd [of rem' Map.empty name n'] assms(3) unfolding free by auto
  have "list_all2 best_fit.grown (filter NodeSchedulable nodes) rem'"
    using best_fit.place_loop_spec [OF loop] assms(1,2) by simp
  with n'(1) obtain n where "n \<in> set (filter NodeSchedulable nodes)" "best_fit.grown n n'"
    by (metis in_set_conv_nth list_all2_conv_all_nth)
  with n'(2) show ?thesis
    using grownD [of n n'] by (intro bexI [of _ n]) auto
qed

theorem Place_never_overcommits_witness:
  "\<exists>n \<in> set example_nodes. NodeSchedulable n \<and> NodeName n = ''a'' \<and>
     AllocatedCPU (the (FreeAfter (Place example_nodes example_pods) ''a'')) \<le>
       max (AllocatedCPU n) (AllocatableCPU n)"
proof -
  have ok: "\<forall>n \<in> set example_nodes. node_ok n" "\<forall>p \<in> set example_pods. pod_ok p"
    by (simp_all add: example_nodes_def example_pods_def node_ok_def pod_ok_def max_i64_def)
  have "FreeAfter (Place example_nodes example_pods) ''a'' \<noteq> None"
    by code_simp
  then obtain n' where "FreeAfter (Place example_nodes example_pods) ''a'' = Some n'"
    by auto
  with Place_never_overcommits [OF ok this] show ?thesis
    by auto
qed

text \<open>
  What is placed is accounted for: summed over the nodes, the allocated CPU and memory
  grow by exactly what the placed pods request.
\<close>

theorem Place_conserves_requests:
  assumes "\<forall>n \<in> set nodes. node_ok n" and "\<forall>p \<in> set pods. pod_ok p"
    and "distinct (map NodeName (filter NodeSchedulable nodes))"
  shows "sum_list (map (\<lambda>n. AllocatedCPU (the (FreeAfter (Place nodes pods) (NodeName n))))
             (filter NodeSchedulable nodes)) + sum_list (map CPU (Unplaced (Place nodes pods))) =
           sum_list (map AllocatedCPU (filter NodeSchedulable nodes)) + sum_list (map CPU pods) \<and>
         sum_list (map (\<lambda>n. AllocatedMem (the (FreeAfter (Place nodes pods) (NodeName n))))
             (filter NodeSchedulable nodes)) + sum_list (map Mem (Unplaced (Place nodes pods))) =
           sum_list (map AllocatedMem (filter NodeSchedulable nodes)) + sum_list (map Mem pods)"
proof -
  let ?ns = "filter NodeSchedulable nodes"
  obtain rem' ex where loop: "place_loop bestFit ?ns [] 0 {} (sort_key pod_order pods) =
      (rem', Unplaced (Place nodes pods), Placed (Place nodes pods), ex)"
    and free: "FreeAfter (Place nodes pods) = fold set_free rem' Map.empty"
    by (rule Place_loop)
  note spec = best_fit.place_loop_spec [OF loop]
  have g: "list_all2 best_fit.grown ?ns rem'"
    using spec assms(1,2) by simp
  then have names: "map NodeName rem' = map NodeName ?ns"
    by (induction rule: list_all2_induct) (simp_all add: best_fit.grown_def)
  have "map (\<lambda>n. the (FreeAfter (Place nodes pods) (NodeName n))) rem' = rem'"
    unfolding free using names assms(3) by (simp add: map_idI fold_map_upd_get)
  then have "map (\<lambda>k. the (FreeAfter (Place nodes pods) k)) (map NodeName rem') = rem'"
    by (simp add: comp_def)
  then have f: "map (\<lambda>n. the (FreeAfter (Place nodes pods) (NodeName n))) ?ns = rem'"
    unfolding names by (simp add: comp_def)
  have "sum_list (map (\<lambda>n. h (the (FreeAfter (Place nodes pods) (NodeName n)))) ?ns) = sum_list (map h rem')"
    for h :: "Node \<Rightarrow> int"
    using arg_cong [OF f, of "map h"] by (simp add: comp_def)
  with spec assms(1,2) show ?thesis
    by (simp add: sum_list_sort_key)
qed

theorem Place_conserves_requests_witness:
  "sum_list (map CPU (Unplaced (Place example_nodes example_pods))) = 2500 \<and>
   sum_list (map (\<lambda>n. AllocatedCPU (the (FreeAfter (Place example_nodes example_pods) (NodeName n))))
     (filter NodeSchedulable example_nodes)) = 6000"
proof -
  have ok: "\<forall>n \<in> set example_nodes. node_ok n" "\<forall>p \<in> set example_pods. pod_ok p"
    by (simp_all add: example_nodes_def example_pods_def node_ok_def pod_ok_def max_i64_def)
  have d: "distinct (map NodeName (filter NodeSchedulable example_nodes))"
    by code_simp
  have "sum_list (map CPU (Unplaced (Place example_nodes example_pods))) = 2500"
    "sum_list (map AllocatedCPU (filter NodeSchedulable example_nodes)) = 2500"
    "sum_list (map CPU example_pods) = 6000"
    by code_simp+
  with Place_conserves_requests [OF ok d] show ?thesis
    by simp
qed

end
