(* ===== verification/Simulator.thy ===== *)
theory Simulator
  imports Packing Float64 KubeObjects
begin

text \<open>
  The impact simulation of internal/simulate/simulator.go: a snapshot of the nodes and of
  what is allocated on them, the typical pod of a division, the pods that would fill a
  change of quota, their placement, and the verdict. The replies of the client's list calls
  are the record \<^verbatim>\<open>View\<close>; sorting by CPU, which Go does not promise to be stable, is
  an argument.
\<close>

definition fallbackPodCPU :: int where "fallbackPodCPU = 250"
definition fallbackPodMem :: int where "fallbackPodMem = 512 * 1024 * 1024"
definition maxSimulated :: int where "maxSimulated = 500"

record Compute =
  CPUMillicores :: int
  MemoryBytes :: int

record PendingPod =
  pending_Namespace :: string
  pending_Name :: string
  pending_Reason :: string

record Impact =
  QuotaBefore :: Compute
  QuotaAfter :: Compute
  Committed :: Compute
  Allocatable :: Compute
  CommitBefore :: rat
  CommitAfter :: rat
  TypicalPod :: Pod
  HeadroomPods :: int
  PlacedPods :: int
  UnplacedPods :: int
  ImpactNodesExhausted :: "string list"
  PendingNow :: "PendingPod list"
  Schedulable :: bool
  Verdict :: string
  SimulatedAt :: time

record View =
  list_nodes :: "api_error + KNode list"
  list_pods :: "api_error + KPod list"
  list_pods_typical :: "string \<Rightarrow> api_error + KPod list"
  list_pods_pending :: "string \<Rightarrow> api_error + KPod list"

section \<open>Reading pods and nodes\<close>

definition requestsOf :: "KPod \<Rightarrow> int \<times> int" where
  "requestsOf pod = fold (\<lambda>(cpu, mem) (c, m). (wrap64 (c + MilliValue cpu), wrap64 (m + Value mem)))
     (pod_Requests pod) (0, 0)"

definition terminal :: "KPod \<Rightarrow> bool" where
  "terminal pod \<longleftrightarrow> pod_Phase pod = ''Succeeded'' \<or> pod_Phase pod = ''Failed''"

fun ready_from :: "(string \<times> string) list \<Rightarrow> bool" where
  "ready_from [] = True"
| "ready_from ((t, s) # rest) = (if t = ''Ready'' then s = ''True'' else ready_from rest)"

definition ready :: "KNode \<Rightarrow> bool" where
  "ready node = ready_from (node_Conditions node)"

definition taintedNoSchedule :: "KNode \<Rightarrow> bool" where
  "taintedNoSchedule node \<longleftrightarrow>
     list_ex (\<lambda>e. e = ''NoSchedule'' \<or> e = ''NoExecute'') (node_TaintEffects node)"

fun unschedulable_from :: "PodCondition list \<Rightarrow> string" where
  "unschedulable_from [] = ''waiting to be scheduled''"
| "unschedulable_from (c # cs) =
     (if pc_Type c = ''PodScheduled'' \<and> pc_Status c = ''False''
      then (if pc_Message c \<noteq> [] then pc_Message c else pc_Reason c)
      else unschedulable_from cs)"

definition unschedulableReason :: "KPod \<Rightarrow> string" where
  "unschedulableReason pod = unschedulable_from (pod_Conditions pod)"

section \<open>The snapshot\<close>

text \<open>What the scheduled, running pods request on each node.\<close>

definition allocated_on :: "KPod list \<Rightarrow> string \<Rightarrow> int \<times> int" where
  "allocated_on pods = fold (\<lambda>pod m.
       if pod_NodeName pod = [] \<or> terminal pod then m
       else (let (cpu, memory) = requestsOf pod; (c, b) = m (pod_NodeName pod)
             in m(pod_NodeName pod := (wrap64 (c + cpu), wrap64 (b + memory)))))
     pods (\<lambda>_. (0, 0))"

definition node_of :: "KPod list \<Rightarrow> KNode \<Rightarrow> Node" where
  "node_of pods item =
     (let (sched, by) =
            (if node_Unschedulable item then (False, ''cordoned'')
             else if \<not> ready item then (False, ''not ready'')
             else if taintedNoSchedule item then (False, ''tainted'')
             else (True, []))
      in \<lparr>NodeName = node_Name item,
          AllocatableCPU = MilliValue (quantity_or_zero (node_CPU item)),
          AllocatableMem = Value (quantity_or_zero (node_Memory item)),
          AllocatedCPU = fst (allocated_on pods (node_Name item)),
          AllocatedMem = snd (allocated_on pods (node_Name item)),
          NodeSchedulable = sched, UnschedulableBy = by\<rparr>)"

definition snapshot :: "View \<Rightarrow> string + Node list \<times> Compute" where
  "snapshot v =
     (case list_nodes v of
        Inl err \<Rightarrow> Inl (''list nodes: '' @ error_text err)
      | Inr items \<Rightarrow>
          (case list_pods v of
             Inl err \<Rightarrow> Inl (''list pods: '' @ error_text err)
           | Inr pods \<Rightarrow>
               (let nodes = map (node_of pods) items;
                    allocatable = fold (\<lambda>n c. if NodeSchedulable n
                        then \<lparr>CPUMillicores = wrap64 (CPUMillicores c + AllocatableCPU n),
                              MemoryBytes = wrap64 (MemoryBytes c + AllocatableMem n)\<rparr>
                        else c) nodes \<lparr>CPUMillicores = 0, MemoryBytes = 0\<rparr>
                in Inr (nodes, allocatable))))"

section \<open>The typical pod and the pending pods\<close>

fun pod_sizes :: "KPod list \<Rightarrow> Pod list" where
  "pod_sizes [] = []"
| "pod_sizes (pod # pods) =
     (if terminal pod then pod_sizes pods
      else let (cpu, memory) = requestsOf pod
           in if cpu = 0 \<and> memory = 0 then pod_sizes pods
              else \<lparr>PodName = pod_Name pod, CPU = cpu, Mem = memory\<rparr> # pod_sizes pods)"

fun sizes_in :: "(string \<Rightarrow> api_error + KPod list) \<Rightarrow> string list \<Rightarrow> string + Pod list" where
  "sizes_in list_in [] = Inr []"
| "sizes_in list_in (namespace # namespaces) =
     (case list_in namespace of
        Inl err \<Rightarrow> Inl (''list pods in '' @ namespace @ '': '' @ error_text err)
      | Inr pods \<Rightarrow>
          (case sizes_in list_in namespaces of
             Inl m \<Rightarrow> Inl m
           | Inr sizes \<Rightarrow> Inr (pod_sizes pods @ sizes)))"

definition typicalPod :: "(Pod list \<Rightarrow> Pod list) \<Rightarrow> View \<Rightarrow> string list \<Rightarrow> string + Pod" where
  "typicalPod sort_cpu v namespaces =
     (case sizes_in (list_pods_typical v) namespaces of
        Inl m \<Rightarrow> Inl m
      | Inr sizes \<Rightarrow>
          if sizes = [] then Inr \<lparr>PodName = ''typical'', CPU = fallbackPodCPU, Mem = fallbackPodMem\<rparr>
          else let median = sort_cpu sizes ! (length sizes div 2)
               in Inr \<lparr>PodName = ''typical'', CPU = max64 (CPU median) 1, Mem = max64 (Mem median) 1\<rparr>)"

definition pending_of :: "KPod list \<Rightarrow> PendingPod list" where
  "pending_of pods =
     map (\<lambda>pod. \<lparr>pending_Namespace = pod_Namespace pod, pending_Name = pod_Name pod,
                 pending_Reason = unschedulableReason pod\<rparr>)
       (filter (\<lambda>pod. \<not> (pod_Phase pod \<noteq> ''Pending'' \<or> pod_NodeName pod \<noteq> [])) pods)"

fun pendingNow :: "(string \<Rightarrow> api_error + KPod list) \<Rightarrow> string list \<Rightarrow> string + PendingPod list" where
  "pendingNow list_in [] = Inr []"
| "pendingNow list_in (namespace # namespaces) =
     (case list_in namespace of
        Inl err \<Rightarrow> Inl (''list pods in '' @ namespace @ '': '' @ error_text err)
      | Inr pods \<Rightarrow>
          (case pendingNow list_in namespaces of
             Inl m \<Rightarrow> Inl m
           | Inr rest \<Rightarrow> Inr (pending_of pods @ rest)))"

section \<open>Filling a change of quota\<close>

definition fill_count :: "Compute \<Rightarrow> Pod \<Rightarrow> int" where
  "fill_count headroom typical =
     (let byCPU = (if CPU typical > 0 \<and> CPUMillicores headroom > 0
                   then CPUMillicores headroom sdiv CPU typical else 0);
          byMemory = (if Mem typical > 0 \<and> MemoryBytes headroom > 0
                      then MemoryBytes headroom sdiv Mem typical else 0);
          count = byCPU;
          count = (if byMemory < count \<or> count = 0 then byMemory else count);
          count = (if count \<le> 0 then 1 else count);
          count = (if count > maxSimulated then maxSimulated else count)
      in count)"

definition fill :: "Compute \<Rightarrow> Pod \<Rightarrow> Pod list" where
  "fill headroom typical =
     (if CPUMillicores headroom \<le> 0 \<and> MemoryBytes headroom \<le> 0 then []
      else map (\<lambda>i. \<lparr>PodName = PodName typical @ ''-'' @ show_int (int i + 1),
                     CPU = CPU typical, Mem = Mem typical\<rparr>)
             [0..<nat (fill_count headroom typical)])"

definition verdictOf :: "Impact \<Rightarrow> string" where
  "verdictOf i =
     (if HeadroomPods i = 0 then
        ''the target does not add headroom, so nothing new has to be scheduled''
      else if Schedulable i then
        ''all '' @ show_int (HeadroomPods i) @ '' pods of the division''@ [CHR 0x27] @ ''s typical size (''
          @ show_int (CPU (TypicalPod i)) @ ''m cpu, ''
          @ show_int (Mem (TypicalPod i) sdiv 1024 sdiv 1024) @ ''Mi) would find a node''
      else
        show_int (UnplacedPods i) @ '' of '' @ show_int (HeadroomPods i)
          @ '' pods of the division'' @ [CHR 0x27]
          @ ''s typical size would not fit on any node, even though the quota allows them'')"

definition ratio :: "int \<Rightarrow> int \<Rightarrow> rat" where
  "ratio part whole = (if whole \<le> 0 then 0 else fdiv (float_of_int part) (float_of_int whole))"

definition sub_compute :: "Compute \<Rightarrow> Compute \<Rightarrow> Compute" where
  "sub_compute a b = \<lparr>CPUMillicores = wrap64 (CPUMillicores a - CPUMillicores b),
                      MemoryBytes = wrap64 (MemoryBytes a - MemoryBytes b)\<rparr>"

definition committed_after :: "Compute \<Rightarrow> Compute \<Rightarrow> Compute \<Rightarrow> Compute" where
  "committed_after committed before after =
     \<lparr>CPUMillicores = wrap64 (wrap64 (CPUMillicores committed - CPUMillicores before) + CPUMillicores after),
      MemoryBytes = wrap64 (wrap64 (MemoryBytes committed - MemoryBytes before) + MemoryBytes after)\<rparr>"

definition impact_of ::
  "(Pod list \<Rightarrow> Pod list) \<Rightarrow> time \<Rightarrow> View \<Rightarrow> string list \<Rightarrow> Compute \<Rightarrow> Compute \<Rightarrow> Compute \<Rightarrow> string + Impact" where
  "impact_of sort_cpu now v namespaces before after committed =
     (case snapshot v of
        Inl m \<Rightarrow> Inl m
      | Inr (nodes, allocatable) \<Rightarrow>
     (case typicalPod sort_cpu v namespaces of
        Inl m \<Rightarrow> Inl m
      | Inr typical \<Rightarrow>
     (case pendingNow (list_pods_pending v) namespaces of
        Inl m \<Rightarrow> Inl m
      | Inr pending \<Rightarrow>
          (let headroom = sub_compute after before;
               pods = fill headroom typical;
               placement = Place nodes pods;
               committedAfter = committed_after committed before after;
               i = \<lparr>QuotaBefore = before, QuotaAfter = after, Committed = committedAfter,
                    Allocatable = allocatable,
                    CommitBefore = ratio (CPUMillicores committed) (CPUMillicores allocatable),
                    CommitAfter = ratio (CPUMillicores committedAfter) (CPUMillicores allocatable),
                    TypicalPod = typical, HeadroomPods = int (length pods),
                    PlacedPods = Placed placement,
                    UnplacedPods = int (length (Unplaced placement)),
                    ImpactNodesExhausted = NodesExhausted placement, PendingNow = pending,
                    Schedulable = False, Verdict = [], SimulatedAt = now\<rparr>;
               i = i\<lparr>Schedulable := (UnplacedPods i = 0)\<rparr>
           in Inr (i\<lparr>Verdict := verdictOf i\<rparr>)))))"

section \<open>Lemmas\<close>

lemma fill_count_range: "1 \<le> fill_count headroom typical \<and> fill_count headroom typical \<le> 500"
  by (simp add: fill_count_def maxSimulated_def Let_def)

lemma length_fill:
  "length (fill headroom typical) =
     (if CPUMillicores headroom \<le> 0 \<and> MemoryBytes headroom \<le> 0 then 0
      else nat (fill_count headroom typical))"
  by (simp add: fill_def)

lemma fill_pods: "p \<in> set (fill headroom typical) \<Longrightarrow> CPU p = CPU typical \<and> Mem p = Mem typical"
  by (auto simp: fill_def split: if_splits)

lemma place_loop_count:
  "place_loop pick remaining unplaced placed exhausted pods = (remaining', unplaced', placed', exhausted') \<Longrightarrow>
     placed' + int (length unplaced') = placed + int (length unplaced) + int (length pods)"
  by (induction pods arbitrary: remaining unplaced placed exhausted)
    (fastforce simp: Let_def split: if_splits)+

lemma Place_count: "Placed (Place nodes pods) + int (length (Unplaced (Place nodes pods))) = int (length pods)"
proof -
  obtain r ex where "place_loop bestFit (filter NodeSchedulable nodes) [] 0 {} (sort_key pod_order pods) =
      (r, Unplaced (Place nodes pods), Placed (Place nodes pods), ex)"
    by (rule Place_loop)
  from place_loop_count [OF this] show ?thesis
    by simp
qed

lemma sdiv_nonneg: "0 \<le> a \<Longrightarrow> 0 < b \<Longrightarrow> a sdiv b = a div b" for a b :: int
  by (simp add: signed_divide_int_def sgn_if)

lemma impact_of_cases:
  assumes "impact_of sort_cpu now v namespaces before after committed = Inr i"
  obtains nodes allocatable typical pods where
    "snapshot v = Inr (nodes, allocatable)" and "typicalPod sort_cpu v namespaces = Inr typical"
    and "pods = fill (sub_compute after before) typical"
    and "TypicalPod i = typical" and "HeadroomPods i = int (length pods)"
    and "PlacedPods i = Placed (Place nodes pods)"
    and "UnplacedPods i = int (length (Unplaced (Place nodes pods)))"
    and "Schedulable i \<longleftrightarrow> UnplacedPods i = 0" and "Verdict i = verdictOf (i\<lparr>Verdict := []\<rparr>)"
  using assms by (auto simp: impact_of_def Let_def split: sum.splits prod.splits)

section \<open>Properties\<close>

text \<open>
  A simulation that succeeds accounts for its pods: between none and 500 are tried, the
  placed and unplaced ones add up to them, the change is called schedulable exactly when
  none is left over, and none is tried exactly when the quota grows in neither dimension.
\<close>

theorem impact_accounts_for_its_pods:
  assumes "impact_of sort_cpu now v namespaces before after committed = Inr i"
  shows "PlacedPods i + UnplacedPods i = HeadroomPods i \<and> 0 \<le> HeadroomPods i \<and> HeadroomPods i \<le> 500 \<and>
     (Schedulable i \<longleftrightarrow> UnplacedPods i = 0) \<and>
     (HeadroomPods i = 0 \<longleftrightarrow>
        CPUMillicores (sub_compute after before) \<le> 0 \<and> MemoryBytes (sub_compute after before) \<le> 0)"
  using assms
proof (rule impact_of_cases)
  fix nodes allocatable typical pods
  assume a: "pods = fill (sub_compute after before) typical" "HeadroomPods i = int (length pods)"
    "PlacedPods i = Placed (Place nodes pods)" "UnplacedPods i = int (length (Unplaced (Place nodes pods)))"
    "Schedulable i \<longleftrightarrow> UnplacedPods i = 0"
  show ?thesis
    using a Place_count [of nodes pods] fill_count_range [of "sub_compute after before" typical]
    by (auto simp: length_fill)
qed

definition example_view :: View where
  "example_view = \<lparr>
     list_nodes = Inr [\<lparr>node_Name = ''a'', node_Unschedulable = False, node_Conditions = [(''Ready'', ''True'')],
        node_TaintEffects = [], node_CPU = Some \<lparr>MilliValue = 4000, Value = 4, QuantityIsZero = False\<rparr>,
        node_Memory = Some \<lparr>MilliValue = 8589934592000, Value = 8589934592, QuantityIsZero = False\<rparr>\<rparr>],
     list_pods = Inr [], list_pods_typical = (\<lambda>_. Inr []), list_pods_pending = (\<lambda>_. Inr [])\<rparr>"

definition example_impact :: "string + Impact" where
  "example_impact = impact_of (sort_key CPU) 0 example_view [''payments-dev'']
     \<lparr>CPUMillicores = 1000, MemoryBytes = 1073741824\<rparr> \<lparr>CPUMillicores = 2000, MemoryBytes = 3221225472\<rparr>
     \<lparr>CPUMillicores = 1000, MemoryBytes = 1073741824\<rparr>"

theorem impact_accounts_for_its_pods_witness:
  "\<exists>i. example_impact = Inr i \<and> HeadroomPods i = 4 \<and> PlacedPods i + UnplacedPods i = 4"
proof -
  have "\<not> isl example_impact" "HeadroomPods (projr example_impact) = 4"
    by code_simp+
  then obtain i where i: "example_impact = Inr i" "HeadroomPods i = 4"
    by (metis sum.collapse(2))
  with impact_accounts_for_its_pods [OF i(1) [unfolded example_impact_def]] show ?thesis
    by auto
qed

text \<open>
  How many pods are tried when both dimensions grow by at least one typical pod: as many
  as the scarcer of the two holds, up to 500, so the pods together never exceed the change.
\<close>

theorem fill_stays_within_the_headroom:
  assumes "0 < CPU typical" and "0 < Mem typical"
    and "CPU typical \<le> CPUMillicores headroom" and "Mem typical \<le> MemoryBytes headroom"
  shows "int (length (fill headroom typical)) =
           min 500 (min (CPUMillicores headroom div CPU typical) (MemoryBytes headroom div Mem typical)) \<and>
         sum_list (map CPU (fill headroom typical)) \<le> CPUMillicores headroom \<and>
         sum_list (map Mem (fill headroom typical)) \<le> MemoryBytes headroom"
proof -
  let ?c = "CPUMillicores headroom div CPU typical" and ?m = "MemoryBytes headroom div Mem typical"
  have "1 \<le> ?c" "1 \<le> ?m"
    using assms by (simp_all add: pos_imp_zdiv_pos_iff int_one_le_iff_zero_less)
  then have len: "int (length (fill headroom typical)) = min 500 (min ?c ?m)"
    using assms by (auto simp: length_fill fill_count_def maxSimulated_def sdiv_nonneg Let_def)
  have sums: "sum_list (map CPU (fill headroom typical)) = int (length (fill headroom typical)) * CPU typical"
    "sum_list (map Mem (fill headroom typical)) = int (length (fill headroom typical)) * Mem typical"
    by (simp_all add: fill_def comp_def sum_list_triv)
  have "int (length (fill headroom typical)) * CPU typical \<le> ?c * CPU typical"
    "int (length (fill headroom typical)) * Mem typical \<le> ?m * Mem typical"
    using assms len by (simp_all add: mult_right_mono)
  moreover have "?c * CPU typical \<le> CPUMillicores headroom" "?m * Mem typical \<le> MemoryBytes headroom"
    using pos_mod_sign [OF assms(1), of "CPUMillicores headroom"] pos_mod_sign [OF assms(2), of "MemoryBytes headroom"]
    by (simp_all add: minus_mod_eq_div_mult [symmetric])
  ultimately show ?thesis
    using len sums by linarith
qed

theorem fill_stays_within_the_headroom_witness:
  "int (length (fill \<lparr>CPUMillicores = 1000, MemoryBytes = 700\<rparr> \<lparr>PodName = ''t'', CPU = 250, Mem = 100\<rparr>)) = 4"
  using fill_stays_within_the_headroom
    [of "\<lparr>PodName = ''t'', CPU = 250, Mem = 100\<rparr>" "\<lparr>CPUMillicores = 1000, MemoryBytes = 700\<rparr>"] by simp

text \<open>
  A change that raises only the CPU quota is simulated with a single pod, however large
  the raise: memory contributes a count of zero, which replaces the count CPU gave, and the
  lower bound then makes it one. (A change that raises only memory is counted in full.)
\<close>

theorem fill_tries_one_pod_for_a_cpu_raise:
  assumes "CPU typical \<le> CPUMillicores headroom" and "0 < CPU typical" and "MemoryBytes headroom \<le> 0"
  shows "length (fill headroom typical) = 1"
proof -
  have "0 < CPUMillicores headroom div CPU typical"
    using assms by (simp add: pos_imp_zdiv_pos_iff)
  with assms show ?thesis
    by (auto simp: length_fill fill_count_def maxSimulated_def sdiv_nonneg Let_def)
qed

theorem fill_tries_one_pod_for_a_cpu_raise_witness:
  "length (fill \<lparr>CPUMillicores = 1000000, MemoryBytes = 0\<rparr> \<lparr>PodName = ''t'', CPU = 250, Mem = 100\<rparr>) = 1"
  using fill_tries_one_pod_for_a_cpu_raise
    [of "\<lparr>PodName = ''t'', CPU = 250, Mem = 100\<rparr>" "\<lparr>CPUMillicores = 1000000, MemoryBytes = 0\<rparr>"] by simp

end
