(* ===== verification/Conditions.thy ===== *)
theory Conditions
  imports GovernApi
begin

text \<open>
  Status conditions. \<^verbatim>\<open>setCondition\<close> is the helper of internal/requests/controller.go:
  it replaces the condition of a type in place, keeps it when nothing changed, keeps the
  transition time when the status did not change, and appends it otherwise.
  The locale \<^verbatim>\<open>status_conditions\<close> is the contract a setter of conditions has. The
  preview-environment controller uses the library's setter through the same contract.
\<close>

definition condition_of :: "string \<Rightarrow> Condition list \<Rightarrow> Condition option" where
  "condition_of t cs = find (\<lambda>c. cond_Type c = t) cs"

definition has_condition :: "string \<Rightarrow> string \<Rightarrow> string \<Rightarrow> Condition list \<Rightarrow> bool" where
  "has_condition t state reason cs =
     (case condition_of t cs of
        None \<Rightarrow> False
      | Some c \<Rightarrow> cond_Status c = state \<and> cond_Reason c = reason)"

definition condition_types :: "Condition list \<Rightarrow> string list" where
  "condition_types cs = map cond_Type cs"

fun setCondition :: "time \<Rightarrow> string \<Rightarrow> string \<Rightarrow> string \<Rightarrow> string \<Rightarrow> Condition list \<Rightarrow> Condition list" where
  "setCondition now t state reason message [] =
     [\<lparr>cond_Type = t, cond_Status = state, cond_Reason = reason, cond_Message = message,
       cond_LastTransitionTime = now\<rparr>]"
| "setCondition now t state reason message (c # cs) =
     (if cond_Type c \<noteq> t then c # setCondition now t state reason message cs
      else if cond_Status c = state \<and> cond_Reason c = reason \<and> cond_Message c = message then c # cs
      else \<lparr>cond_Type = t, cond_Status = state, cond_Reason = reason, cond_Message = message,
             cond_LastTransitionTime =
               (if cond_Status c = state then cond_LastTransitionTime c else now)\<rparr> # cs)"

locale status_conditions =
  fixes upd :: "string \<Rightarrow> string \<Rightarrow> string \<Rightarrow> string \<Rightarrow> Condition list \<Rightarrow> Condition list"
  assumes upd_same: "\<exists>c. condition_of t (upd t state reason message cs) = Some c \<and>
            cond_Status c = state \<and> cond_Reason c = reason \<and> cond_Message c = message"
    and upd_other: "t' \<noteq> t \<Longrightarrow> condition_of t' (upd t state reason message cs) = condition_of t' cs"
    and upd_distinct: "distinct (condition_types cs) \<Longrightarrow> distinct (condition_types (upd t state reason message cs))"
begin

lemma has_upd_same [simp]:
  "has_condition t s r (upd t state reason message cs) \<longleftrightarrow> state = s \<and> reason = r"
  using upd_same [of t state reason message cs] by (auto simp: has_condition_def)

lemma has_upd_other [simp]:
  "t' \<noteq> t \<Longrightarrow> has_condition t' s r (upd t state reason message cs) = has_condition t' s r cs"
  by (simp add: has_condition_def upd_other)

end

lemma setCondition_types:
  "condition_types (setCondition now t state reason message cs) =
     (if t \<in> set (condition_types cs) then condition_types cs else condition_types cs @ [t])"
  by (induction cs) (auto simp: condition_types_def)

interpretation requests_conditions: status_conditions "setCondition now"
proof unfold_locales
  fix t state reason message cs
  show "\<exists>c. condition_of t (setCondition now t state reason message cs) = Some c \<and>
      cond_Status c = state \<and> cond_Reason c = reason \<and> cond_Message c = message"
    by (induction cs) (auto simp: condition_of_def)
  show "distinct (condition_types cs) \<Longrightarrow> distinct (condition_types (setCondition now t state reason message cs))"
    by (simp add: setCondition_types)
  fix t' :: string
  show "t' \<noteq> t \<Longrightarrow> condition_of t' (setCondition now t state reason message cs) = condition_of t' cs"
    by (induction cs) (auto simp: condition_of_def)
qed

text \<open>Setting the same condition again changes nothing, whatever the clock says.\<close>

lemma setCondition_again [simp]:
  "setCondition now' t state reason message (setCondition now t state reason message cs) =
     setCondition now t state reason message cs"
  by (induction cs) auto

lemma setCondition_keeps: "setCondition now t state reason message cs \<noteq> []"
  by (cases cs) auto

end
