(* ===== verification/RequestController.thy ===== *)
theory RequestController
  imports Recommender Simulator Conditions
begin

text \<open>
  The controller of quota requests, internal/requests/controller.go: gather the evidence
  (recommendation, preflight, simulation), bind it with a digest, and record the phase. A call
  of Reconcile is a function of what the client answers and of one reading of the clock; it
  returns the status it wrote (none when nothing it compares has changed) and an error or the
  delay until the next look. json.Marshal and SHA-256 are arguments, as are the constructors of
  quantities.
\<close>

record RequestDeps =
  rd_recommender :: "(visit_order \<times> Recommender) option"
  rd_preflight :: "PreflightView option"
  rd_simulator :: "((Pod list \<Rightarrow> Pod list) \<times> View) option"
  rd_divisions :: "api_error + Division list"
  rd_update :: "QuotaRequestStatus \<Rightarrow> api_error option"
  rd_marshal :: "Recommendation option \<Rightarrow> PreflightResult option \<Rightarrow> Simulation option \<Rightarrow> string + string"
  rd_sha256 :: "string \<Rightarrow> string"
  rd_new_milli :: "int \<Rightarrow> Quantity"
  rd_new_quantity :: "int \<Rightarrow> Quantity"

section \<open>Conversions\<close>

definition bounded :: "int \<Rightarrow> int" where
  "bounded value = (if value > max_i32 then max_i32 else if value < min_i32 then min_i32 else value)"

definition quotaFromCompute :: "RequestDeps \<Rightarrow> RCompute \<Rightarrow> Quota" where
  "quotaFromCompute deps c =
     \<lparr>q_CPU = rd_new_milli deps (rc_CPUMillicores c), q_Memory = rd_new_quantity deps (rc_MemoryBytes c),
      q_Storage = rd_new_quantity deps (rc_StorageBytes c), q_Pods = rc_Pods c\<rparr>"

definition toAPIRecommendation :: "RequestDeps \<Rightarrow> RRecommendation \<Rightarrow> RCompute \<Rightarrow> Recommendation" where
  "toAPIRecommendation deps r current =
     \<lparr>rec_Current = quotaFromCompute deps current,
      rec_ObservedP95 = quotaFromCompute deps (rr_ObservedP95 r),
      rec_ObservedP99 = quotaFromCompute deps (rr_ObservedP99 r),
      rec_Proposed = quotaFromCompute deps (rr_Proposed r),
      rec_Window = rr_Window r, rec_Basis = rr_Basis r, rec_ExhaustionAt = rr_ExhaustionAt r,
      rec_HeadroomPercent = rr_HeadroomPercent r\<rparr>"

definition toAPISimulation :: "Impact \<Rightarrow> Simulation" where
  "toAPISimulation impact =
     \<lparr>sim_Schedulable = Schedulable impact,
      sim_TypicalPodCPUMillicores = CPU (TypicalPod impact),
      sim_TypicalPodMemoryBytes = Mem (TypicalPod impact),
      sim_HeadroomPods = bounded (HeadroomPods impact),
      sim_PlacedPods = bounded (PlacedPods impact),
      sim_UnplacedPods = bounded (UnplacedPods impact),
      sim_NodesExhausted = ImpactNodesExhausted impact,
      sim_PendingNow = map (\<lambda>p. \<lparr>sp_Namespace = pending_Namespace p, sp_Name = pending_Name p,
                                 sp_Reason = pending_Reason p\<rparr>) (PendingNow impact),
      sim_CommitmentBeforePercent = bounded (float_to_i64 (fmul (CommitBefore impact) 100)),
      sim_CommitmentAfterPercent = bounded (float_to_i64 (fmul (CommitAfter impact) 100)),
      sim_Verdict = Verdict impact,
      sim_SimulatedAt = Some (SimulatedAt impact)\<rparr>"

definition EvidenceDigest ::
  "RequestDeps \<Rightarrow> Recommendation option \<Rightarrow> PreflightResult option \<Rightarrow> Simulation option \<Rightarrow> string + string" where
  "EvidenceDigest deps recommendation preflight simulation =
     (case rd_marshal deps recommendation preflight simulation of
        Inl err \<Rightarrow> Inl (''encode evidence: '' @ err)
      | Inr payload \<Rightarrow> Inr (hex_encode (rd_sha256 deps payload)))"

section \<open>The three pieces of evidence, each with its condition\<close>

definition no_metrics_message :: string where
  "no_metrics_message = ''no metrics source is configured, so the request carries no proposed number''"

definition recommend ::
  "RequestDeps \<Rightarrow> time \<Rightarrow> Division \<Rightarrow> RCompute \<Rightarrow> Condition list \<Rightarrow> Recommendation option \<times> Condition list" where
  "recommend deps now division current conditions =
     (case rd_recommender deps of
        None \<Rightarrow> (None, setCondition now ''Recommended'' ''False'' ''NoMetrics'' no_metrics_message conditions)
      | Some (visit, recommender) \<Rightarrow>
          if \<not> Available recommender then
            (None, setCondition now ''Recommended'' ''False'' ''NoMetrics'' no_metrics_message conditions)
          else (case Recommend visit recommender now (dv_Namespaces (dv_Status division)) current of
             Inl err \<Rightarrow>
               (let reason = ''MetricsUnavailable'';
                    reason = (if err_no_usage err then ''NoUsage'' else reason);
                    reason = (if err_unavailable err then ''NoMetrics'' else reason)
                in (None, setCondition now ''Recommended'' ''False'' reason (err_text err) conditions))
           | Inr r \<Rightarrow>
               (Some (toAPIRecommendation deps r current),
                setCondition now ''Recommended'' ''True'' ''Observed'' (rr_Basis r) conditions)))"

definition preflight ::
  "RequestDeps \<Rightarrow> time \<Rightarrow> QuotaRequest \<Rightarrow> Division \<Rightarrow> Condition list \<Rightarrow> PreflightResult option \<times> Condition list" where
  "preflight deps now request division conditions =
     (case rd_preflight deps of
        None \<Rightarrow> (None, setCondition now ''Preflight'' ''False'' ''NotEvaluated'' ''no capacity source is configured'' conditions)
      | Some view \<Rightarrow>
          (case Evaluate view now (om_Name (dv_Meta division)) (quotaOf (qr_Target (qr_Spec request))) of
             Inl err \<Rightarrow> (None, setCondition now ''Preflight'' ''False'' ''Failed'' err conditions)
           | Inr result \<Rightarrow>
               (Some result,
                if Admitted result
                then setCondition now ''Preflight'' ''True'' ''Admitted'' ''the target fits the cluster'' conditions
                else setCondition now ''Preflight'' ''False'' ''Blocked'' (firstBlocking result) conditions)))"

definition committed_all :: "RequestDeps \<Rightarrow> string + RCompute" where
  "committed_all deps =
     (case rd_divisions deps of
        Inl err \<Rightarrow> Inl (''list divisions: '' @ error_text err)
      | Inr items \<Rightarrow> Inr (fold (\<lambda>item tot. add_compute tot (rc_CPUMillicores (quotaOf (dv_Quota (dv_Spec item))))
                                   (rc_MemoryBytes (quotaOf (dv_Quota (dv_Spec item))))) items zero_rcompute))"

definition to_simulate :: "RCompute \<Rightarrow> Compute" where
  "to_simulate c = \<lparr>CPUMillicores = rc_CPUMillicores c, MemoryBytes = rc_MemoryBytes c\<rparr>"

definition simulate ::
  "RequestDeps \<Rightarrow> time \<Rightarrow> QuotaRequest \<Rightarrow> Division \<Rightarrow> RCompute \<Rightarrow> Condition list \<Rightarrow> Simulation option \<times> Condition list" where
  "simulate deps now request division current conditions =
     (case rd_simulator deps of
        None \<Rightarrow> (None, setCondition now ''Simulated'' ''False'' ''NotSimulated''
                        ''no cluster snapshot is available to simulate against'' conditions)
      | Some (sort_cpu, view) \<Rightarrow>
          (case committed_all deps of
             Inl err \<Rightarrow> (None, setCondition now ''Simulated'' ''False'' ''Failed'' err conditions)
           | Inr tot \<Rightarrow>
               (case impact_of sort_cpu now view (dv_Namespaces (dv_Status division)) (to_simulate current)
                       (to_simulate (quotaOf (qr_Target (qr_Spec request)))) (to_simulate tot) of
                  Inl err \<Rightarrow> (None, setCondition now ''Simulated'' ''False'' ''Failed'' err conditions)
                | Inr impact \<Rightarrow>
                    (Some (toAPISimulation impact),
                     if Schedulable impact
                     then setCondition now ''Simulated'' ''True'' ''Fits'' (Verdict impact) conditions
                     else setCondition now ''Simulated'' ''False'' ''WouldNotFit'' (Verdict impact) conditions))))"

section \<open>Reconcile\<close>

fun same_conditions :: "Condition list \<Rightarrow> Condition list \<Rightarrow> bool" where
  "same_conditions [] [] = True"
| "same_conditions (a # as) (b # bs) =
     (cond_Type a = cond_Type b \<and> cond_Status a = cond_Status b \<and> cond_Reason a = cond_Reason b \<and>
      cond_Message a = cond_Message b \<and> same_conditions as bs)"
| "same_conditions _ _ = False"

definition equalRequestStatus :: "QuotaRequestStatus \<Rightarrow> QuotaRequestStatus \<Rightarrow> bool" where
  "equalRequestStatus current next_one \<longleftrightarrow>
     qr_Phase current = qr_Phase next_one \<and> qr_EvidenceDigest current = qr_EvidenceDigest next_one \<and>
     qr_DecisionRef current = qr_DecisionRef next_one \<and>
     qr_ObservedGeneration current = qr_ObservedGeneration next_one \<and>
     same_conditions (qr_Conditions current) (qr_Conditions next_one)"

definition request_writeStatus ::
  "RequestDeps \<Rightarrow> QuotaRequest \<Rightarrow> QuotaRequestStatus \<Rightarrow> QuotaRequestStatus option \<times> string option" where
  "request_writeStatus deps request status =
     (if equalRequestStatus (qr_Status request) status then (None, None)
      else case rd_update deps status of
        None \<Rightarrow> (Some status, None)
      | Some err \<Rightarrow> (None, Some (''update status of request '' @ om_Namespace (qr_Meta request) @ ''/'' @
                                om_Name (qr_Meta request) @ '': '' @ error_text err)))"

definition request_finish ::
  "RequestDeps \<Rightarrow> QuotaRequest \<Rightarrow> QuotaRequestStatus \<Rightarrow> duration \<Rightarrow> QuotaRequestStatus option \<times> (string + duration)" where
  "request_finish deps request status delay =
     (case request_writeStatus deps request status of
        (written, None) \<Rightarrow> (written, Inr delay)
      | (written, Some err) \<Rightarrow> (written, Inl err))"

text \<open>The status with all evidence gathered, except its digest.\<close>

definition gathered :: "RequestDeps \<Rightarrow> time \<Rightarrow> QuotaRequest \<Rightarrow> Division \<Rightarrow> QuotaRequestStatus \<Rightarrow> QuotaRequestStatus" where
  "gathered deps now request division status =
     (let current = quotaOf (dv_Quota (dv_Spec division));
          (r, conditions) = recommend deps now division current (qr_Conditions status);
          (p, conditions) = preflight deps now request division conditions;
          (s, conditions) = simulate deps now request division current conditions
      in status\<lparr>qr_Recommendation := r, qr_Preflight := p, qr_Simulation := s, qr_Conditions := conditions,
                qr_Phase := RequestAwaitingDecision\<rparr>)"

definition request_Reconcile ::
  "RequestDeps \<Rightarrow> time \<Rightarrow> (api_error + QuotaRequest) \<Rightarrow> (api_error + Division) \<Rightarrow>
   QuotaRequestStatus option \<times> (string + duration)" where
  "request_Reconcile deps now got_request got_division =
     (case got_request of
        Inl err \<Rightarrow> (None, if is_not_found err then Inr 0 else Inl (error_text err))
      | Inr request \<Rightarrow>
     (if om_DeletionTimestamp (qr_Meta request) \<noteq> None then (None, Inr 0)
      else let status = (qr_Status request)\<lparr>qr_ObservedGeneration := om_Generation (qr_Meta request)\<rparr> in
      if qr_Withdrawn (qr_Spec request)
      then request_finish deps request (status\<lparr>qr_Phase := RequestWithdrawn\<rparr>) 0
      else if \<not> Open request then (None, Inr 0)
      else (case got_division of
        Inl err \<Rightarrow>
          if is_not_found err
          then request_finish deps request
                 (status\<lparr>qr_Phase := RequestPending,
                         qr_Conditions := setCondition now ''Recommended'' ''False'' ''DivisionMissing''
                           (''division '' @ qr_Division (qr_Spec request) @ '' does not exist'') (qr_Conditions status)\<rparr>) 0
          else (None, Inl (error_text err))
      | Inr division \<Rightarrow>
          (let status = gathered deps now request division status
           in case EvidenceDigest deps (qr_Recommendation status) (qr_Preflight status) (qr_Simulation status) of
                Inl err \<Rightarrow> (None, Inl err)
              | Inr digest \<Rightarrow>
                  request_finish deps request (status\<lparr>qr_EvidenceDigest := digest\<rparr>) (10 * minute)))))"

section \<open>Lemmas\<close>

lemma request_finish_written:
  "request_finish deps request status delay = (Some st, r) \<Longrightarrow> st = status \<and> r = Inr delay"
  by (auto simp: request_finish_def request_writeStatus_def split: if_splits option.splits)

lemma recommend_condition:
  assumes "recommend deps now division current cs = (r, cs')"
  shows "has_condition ''Recommended'' ''True'' ''Observed'' cs' \<longleftrightarrow> r \<noteq> None"
    and "t \<noteq> ''Recommended'' \<Longrightarrow> has_condition t a b cs' = has_condition t a b cs"
  using assms by (auto simp: recommend_def Let_def split: option.splits prod.splits if_splits sum.splits)

lemma preflight_condition:
  assumes "preflight deps now request division cs = (p, cs')"
  shows "has_condition ''Preflight'' ''True'' ''Admitted'' cs' \<longleftrightarrow> (\<exists>x. p = Some x \<and> Admitted x)"
    and "t \<noteq> ''Preflight'' \<Longrightarrow> has_condition t a b cs' = has_condition t a b cs"
  using assms by (auto simp: preflight_def split: option.splits if_splits sum.splits)

lemma simulate_condition:
  assumes "simulate deps now request division current cs = (s, cs')"
  shows "has_condition ''Simulated'' ''True'' ''Fits'' cs' \<longleftrightarrow> (\<exists>x. s = Some x \<and> sim_Schedulable x)"
    and "t \<noteq> ''Simulated'' \<Longrightarrow> has_condition t a b cs' = has_condition t a b cs"
  using assms by (auto simp: simulate_def toAPISimulation_def split: option.splits if_splits sum.splits prod.splits)

lemma gathered_conditions:
  fixes deps now request division status
  defines "st \<equiv> gathered deps now request division status"
  shows "has_condition ''Recommended'' ''True'' ''Observed'' (qr_Conditions st) \<longleftrightarrow> qr_Recommendation st \<noteq> None"
    and "has_condition ''Preflight'' ''True'' ''Admitted'' (qr_Conditions st) \<longleftrightarrow>
           (\<exists>p. qr_Preflight st = Some p \<and> Admitted p)"
    and "has_condition ''Simulated'' ''True'' ''Fits'' (qr_Conditions st) \<longleftrightarrow>
           (\<exists>s. qr_Simulation st = Some s \<and> sim_Schedulable s)"
    and "qr_Phase st = RequestAwaitingDecision" and "qr_DecisionRef st = qr_DecisionRef status"
proof -
  let ?current = "quotaOf (dv_Quota (dv_Spec division))"
  obtain r c1 where r: "recommend deps now division ?current (qr_Conditions status) = (r, c1)"
    by fastforce
  obtain p c2 where p: "preflight deps now request division c1 = (p, c2)"
    by fastforce
  obtain s c3 where s: "simulate deps now request division ?current c2 = (s, c3)"
    by fastforce
  note facts = recommend_condition [OF r] preflight_condition [OF p] simulate_condition [OF s]
  have st: "st = status\<lparr>qr_Recommendation := r, qr_Preflight := p, qr_Simulation := s, qr_Conditions := c3,
                qr_Phase := RequestAwaitingDecision\<rparr>"
    by (simp add: st_def gathered_def Let_def r p s)
  show "has_condition ''Recommended'' ''True'' ''Observed'' (qr_Conditions st) \<longleftrightarrow> qr_Recommendation st \<noteq> None"
    by (simp add: st facts)
  show "has_condition ''Preflight'' ''True'' ''Admitted'' (qr_Conditions st) \<longleftrightarrow>
           (\<exists>p. qr_Preflight st = Some p \<and> Admitted p)"
    by (simp add: st facts)
  show "has_condition ''Simulated'' ''True'' ''Fits'' (qr_Conditions st) \<longleftrightarrow>
           (\<exists>s. qr_Simulation st = Some s \<and> sim_Schedulable s)"
    by (simp add: st facts)
  show "qr_Phase st = RequestAwaitingDecision" "qr_DecisionRef st = qr_DecisionRef status"
    by (simp_all add: st)
qed

text \<open>Where a written status comes from.\<close>

lemma Reconcile_written:
  assumes "request_Reconcile deps now (Inr request) got = (Some st, r)"
  obtains (withdrawn) "qr_Withdrawn (qr_Spec request)" "qr_Phase st = RequestWithdrawn"
      "qr_DecisionRef st = qr_DecisionRef (qr_Status request)"
    | (missing) err where "\<not> qr_Withdrawn (qr_Spec request)" "Open request" "got = Inl err" "qr_Phase st = RequestPending"
        "qr_DecisionRef st = qr_DecisionRef (qr_Status request)"
    | (awaiting) division status where "\<not> qr_Withdrawn (qr_Spec request)" "Open request" "got = Inr division"
        "status = gathered deps now request division
           ((qr_Status request)\<lparr>qr_ObservedGeneration := om_Generation (qr_Meta request)\<rparr>)"
        "EvidenceDigest deps (qr_Recommendation status) (qr_Preflight status) (qr_Simulation status) =
           Inr (qr_EvidenceDigest st)"
        "st = status\<lparr>qr_EvidenceDigest := qr_EvidenceDigest st\<rparr>" "r = Inr (10 * minute)"
proof (cases "qr_Withdrawn (qr_Spec request)")
  case True
  with assms withdrawn show ?thesis
    by (auto simp: request_Reconcile_def Let_def split: if_splits dest!: request_finish_written)
next
  case open_one: False
  show ?thesis
  proof (cases got)
    case (Inl err)
    with assms open_one missing show ?thesis
      by (auto simp: request_Reconcile_def Let_def split: if_splits dest!: request_finish_written)
  next
    case (Inr division)
    define status where "status = gathered deps now request division
           ((qr_Status request)\<lparr>qr_ObservedGeneration := om_Generation (qr_Meta request)\<rparr>)"
    from assms open_one Inr show ?thesis
      by (auto simp: request_Reconcile_def Let_def status_def [symmetric] split: if_splits sum.splits
          dest!: request_finish_written intro!: awaiting [OF open_one _ Inr status_def])
  qed
qed

text \<open>
  C16. A request recorded as awaiting a decision was open, carries the digest of exactly the
  evidence recorded with it, and its conditions say what that evidence says: Recommended is true
  with the reason Observed if and only if a recommendation is recorded, Preflight is true if and
  only if the recorded preflight admits the target, and Simulated is true if and only if the
  recorded simulation schedules every pod. It is looked at again after ten minutes.
\<close>
theorem awaiting_request_carries_bound_evidence:
  assumes run: "request_Reconcile deps now (Inr request) got = (Some st, r)"
    and phase: "qr_Phase st = RequestAwaitingDecision"
  shows "Open request \<and> r = Inr (10 * minute) \<and>
    EvidenceDigest deps (qr_Recommendation st) (qr_Preflight st) (qr_Simulation st) = Inr (qr_EvidenceDigest st) \<and>
    has_condition ''Recommended'' ''True'' ''Observed'' (qr_Conditions st) = (qr_Recommendation st \<noteq> None) \<and>
    has_condition ''Preflight'' ''True'' ''Admitted'' (qr_Conditions st) =
      (\<exists>p. qr_Preflight st = Some p \<and> Admitted p) \<and>
    has_condition ''Simulated'' ''True'' ''Fits'' (qr_Conditions st) =
      (\<exists>s. qr_Simulation st = Some s \<and> sim_Schedulable s)"
  using run
proof (cases rule: Reconcile_written)
  case (awaiting division status)
  have st: "qr_Recommendation st = qr_Recommendation status" "qr_Preflight st = qr_Preflight status"
    "qr_Simulation st = qr_Simulation status" "qr_Conditions st = qr_Conditions status"
    by (subst awaiting(6), simp)+
  show ?thesis
    unfolding st using awaiting(2,5,7) gathered_conditions(1-3) [of deps now request division] awaiting(4) by simp
qed (use phase in simp_all)

text \<open>
  The controller moves a request's phase in three ways only: to Withdrawn when its
  specification says so, whatever phase it had; and for an open request that is not withdrawn to
  Pending or to AwaitingDecision, which includes a request that was sent back for changes. A
  decided request that is not withdrawn is never written, and the reference to a decision is
  never touched.
\<close>
theorem request_phase_moves:
  assumes "request_Reconcile deps now (Inr request) got = (w, r)"
  shows "(case w of
       None \<Rightarrow> True
     | Some st \<Rightarrow>
         qr_DecisionRef st = qr_DecisionRef (qr_Status request) \<and>
         (if qr_Withdrawn (qr_Spec request) then qr_Phase st = RequestWithdrawn
          else Open request \<and> (qr_Phase st = RequestPending \<or> qr_Phase st = RequestAwaitingDecision))) \<and>
    (\<not> Open request \<and> \<not> qr_Withdrawn (qr_Spec request) \<longrightarrow> w = None \<and> r = Inr 0)"
proof
  show "case w of
       None \<Rightarrow> True
     | Some st \<Rightarrow>
         qr_DecisionRef st = qr_DecisionRef (qr_Status request) \<and>
         (if qr_Withdrawn (qr_Spec request) then qr_Phase st = RequestWithdrawn
          else Open request \<and> (qr_Phase st = RequestPending \<or> qr_Phase st = RequestAwaitingDecision))"
  proof (cases w)
    case (Some st)
    with assms have "request_Reconcile deps now (Inr request) got = (Some st, r)"
      by simp
    then have "qr_DecisionRef st = qr_DecisionRef (qr_Status request) \<and>
         (if qr_Withdrawn (qr_Spec request) then qr_Phase st = RequestWithdrawn
          else Open request \<and> (qr_Phase st = RequestPending \<or> qr_Phase st = RequestAwaitingDecision))"
    proof (cases rule: Reconcile_written)
      case (awaiting division status)
      have "qr_Phase st = qr_Phase status" "qr_DecisionRef st = qr_DecisionRef status"
        by (subst awaiting(6), simp)+
      then show ?thesis
        using awaiting(1,2) gathered_conditions(4,5) [of deps now request division] awaiting(4) by simp
    qed simp_all
    with Some show ?thesis
      by simp
  qed simp
  show "\<not> Open request \<and> \<not> qr_Withdrawn (qr_Spec request) \<longrightarrow> w = None \<and> r = Inr 0"
    using assms by (auto simp: request_Reconcile_def Let_def split: if_splits)
qed

section \<open>A request with a preflight and nothing else\<close>

text \<open>A marshaller that keeps only the second at which the preflight was made.\<close>

definition unary :: "int \<Rightarrow> string" where
  "unary i = (if i < 0 then ''-'' else []) @ replicate (nat \<bar>i\<bar>) CHR ''i''"

definition unary_marshal ::
  "Recommendation option \<Rightarrow> PreflightResult option \<Rightarrow> Simulation option \<Rightarrow> string + string" where
  "unary_marshal r p s =
     Inr (case Option.bind p EvaluatedAt of None \<Rightarrow> ''n'' | Some t \<Rightarrow> unary (t div second))"

definition example_request_deps :: RequestDeps where
  "example_request_deps =
     \<lparr>rd_recommender = None, rd_preflight = Some example_preflight_view, rd_simulator = None,
      rd_divisions = Inr [], rd_update = (\<lambda>_. None), rd_marshal = unary_marshal, rd_sha256 = id,
      rd_new_milli = (\<lambda>n. zero_quantity\<lparr>MilliValue := n\<rparr>), rd_new_quantity = (\<lambda>n. zero_quantity\<lparr>Value := n\<rparr>)\<rparr>"

definition example_request :: "RequestPhase \<Rightarrow> QuotaRequest" where
  "example_request phase =
     \<lparr>qr_Meta = \<lparr>om_Name = ''quota-1'', om_Namespace = ''team-dev'', om_UID = ''r1'', om_Generation = 1,
        om_CreationTimestamp = 5, om_DeletionTimestamp = None\<rparr>,
      qr_Spec = \<lparr>qr_Division = ''team'', qr_Target = zero_quota, qr_Reason = ''more load'',
        qr_RequestedBy = ''ada'', qr_IdempotencyKey = [], qr_Withdrawn = False\<rparr>,
      qr_Status = \<lparr>qr_Phase = phase, qr_Recommendation = None, qr_Preflight = None, qr_Simulation = None,
        qr_DecisionRef = [], qr_EvidenceDigest = [], qr_ObservedGeneration = 0, qr_Conditions = []\<rparr>\<rparr>"

lemma unary_inject: "unary i = unary j \<Longrightarrow> i = j"
  by (cases "nat \<bar>i\<bar>"; cases "nat \<bar>j\<bar>") (auto simp: unary_def split: if_splits)

lemma unary_not_n: "unary i \<noteq> ''n''"
  by (cases "nat \<bar>i\<bar>") (auto simp: unary_def)

lemma preflight_some:
  assumes "preflight deps now request division cs = (Some p, cs')"
  shows "EvaluatedAt p = Some now \<and>
         (\<exists>p' cs2'. preflight deps later request2 division cs2 = (Some p', cs2') \<and> EvaluatedAt p' = Some later)"
proof -
  obtain view where view: "rd_preflight deps = Some view"
    using assms by (auto simp: preflight_def split: option.splits)
  obtain alloc tot current where a: "allocatable view = Inr alloc"
    and b: "committed view (om_Name (dv_Meta division)) = Inr (tot, current)"
    using assms view by (auto simp: preflight_def Evaluate_def split: sum.splits)
  show ?thesis
    using assms view a b by (auto simp: preflight_def Evaluate_def Let_def)
qed

lemma gathered_preflight:
  assumes "qr_Preflight (gathered deps now request division status) = Some p"
  shows "EvaluatedAt p = Some now \<and>
    (\<exists>p'. qr_Preflight (gathered deps later request2 division status2) = Some p' \<and> EvaluatedAt p' = Some later)"
proof -
  let ?current = "quotaOf (dv_Quota (dv_Spec division))"
  have shape: "\<exists>c1 c2. preflight deps t q division c1 = (qr_Preflight (gathered deps t q division st), c2)" for t q st
    by (auto simp: gathered_def Let_def split: prod.splits)
  from shape [of now request status] assms
  obtain c1 c2 where pre: "preflight deps now request division c1 = (Some p, c2)"
    by auto
  obtain c3 c4 where "preflight deps later request2 division c3 = (qr_Preflight (gathered deps later request2 division status2), c4)"
    using shape by blast
  with preflight_some [OF pre, of later request2 c3] show ?thesis
    by auto
qed

text \<open>
  The digest follows the clock and not only the cluster: if digests of preflights made in
  different seconds differ, then looking again at a request that awaits its decision, in another
  second and with the same answers from the cluster, writes its status again with a different
  digest. So the digest that an approver has read is stale as soon as the controller has looked
  again.
\<close>
theorem digest_changes_with_the_clock:
  assumes first: "request_Reconcile deps now (Inr request) (Inr division) = (Some st, r)"
    and st: "qr_Phase st = RequestAwaitingDecision" "qr_Preflight st \<noteq> None"
    and later: "later div second \<noteq> now div second"
    and separates: "\<forall>r p s r' p' s' d d'. EvidenceDigest deps r (Some p) s = Inr d \<and>
        EvidenceDigest deps r' (Some p') s' = Inr d' \<and>
        map_option (\<lambda>t. t div second) (EvaluatedAt p) \<noteq> map_option (\<lambda>t. t div second) (EvaluatedAt p') \<longrightarrow> d \<noteq> d'"
    and ok: "\<forall>r p s. \<exists>d. EvidenceDigest deps r p s = Inr d" "\<forall>s. rd_update deps s = None"
  shows "\<exists>st2. request_Reconcile deps later (Inr (request\<lparr>qr_Status := st\<rparr>)) (Inr division) = (Some st2, Inr (10 * minute)) \<and>
    qr_EvidenceDigest st2 \<noteq> qr_EvidenceDigest st"
  using first
proof (cases rule: Reconcile_written)
  case (awaiting division' status)
  let ?request = "request\<lparr>qr_Status := st\<rparr>"
  let ?status2 = "gathered deps later ?request division (st\<lparr>qr_ObservedGeneration := om_Generation (qr_Meta request)\<rparr>)"
  have same: "division' = division"
    using awaiting(3) by simp
  have pre: "qr_Preflight st = qr_Preflight status"
    by (subst awaiting(6), simp)
  obtain p where p: "qr_Preflight status = Some p"
    using st(2) pre by auto
  then have at: "EvaluatedAt p = Some now"
    using gathered_preflight awaiting(4) same by blast
  obtain p' where p': "qr_Preflight ?status2 = Some p'" "EvaluatedAt p' = Some later"
    using gathered_preflight [of deps now request division _ p later ?request] p awaiting(4) same by blast
  obtain d where d: "EvidenceDigest deps (qr_Recommendation ?status2) (qr_Preflight ?status2) (qr_Simulation ?status2) = Inr d"
    using ok(1) by blast
  have neq: "d \<noteq> qr_EvidenceDigest st"
  proof -
    have "map_option (\<lambda>t. t div second) (EvaluatedAt p') \<noteq> map_option (\<lambda>t. t div second) (EvaluatedAt p)"
      using later by (simp add: at p'(2))
    then show ?thesis
      using separates d [unfolded p'(1)] awaiting(5) [unfolded p] by blast
  qed
  have alive: "om_DeletionTimestamp (qr_Meta request) = None"
    using first by (auto simp: request_Reconcile_def split: if_splits)
  have open_one: "Open ?request" "\<not> qr_Withdrawn (qr_Spec ?request)"
    using awaiting(1) st(1) by (simp_all add: Open.simps)
  have "\<not> equalRequestStatus st (?status2\<lparr>qr_EvidenceDigest := d\<rparr>)"
    using neq by (auto simp: equalRequestStatus_def)
  then have "request_finish deps ?request (?status2\<lparr>qr_EvidenceDigest := d\<rparr>) (10 * minute) =
      (Some (?status2\<lparr>qr_EvidenceDigest := d\<rparr>), Inr (10 * minute))"
    using ok(2) by (simp add: request_finish_def request_writeStatus_def)
  then show ?thesis
    using alive open_one d neq by (simp add: request_Reconcile_def Let_def)
qed (use st in simp_all)

lemma example_digest: "EvidenceDigest example_request_deps r p s =
    Inr (hex_encode (case Option.bind p EvaluatedAt of None \<Rightarrow> ''n'' | Some t \<Rightarrow> unary (t div second)))"
  by (simp add: EvidenceDigest_def example_request_deps_def unary_marshal_def)

lemma example_reconcile:
  "\<exists>st. request_Reconcile example_request_deps now (Inr (example_request RequestPending)) (Inr example_division) =
      (Some st, Inr (10 * minute)) \<and> qr_Phase st = RequestAwaitingDecision \<and> qr_Preflight st \<noteq> None"
proof -
  let ?q = "example_request RequestPending"
  let ?s = "gathered example_request_deps now ?q example_division
              ((qr_Status ?q)\<lparr>qr_ObservedGeneration := om_Generation (qr_Meta ?q)\<rparr>)"
  obtain a where a: "allocatable example_preflight_view = Inr a"
    by (auto simp: allocatable_def example_preflight_view_def)
  obtain t u where b: "committed example_preflight_view (om_Name (dv_Meta example_division)) = Inr (t, u)"
    by (auto simp: committed_def example_preflight_view_def Let_def split: prod.splits)
  have "qr_Preflight ?s \<noteq> None"
    by (auto simp: gathered_def preflight_def Let_def example_request_deps_def Evaluate_def a b split: prod.splits)
  moreover have "qr_Phase ?s = RequestAwaitingDecision"
    by (rule gathered_conditions(4))
  moreover have "\<not> equalRequestStatus (qr_Status ?q) (?s\<lparr>qr_EvidenceDigest := d\<rparr>)" for d
    using gathered_conditions(4) by (auto simp: equalRequestStatus_def example_request_def)
  moreover have "rd_update example_request_deps x = None" for x
    by (simp add: example_request_deps_def)
  ultimately show ?thesis
    by (simp add: request_Reconcile_def Let_def example_digest request_finish_def request_writeStatus_def)
      (simp add: example_request_def Open.simps)
qed

theorem awaiting_request_carries_bound_evidence_witness:
  "\<exists>st. request_Reconcile example_request_deps 7 (Inr (example_request RequestPending)) (Inr example_division) =
      (Some st, Inr (10 * minute)) \<and>
    has_condition ''Preflight'' ''True'' ''Admitted'' (qr_Conditions st) = (\<exists>p. qr_Preflight st = Some p \<and> Admitted p)"
proof -
  obtain st where st: "request_Reconcile example_request_deps 7 (Inr (example_request RequestPending)) (Inr example_division) =
      (Some st, Inr (10 * minute))" "qr_Phase st = RequestAwaitingDecision"
    using example_reconcile [of 7] by blast
  then show ?thesis
    using awaiting_request_carries_bound_evidence [OF st] by blast
qed

theorem request_phase_moves_witness:
  "request_Reconcile example_request_deps 7 (Inr (example_request RequestApplied)) (Inr example_division) = (None, Inr 0)"
proof -
  obtain w r where run: "request_Reconcile example_request_deps 7 (Inr (example_request RequestApplied))
      (Inr example_division) = (w, r)"
    by fastforce
  moreover have "\<not> Open (example_request RequestApplied)" "\<not> qr_Withdrawn (qr_Spec (example_request RequestApplied))"
    by (simp_all add: example_request_def Open.simps)
  ultimately show ?thesis
    using request_phase_moves [OF run] by blast
qed

theorem digest_changes_with_the_clock_witness:
  "\<exists>st st2. request_Reconcile example_request_deps 7 (Inr (example_request RequestPending)) (Inr example_division) =
      (Some st, Inr (10 * minute)) \<and>
    request_Reconcile example_request_deps (2 * second) (Inr ((example_request RequestPending)\<lparr>qr_Status := st\<rparr>))
      (Inr example_division) = (Some st2, Inr (10 * minute)) \<and> qr_EvidenceDigest st2 \<noteq> qr_EvidenceDigest st"
proof -
  obtain st where st: "request_Reconcile example_request_deps 7 (Inr (example_request RequestPending)) (Inr example_division) =
      (Some st, Inr (10 * minute))" "qr_Phase st = RequestAwaitingDecision" "qr_Preflight st \<noteq> None"
    using example_reconcile [of 7] by blast
  have "2 * second div second \<noteq> 7 div second"
    by (simp add: second_def)
  moreover have "\<forall>r p s r' p' s' d d'. EvidenceDigest example_request_deps r (Some p) s = Inr d \<and>
        EvidenceDigest example_request_deps r' (Some p') s' = Inr d' \<and>
        map_option (\<lambda>t. t div second) (EvaluatedAt p) \<noteq> map_option (\<lambda>t. t div second) (EvaluatedAt p') \<longrightarrow> d \<noteq> d'"
    by (auto simp: example_digest unary_not_n unary_not_n [symmetric] dest: unary_inject split: option.splits)
  moreover have "\<forall>r p s. \<exists>d. EvidenceDigest example_request_deps r p s = Inr d"
    by (simp add: example_digest)
  moreover have "\<forall>s. rd_update example_request_deps s = None"
    by (simp add: example_request_deps_def)
  ultimately show ?thesis
    using digest_changes_with_the_clock [OF st] st(1) by blast
qed

end
