(* ===== verification/DecisionController.thy ===== *)
theory DecisionController
  imports Conditions Duration
begin

text \<open>
  The controller of decisions, internal/requests/controller.go: carry the outcome of a decision
  into the request, apply an approved quota to the division, and notice when the grant lapses.
  A call of Reconcile is a function of what the client answers and of one reading of the clock;
  it returns the writes that succeeded, in order, and an error or the delay until the next look
  (0: none).
\<close>

datatype DecisionCall =
    UpdateRequest QuotaRequestStatus
  | PatchQuota string Quota
  | UpdateDecision DecisionStatus

record DecisionDeps =
  dd_division :: "string \<Rightarrow> api_error + Division"
  dd_patch_error :: "api_error option"
  dd_request_error :: "api_error option"
  dd_decision_error :: "api_error option"

definition setRequestPhase ::
  "DecisionDeps \<Rightarrow> time \<Rightarrow> QuotaRequest \<Rightarrow> RequestPhase \<Rightarrow> string \<Rightarrow> DecisionCall list \<times> string option" where
  "setRequestPhase deps now request phase decisionName =
     (if qr_Phase (qr_Status request) = phase \<and> qr_DecisionRef (qr_Status request) = decisionName then ([], None)
      else case dd_request_error deps of
        Some err \<Rightarrow> ([], Some (''update status of request '' @ om_Namespace (qr_Meta request) @ ''/'' @
                             om_Name (qr_Meta request) @ '': '' @ error_text err))
      | None \<Rightarrow>
          ([UpdateRequest ((qr_Status request)
              \<lparr>qr_Phase := phase, qr_DecisionRef := decisionName,
               qr_Conditions := setCondition now ''Decided'' ''True'' (phase_text phase)
                 (''decision '' @ decisionName) (qr_Conditions (qr_Status request))\<rparr>)], None))"

definition applyQuota :: "DecisionDeps \<Rightarrow> QuotaRequest \<Rightarrow> DecisionCall list \<times> string option" where
  "applyQuota deps request =
     (case dd_division deps (qr_Division (qr_Spec request)) of
        Inl err \<Rightarrow> ([], Some (''read division '' @ qr_Division (qr_Spec request) @ '': '' @ error_text err))
      | Inr division \<Rightarrow>
          (case dd_patch_error deps of
             Some err \<Rightarrow> ([], Some (''apply the approved quota to '' @ om_Name (dv_Meta division) @ '': '' @ error_text err))
           | None \<Rightarrow> ([PatchQuota (om_Name (dv_Meta division)) (qr_Target (qr_Spec request))], None)))"

definition decision_writeStatus ::
  "DecisionDeps \<Rightarrow> Decision \<Rightarrow> DecisionStatus \<Rightarrow> DecisionCall list \<times> string option" where
  "decision_writeStatus deps decision status =
     (let old = dc_Status decision in
      if dc_Applied old = dc_Applied status \<and> dc_Expired old = dc_Expired status \<and>
         dc_Message old = dc_Message status \<and> dc_ObservedGeneration old = dc_ObservedGeneration status
      then ([], None)
      else case dd_decision_error deps of
        Some err \<Rightarrow> ([], Some (''update status of decision '' @ om_Name (dc_Meta decision) @ '': '' @ error_text err))
      | None \<Rightarrow> ([UpdateDecision status], None))"

definition nextCheck :: "Decision \<Rightarrow> time \<Rightarrow> duration" where
  "nextCheck decision now =
     (if dc_Outcome (dc_Spec decision) \<noteq> OutcomeApproved then 0
      else case dc_GrantedUntil (dc_Spec decision) of
        None \<Rightarrow> 0
      | Some until \<Rightarrow>
          (let remaining = time_sub until now
           in if remaining \<le> 0 then 0 else if remaining > hour then hour else remaining))"

text \<open>
  The switch on the outcome: the writes it makes, an error, and the status of the decision that
  is to be recorded. A lapsed grant leaves the switch early.
\<close>

definition carry_out ::
  "DecisionDeps \<Rightarrow> time \<Rightarrow> Decision \<Rightarrow> QuotaRequest \<Rightarrow> DecisionStatus \<Rightarrow>
   DecisionCall list \<times> string option \<times> DecisionStatus" where
  "carry_out deps now decision request status =
     (let name = om_Name (dc_Meta decision) in
      case dc_Outcome (dc_Spec decision) of
        OutcomeRejected \<Rightarrow>
          (case setRequestPhase deps now request RequestRejected name of
             (calls, err) \<Rightarrow> (calls, err, status\<lparr>dc_Message := ''the request was rejected''\<rparr>))
      | OutcomeChangesRequested \<Rightarrow>
          (case setRequestPhase deps now request RequestChangesRequested name of
             (calls, err) \<Rightarrow> (calls, err, status\<lparr>dc_Message := ''the requester was asked for changes''\<rparr>))
      | OutcomeApproved \<Rightarrow>
          if Lapsed decision now then
            (case setRequestPhase deps now request RequestExpired name of
               (calls, err) \<Rightarrow> (calls, err,
                 status\<lparr>dc_Expired := True, dc_Message := ''the grant lapsed and is due for review''\<rparr>))
          else if \<not> dc_Applied status then
            (case applyQuota deps request of
               (calls, Some err) \<Rightarrow> (calls, Some err, status)
             | (calls, None) \<Rightarrow>
                 (let status = status\<lparr>dc_Applied := True, dc_AppliedAt := Some now,
                        dc_Message := ''the quota of '' @ qr_Division (qr_Spec request) @ '' now matches the request''\<rparr>
                  in case setRequestPhase deps now request RequestApplied name of
                       (rest, err) \<Rightarrow> (calls @ rest, err, status)))
          else
            (case setRequestPhase deps now request RequestApplied name of
               (calls, err) \<Rightarrow> (calls, err, status)))"

definition observed_status :: "Decision \<Rightarrow> DecisionStatus" where
  "observed_status decision = (dc_Status decision)\<lparr>dc_ObservedGeneration := om_Generation (dc_Meta decision)\<rparr>"

definition decision_Reconcile ::
  "DecisionDeps \<Rightarrow> time \<Rightarrow> (api_error + Decision) \<Rightarrow> (api_error + QuotaRequest) \<Rightarrow>
   DecisionCall list \<times> (string + duration)" where
  "decision_Reconcile deps now got_decision got_request =
     (case got_decision of
        Inl err \<Rightarrow> ([], if is_not_found err then Inr 0 else Inl (error_text err))
      | Inr decision \<Rightarrow>
     (case got_request of
        Inl err \<Rightarrow> ([], if is_not_found err then Inr 0 else Inl (error_text err))
      | Inr request \<Rightarrow>
     (case carry_out deps now decision request (observed_status decision) of
        (calls, Some err, _) \<Rightarrow> (calls, Inl err)
      | (calls, None, status) \<Rightarrow>
          (case decision_writeStatus deps decision status of
             (rest, Some err) \<Rightarrow> (calls @ rest, Inl err)
           | (rest, None) \<Rightarrow> (calls @ rest, Inr (nextCheck decision now))))))"

section \<open>Lemmas\<close>

lemma setRequestPhase_no_patch: "setRequestPhase deps now request phase name = (calls, err) \<Longrightarrow> PatchQuota n q \<notin> set calls"
  by (auto simp: setRequestPhase_def split: if_splits option.splits)

lemma applyQuota_patch:
  "applyQuota deps request = (calls, err) \<Longrightarrow> PatchQuota n q \<in> set calls \<Longrightarrow>
     \<exists>division. dd_division deps (qr_Division (qr_Spec request)) = Inr division \<and>
        n = om_Name (dv_Meta division) \<and> q = qr_Target (qr_Spec request)"
  by (auto simp: applyQuota_def split: sum.splits option.splits)

lemma decision_writeStatus_calls:
  "decision_writeStatus deps decision status = (calls, err) \<Longrightarrow> call \<in> set calls \<Longrightarrow> call = UpdateDecision status"
  by (auto simp: decision_writeStatus_def Let_def split: if_splits option.splits)

lemma carry_out_patch:
  assumes "carry_out deps now decision request status = (calls, err, status')" and "PatchQuota n q \<in> set calls"
  shows "dc_Outcome (dc_Spec decision) = OutcomeApproved \<and> \<not> Lapsed decision now \<and> \<not> dc_Applied status \<and>
    (\<exists>division. dd_division deps (qr_Division (qr_Spec request)) = Inr division \<and>
       n = om_Name (dv_Meta division) \<and> q = qr_Target (qr_Spec request))"
proof -
  obtain c0 e0 c1 e1 where c: "applyQuota deps request = (c0, e0)"
    "setRequestPhase deps now request RequestApplied (om_Name (dc_Meta decision)) = (c1, e1)"
    by fastforce
  note no_patch = setRequestPhase_no_patch [where n = n and q = q]
  have "dc_Outcome (dc_Spec decision) = OutcomeApproved \<and> \<not> Lapsed decision now \<and> \<not> dc_Applied status \<and>
      PatchQuota n q \<in> set c0"
    using assms c no_patch [OF c(2)] unfolding carry_out_def Let_def
    by (auto split: Outcome.splits prod.splits option.splits if_splits dest: no_patch)
  then show ?thesis
    using applyQuota_patch [OF c(1)] by blast
qed

lemma time_sub_pos: "0 < time_sub t u \<longleftrightarrow> u < t"
  by (auto simp: time_sub_def min_i64_def max_i64_def)

lemma time_sub_le: "u \<le> t \<Longrightarrow> time_sub t u \<le> t - u"
  by (auto simp: time_sub_def min_i64_def)

definition example_decision :: "Outcome \<Rightarrow> time option \<Rightarrow> Decision" where
  "example_decision outcome until =
     \<lparr>dc_Meta = \<lparr>om_Name = ''decision-1'', om_Namespace = [], om_UID = ''d1'', om_Generation = 1,
        om_CreationTimestamp = 5, om_DeletionTimestamp = None\<rparr>,
      dc_Spec = \<lparr>dc_Request = \<lparr>ref_Kind = ''QuotaRequest'', rref_Name = ''quota-1'', rref_Namespace = ''team-dev'',
          ref_UID = ''r1''\<rparr>,
        dc_Outcome = outcome, dc_Reason = ''fine'',
        dc_Evidence = \<lparr>ev_Recommendation = None, ev_Preflight = None, ev_Simulation = None, ev_Digest = ''aa'',
          ev_CapturedAt = 6\<rparr>,
        dc_DecidedBy = ''bob'', dc_GrantedUntil = until, dc_RevokedReason = []\<rparr>,
      dc_Status = \<lparr>dc_Applied = False, dc_AppliedAt = None, dc_Expired = False, dc_Message = [],
        dc_ObservedGeneration = 0, dc_Conditions = []\<rparr>\<rparr>"

definition decided_request :: "RequestPhase \<Rightarrow> bool \<Rightarrow> QuotaRequest" where
  "decided_request phase withdrawn =
     \<lparr>qr_Meta = \<lparr>om_Name = ''quota-1'', om_Namespace = ''team-dev'', om_UID = ''r1'', om_Generation = 1,
        om_CreationTimestamp = 5, om_DeletionTimestamp = None\<rparr>,
      qr_Spec = \<lparr>qr_Division = ''team'', qr_Target = zero_quota, qr_Reason = ''more load'',
        qr_RequestedBy = ''ada'', qr_IdempotencyKey = [], qr_Withdrawn = withdrawn\<rparr>,
      qr_Status = \<lparr>qr_Phase = phase, qr_Recommendation = None, qr_Preflight = None, qr_Simulation = None,
        qr_DecisionRef = [], qr_EvidenceDigest = ''aa'', qr_ObservedGeneration = 0, qr_Conditions = []\<rparr>\<rparr>"

definition named_division :: "string \<Rightarrow> Division" where
  "named_division name =
     \<lparr>dv_Meta = \<lparr>om_Name = name, om_Namespace = [], om_UID = ''v1'', om_Generation = 1,
        om_CreationTimestamp = 5, om_DeletionTimestamp = None\<rparr>,
      dv_Spec = \<lparr>DisplayName = name, Environments = [''dev''], dv_Quota = zero_quota,
        dv_Limits = \<lparr>DefaultRequestCPU = zero_quantity, DefaultRequestMemory = zero_quantity,
          MaxCPUPerPod = zero_quantity, MaxMemoryPerPod = zero_quantity\<rparr>,
        Access = [], DefaultDeny = None, Suspended = False\<rparr>,
      dv_Status = \<lparr>dv_Phase = DivisionActive, dv_Namespaces = [name @ ''-dev''], QuotaBackend = [],
        dv_ObservedGeneration = 0, dv_Conditions = []\<rparr>\<rparr>"

definition example_decision_deps :: DecisionDeps where
  "example_decision_deps = \<lparr>dd_division = (\<lambda>name. Inr (named_division name)), dd_patch_error = None,
     dd_request_error = None, dd_decision_error = None\<rparr>"

text \<open>
  C2. The controller changes a quota only for an approved decision whose grant has not lapsed
  and that is not recorded as applied, in the division the request names, and to exactly the
  target of the request.
\<close>
theorem quota_is_patched_only_by_a_live_approval:
  assumes "decision_Reconcile deps now (Inr decision) (Inr request) = (calls, r)"
    and "PatchQuota n q \<in> set calls"
  shows "dc_Outcome (dc_Spec decision) = OutcomeApproved \<and> \<not> Lapsed decision now \<and>
    \<not> dc_Applied (dc_Status decision) \<and> q = qr_Target (qr_Spec request) \<and>
    (\<exists>division. dd_division deps (qr_Division (qr_Spec request)) = Inr division \<and> n = om_Name (dv_Meta division))"
proof -
  obtain calls1 err status where c: "carry_out deps now decision request (observed_status decision) = (calls1, err, status)"
    by (metis prod_cases3)
  have "PatchQuota n q \<in> set calls1"
    using assms c by (auto simp: decision_Reconcile_def split: option.splits prod.splits dest: decision_writeStatus_calls)
  from carry_out_patch [OF c this] show ?thesis
    by (auto simp: observed_status_def)
qed

theorem quota_is_patched_only_by_a_live_approval_witness:
  "\<exists>calls r. decision_Reconcile example_decision_deps 10 (Inr (example_decision OutcomeApproved (Some 20)))
      (Inr (decided_request RequestAwaitingDecision False)) = (calls, r) \<and>
    PatchQuota ''team'' zero_quota \<in> set calls \<and> \<not> Lapsed (example_decision OutcomeApproved (Some 20)) 10"
proof -
  let ?d = "example_decision OutcomeApproved (Some 20)" and ?q = "decided_request RequestAwaitingDecision False"
  obtain calls r where run: "decision_Reconcile example_decision_deps 10 (Inr ?d) (Inr ?q) = (calls, r)"
    by fastforce
  then have patch: "PatchQuota ''team'' zero_quota \<in> set calls"
    by (auto simp: decision_Reconcile_def carry_out_def Let_def applyQuota_def setRequestPhase_def
        example_decision_deps_def decision_writeStatus_def example_decision_def decided_request_def Lapsed_def
        named_division_def observed_status_def)
  from quota_is_patched_only_by_a_live_approval [OF run patch] run patch show ?thesis
    by blast
qed

text \<open>
  While a grant with an end runs, the next look comes within the hour and no later than its
  end; after its end it is seen as lapsed. At the very moment of its end neither holds: the
  grant is not yet lapsed and no further look is asked for.
\<close>
theorem grant_is_watched_until_it_ends:
  assumes "dc_Outcome (dc_Spec decision) = OutcomeApproved" and "dc_GrantedUntil (dc_Spec decision) = Some until"
  shows "Lapsed decision now = (until < now) \<and> (0 < nextCheck decision now) = (now < until) \<and>
    nextCheck decision now \<le> hour \<and> (now < until \<longrightarrow> now + nextCheck decision now \<le> until) \<and>
    (now = until \<longrightarrow> \<not> Lapsed decision now \<and> nextCheck decision now = 0)"
  using assms time_sub_pos [of until now] time_sub_le [of now until]
  by (auto simp: Lapsed_def nextCheck_def Let_def hour_def)

theorem grant_is_watched_until_it_ends_witness:
  "nextCheck (example_decision OutcomeApproved (Some 20)) 20 = 0 \<and> \<not> Lapsed (example_decision OutcomeApproved (Some 20)) 20"
  using grant_is_watched_until_it_ends [of "example_decision OutcomeApproved (Some 20)" 20 20]
  by (simp add: example_decision_def)

section \<open>Applying once\<close>

definition no_decision_faults :: "DecisionDeps \<Rightarrow> bool" where
  "no_decision_faults deps \<longleftrightarrow> dd_patch_error deps = None \<and> dd_request_error deps = None \<and> dd_decision_error deps = None"

text \<open>The objects after the writes of a call.\<close>

fun request_after :: "DecisionCall list \<Rightarrow> QuotaRequest \<Rightarrow> QuotaRequest" where
  "request_after [] q = q"
| "request_after (UpdateRequest s # calls) q = request_after calls (q\<lparr>qr_Status := s\<rparr>)"
| "request_after (_ # calls) q = request_after calls q"

fun decision_after :: "DecisionCall list \<Rightarrow> Decision \<Rightarrow> Decision" where
  "decision_after [] d = d"
| "decision_after (UpdateDecision s # calls) d = decision_after calls (d\<lparr>dc_Status := s\<rparr>)"
| "decision_after (_ # calls) d = decision_after calls d"

lemma request_after_append [simp]: "request_after (xs @ ys) q = request_after ys (request_after xs q)"
  by (induction xs q rule: request_after.induct) auto

lemma decision_after_append [simp]: "decision_after (xs @ ys) d = decision_after ys (decision_after xs d)"
  by (induction xs d rule: decision_after.induct) auto

lemma setRequestPhase_after:
  assumes "dd_request_error deps = None"
  obtains calls where "setRequestPhase deps now request phase name = (calls, None)"
    "qr_Phase (qr_Status (request_after calls request)) = phase"
    "qr_DecisionRef (qr_Status (request_after calls request)) = name"
    "qr_Spec (request_after calls request) = qr_Spec request"
    "\<And>d. decision_after calls d = d"
proof (cases "qr_Phase (qr_Status request) = phase \<and> qr_DecisionRef (qr_Status request) = name")
  case True
  then show ?thesis
    by (intro that [of "[]"]) (simp_all add: setRequestPhase_def)
next
  case False
  then obtain s where "setRequestPhase deps now request phase name = ([UpdateRequest s], None)"
    and "qr_Phase s = phase" "qr_DecisionRef s = name"
    using assms by (auto simp: setRequestPhase_def)
  then show ?thesis
    by (intro that [of "[UpdateRequest s]"]) simp_all
qed

lemma setRequestPhase_done:
  "qr_Phase (qr_Status q) = phase \<Longrightarrow> qr_DecisionRef (qr_Status q) = name \<Longrightarrow>
     setRequestPhase deps now q phase name = ([], None)"
  by (simp add: setRequestPhase_def)

lemma decision_writeStatus_after:
  assumes "dd_decision_error deps = None"
  obtains calls where "decision_writeStatus deps d s = (calls, None)"
    "dc_Applied (dc_Status (decision_after calls d)) = dc_Applied s"
    "dc_Expired (dc_Status (decision_after calls d)) = dc_Expired s"
    "dc_Message (dc_Status (decision_after calls d)) = dc_Message s"
    "dc_ObservedGeneration (dc_Status (decision_after calls d)) = dc_ObservedGeneration s"
    "dc_Spec (decision_after calls d) = dc_Spec d" "dc_Meta (decision_after calls d) = dc_Meta d"
    "\<And>q. request_after calls q = q"
proof (cases "decision_writeStatus deps d s = ([], None)")
  case True
  then show ?thesis
    by (intro that [OF True]) (simp_all add: decision_writeStatus_def Let_def assms split: if_splits)
next
  case False
  then have "decision_writeStatus deps d s = ([UpdateDecision s], None)"
    by (simp add: decision_writeStatus_def Let_def assms split: if_splits)
  then show ?thesis
    by (rule that) simp_all
qed

text \<open>An approval that is recorded, with the request it approved, needs no further write.\<close>

lemma settled_Reconcile:
  assumes "dc_Outcome (dc_Spec d) = OutcomeApproved" and "\<not> Lapsed d now" and "dc_Applied (dc_Status d)"
    and "dc_ObservedGeneration (dc_Status d) = om_Generation (dc_Meta d)"
    and "qr_Phase (qr_Status q) = RequestApplied" and "qr_DecisionRef (qr_Status q) = om_Name (dc_Meta d)"
  shows "decision_Reconcile deps now (Inr d) (Inr q) = ([], Inr (nextCheck d now))"
  using assms
  by (simp add: decision_Reconcile_def carry_out_def Let_def observed_status_def setRequestPhase_done
      decision_writeStatus_def)

lemma live_approval_calls:
  assumes ok: "no_decision_faults deps" and division: "dd_division deps (qr_Division (qr_Spec q)) = Inr division"
    and d: "dc_Outcome (dc_Spec d) = OutcomeApproved" "\<not> Lapsed d now"
  obtains calls where "decision_Reconcile deps now (Inr d) (Inr q) = (calls, Inr (nextCheck d now))"
    "(PatchQuota (om_Name (dv_Meta division)) (qr_Target (qr_Spec q)) \<in> set calls) = (\<not> dc_Applied (dc_Status d))"
    "dc_Applied (dc_Status (decision_after calls d))"
    "dc_ObservedGeneration (dc_Status (decision_after calls d)) = om_Generation (dc_Meta d)"
    "dc_Spec (decision_after calls d) = dc_Spec d" "dc_Meta (decision_after calls d) = dc_Meta d"
    "qr_Phase (qr_Status (request_after calls q)) = RequestApplied"
    "qr_DecisionRef (qr_Status (request_after calls q)) = om_Name (dc_Meta d)"
proof -
  have errs: "dd_patch_error deps = None" "dd_request_error deps = None" "dd_decision_error deps = None"
    using ok by (simp_all add: no_decision_faults_def)
  obtain c1 where c1: "setRequestPhase deps now q RequestApplied (om_Name (dc_Meta d)) = (c1, None)"
    "qr_Phase (qr_Status (request_after c1 q)) = RequestApplied"
    "qr_DecisionRef (qr_Status (request_after c1 q)) = om_Name (dc_Meta d)"
    "\<And>d. decision_after c1 d = d"
    using setRequestPhase_after [OF errs(2), of now q RequestApplied "om_Name (dc_Meta d)"] by metis
  define s where "s = (if dc_Applied (dc_Status d) then observed_status d
     else (observed_status d)\<lparr>dc_Applied := True, dc_AppliedAt := Some now,
        dc_Message := ''the quota of '' @ qr_Division (qr_Spec q) @ '' now matches the request''\<rparr>)"
  obtain c2 where c2: "decision_writeStatus deps d s = (c2, None)"
    "dc_Applied (dc_Status (decision_after c2 d)) = dc_Applied s"
    "dc_ObservedGeneration (dc_Status (decision_after c2 d)) = dc_ObservedGeneration s"
    "dc_Spec (decision_after c2 d) = dc_Spec d" "dc_Meta (decision_after c2 d) = dc_Meta d"
    "\<And>q. request_after c2 q = q"
    using decision_writeStatus_after [OF errs(3), of d s] by metis
  define c0 where "c0 = (if dc_Applied (dc_Status d) then []
     else [PatchQuota (om_Name (dv_Meta division)) (qr_Target (qr_Spec q))])"
  have "decision_Reconcile deps now (Inr d) (Inr q) = (c0 @ c1 @ c2, Inr (nextCheck d now))"
    using d c1(1) c2(1) division errs(1)
    by (auto simp: decision_Reconcile_def carry_out_def Let_def applyQuota_def c0_def s_def observed_status_def)
  moreover have "PatchQuota n t \<notin> set (c1 @ c2)" for n t
    using c1(1) c2(1) by (auto dest: setRequestPhase_no_patch decision_writeStatus_calls)
  then have "(PatchQuota (om_Name (dv_Meta division)) (qr_Target (qr_Spec q)) \<in> set (c0 @ c1 @ c2)) =
      (\<not> dc_Applied (dc_Status d))"
    by (auto simp: c0_def)
  moreover have "dc_Applied s" "dc_ObservedGeneration s = om_Generation (dc_Meta d)"
    by (simp_all add: s_def observed_status_def)
  moreover have "decision_after c0 x = x" "request_after c0 y = y" for x y
    by (simp_all add: c0_def)
  ultimately show ?thesis
    using that [of "c0 @ c1 @ c2"] c1 c2 by simp
qed

text \<open>
  C3. When the calls to the cluster succeed, an approved decision whose grant runs is carried out
  in one look: the quota is patched exactly when the decision was not recorded as applied, the
  decision is recorded as applied and the request as Applied by it; and every later look while
  the grant runs writes nothing. This holds whatever the phase of the request was and also when
  it had been withdrawn: the controller reads only the target and the division of the request.
\<close>
theorem approval_is_applied_once:
  assumes "no_decision_faults deps" and "dd_division deps (qr_Division (qr_Spec q)) = Inr division"
    and "dc_Outcome (dc_Spec d) = OutcomeApproved" and "\<not> Lapsed d now"
  shows "\<exists>calls. decision_Reconcile deps now (Inr d) (Inr q) = (calls, Inr (nextCheck d now)) \<and>
    (PatchQuota (om_Name (dv_Meta division)) (qr_Target (qr_Spec q)) \<in> set calls) = (\<not> dc_Applied (dc_Status d)) \<and>
    dc_Applied (dc_Status (decision_after calls d)) \<and>
    qr_Phase (qr_Status (request_after calls q)) = RequestApplied \<and>
    (\<forall>later. \<not> Lapsed d later \<longrightarrow>
       decision_Reconcile deps later (Inr (decision_after calls d)) (Inr (request_after calls q)) =
         ([], Inr (nextCheck d later)))"
proof -
  obtain calls where calls: "decision_Reconcile deps now (Inr d) (Inr q) = (calls, Inr (nextCheck d now))"
    "(PatchQuota (om_Name (dv_Meta division)) (qr_Target (qr_Spec q)) \<in> set calls) = (\<not> dc_Applied (dc_Status d))"
    and applied: "dc_Applied (dc_Status (decision_after calls d))"
    "dc_ObservedGeneration (dc_Status (decision_after calls d)) = om_Generation (dc_Meta d)"
    and kept: "dc_Spec (decision_after calls d) = dc_Spec d" "dc_Meta (decision_after calls d) = dc_Meta d"
    and phase: "qr_Phase (qr_Status (request_after calls q)) = RequestApplied"
    "qr_DecisionRef (qr_Status (request_after calls q)) = om_Name (dc_Meta d)"
    using live_approval_calls [OF assms] .
  have same: "Lapsed (decision_after calls d) later = Lapsed d later"
    "nextCheck (decision_after calls d) later = nextCheck d later" for later
    by (simp_all add: Lapsed_def nextCheck_def kept)
  have "decision_Reconcile deps later (Inr (decision_after calls d)) (Inr (request_after calls q)) =
         ([], Inr (nextCheck d later))" if "\<not> Lapsed d later" for later
    using settled_Reconcile [of "decision_after calls d" later "request_after calls q" deps]
      that assms(3) applied phase by (simp add: same kept)
  with calls applied(1) phase(1) show ?thesis
    by blast
qed

theorem approval_is_applied_once_witness:
  "\<exists>calls. decision_Reconcile example_decision_deps 10 (Inr (example_decision OutcomeApproved (Some 20)))
      (Inr (decided_request RequestWithdrawn True)) = (calls, Inr 10) \<and>
    PatchQuota ''team'' zero_quota \<in> set calls"
proof -
  let ?d = "example_decision OutcomeApproved (Some 20)" and ?q = "decided_request RequestWithdrawn True"
  have "no_decision_faults example_decision_deps" "\<not> Lapsed ?d 10" "dc_Outcome (dc_Spec ?d) = OutcomeApproved"
    "dd_division example_decision_deps (qr_Division (qr_Spec ?q)) = Inr (named_division ''team'')"
    by (simp_all add: no_decision_faults_def example_decision_deps_def Lapsed_def example_decision_def decided_request_def)
  from approval_is_applied_once [OF this(1,4,3,2)] obtain calls
    where "decision_Reconcile example_decision_deps 10 (Inr ?d) (Inr ?q) = (calls, Inr (nextCheck ?d 10))"
      and "(PatchQuota (om_Name (dv_Meta (named_division ''team''))) (qr_Target (qr_Spec ?q)) \<in> set calls) =
        (\<not> dc_Applied (dc_Status ?d))"
    by blast
  moreover have "nextCheck ?d 10 = 10" "\<not> dc_Applied (dc_Status ?d)"
    "om_Name (dv_Meta (named_division ''team'')) = ''team''" "qr_Target (qr_Spec ?q) = zero_quota"
    by (simp_all add: nextCheck_def example_decision_def time_sub_def min_i64_def max_i64_def hour_def
        named_division_def decided_request_def)
  ultimately show ?thesis
    by auto
qed

end
