(* ===== verification/Lease.thy ===== *)
theory Lease
  imports GovernApi Duration
begin

text \<open>
  The lease of a preview environment, internal/environments/lease.go: what the requested
  lifetime and its renewals add up to, its ceiling, its end, and the text of a lifetime.
  The quoting of text in error messages is \<^verbatim>\<open>%q\<close> for printable text and the escapes
  of quotes and backslashes.
\<close>

definition DefaultTTL :: duration where "DefaultTTL = 48 * hour"
definition MaxTTL :: duration where "MaxTTL = 7 * 24 * hour"

record Lease =
  StartedAt :: time
  lease_ExpiresAt :: time
  Granted :: duration
  Clamped :: bool

definition Expired :: "Lease \<Rightarrow> time \<Rightarrow> bool" where
  "Expired l now \<longleftrightarrow> \<not> now < lease_ExpiresAt l"

definition Remaining :: "Lease \<Rightarrow> time \<Rightarrow> duration" where
  "Remaining l now = (if Expired l now then 0 else time_sub (lease_ExpiresAt l) now)"

definition quoted :: "string \<Rightarrow> string" where
  "quoted s = [CHR 0x22] @
     concat (map (\<lambda>c. if c = CHR 0x22 \<or> c = CHR 0x5C then [CHR 0x5C, c] else [c]) s) @ [CHR 0x22]"

definition parseTTL :: "string \<Rightarrow> duration \<Rightarrow> string + duration" where
  "parseTTL value fallback =
     (if value = [] then Inr fallback
      else case ParseDuration value of
        None \<Rightarrow> Inl (quoted value @ '' is not a duration'')
      | Some parsed \<Rightarrow>
          if parsed \<le> 0 then Inl (quoted value @ '' is not a lease anyone can use'') else Inr parsed)"

fun add_renewals :: "duration \<Rightarrow> Renewal list \<Rightarrow> string + duration" where
  "add_renewals granted [] = Inr granted"
| "add_renewals granted (renewal # rest) =
     (case parseTTL (Extend renewal) 0 of
        Inl err \<Rightarrow> Inl (''renewal granted by '' @ GrantedBy renewal @ '': '' @ err)
      | Inr extension \<Rightarrow> add_renewals (wrap64 (granted + extension)) rest)"

definition LeaseOf :: "EphemeralEnvironment \<Rightarrow> string + Lease" where
  "LeaseOf e =
     (case parseTTL (ee_TTL (ee_Spec e)) DefaultTTL of
        Inl err \<Rightarrow> Inl (''spec.ttl: '' @ err)
      | Inr requested \<Rightarrow>
     (case add_renewals requested (Renewals (ee_Spec e)) of
        Inl err \<Rightarrow> Inl err
      | Inr asked \<Rightarrow>
          (let clamped = (asked > MaxTTL);
               granted = (if clamped then MaxTTL else asked);
               started = (case LeaseStartedAt (ee_Status e) of
                            None \<Rightarrow> om_CreationTimestamp (ee_Meta e) | Some t \<Rightarrow> t)
           in Inr \<lparr>StartedAt = started, lease_ExpiresAt = started + granted,
                   Granted = granted, Clamped = clamped\<rparr>)))"

definition FormatTTL :: "duration \<Rightarrow> string" where
  "FormatTTL value =
     (let minutes = float_to_i64 (Minutes (round_duration value minute));
          minutes = (if minutes \<le> 0 then 1 else minutes);
          hours = minutes sdiv 60;
          minutes = minutes - hours * 60
      in if hours > 0 \<and> minutes > 0 then show_int hours @ ''h'' @ show_int minutes @ ''m''
         else if hours > 0 then show_int hours @ ''h''
         else show_int minutes @ ''m'')"

section \<open>What a lease adds up to\<close>

text \<open>The unbounded sum of the requested lifetime and the extensions, when all of them parse.\<close>

definition ttl_value :: "string \<Rightarrow> duration \<Rightarrow> duration option" where
  "ttl_value s fallback = (case parseTTL s fallback of Inl _ \<Rightarrow> None | Inr d \<Rightarrow> Some d)"

fun sum_extensions :: "Renewal list \<Rightarrow> int option" where
  "sum_extensions [] = Some 0"
| "sum_extensions (r # rs) =
     (case (ttl_value (Extend r) 0, sum_extensions rs) of
        (Some d, Some s) \<Rightarrow> Some (d + s) | _ \<Rightarrow> None)"

definition asked_for :: "EphemeralEnvironment \<Rightarrow> int option" where
  "asked_for e =
     (case (ttl_value (ee_TTL (ee_Spec e)) DefaultTTL, sum_extensions (Renewals (ee_Spec e))) of
        (Some d, Some s) \<Rightarrow> Some (d + s) | _ \<Rightarrow> None)"

lemma ttl_value_range:
  assumes "ttl_value s fallback = Some d" and "in_i64 fallback" and "0 \<le> fallback"
  shows "in_i64 d \<and> 0 \<le> d \<and> (0 < fallback \<longrightarrow> 0 < d)"
  using assms by (auto simp: ttl_value_def parseTTL_def split: if_splits option.splits dest: ParseDuration_in_i64)

lemma DefaultTTL_range [simp]: "in_i64 DefaultTTL" "0 < DefaultTTL" "0 \<le> DefaultTTL"
  by (simp_all add: DefaultTTL_def hour_def in_i64_def min_i64_def max_i64_def)

lemma sum_extensions_nonneg: "sum_extensions rs = Some s \<Longrightarrow> 0 \<le> s"
proof (induction rs arbitrary: s)
  case (Cons r rs)
  then obtain d t where d: "ttl_value (Extend r) 0 = Some d" and "sum_extensions rs = Some t" "s = d + t"
    by (auto split: option.splits)
  with Cons.IH ttl_value_range [OF d] show ?case
    by (auto simp: in_i64_def min_i64_def max_i64_def)
qed simp

lemma add_renewals_sum:
  assumes "sum_extensions rs = Some s" and "0 \<le> granted"
  shows "\<exists>g. add_renewals granted rs = Inr g \<and> (granted + s \<le> max_i64 \<longrightarrow> g = granted + s)"
  using assms
proof (induction rs arbitrary: granted s)
  case (Cons r rs)
  then obtain d t where d: "ttl_value (Extend r) 0 = Some d" and t: "sum_extensions rs = Some t" "s = d + t"
    by (auto split: option.splits)
  have parsed: "parseTTL (Extend r) 0 = Inr d"
    using d by (auto simp: ttl_value_def split: sum.splits)
  have range: "0 \<le> d" "0 \<le> t"
    using ttl_value_range [OF d] sum_extensions_nonneg [OF t(1)] by (auto simp: in_i64_def min_i64_def max_i64_def)
  show ?case
  proof (cases "granted + s \<le> max_i64")
    case True
    with range t Cons.prems have "in_i64 (granted + d)"
      by (auto intro: in_i64_small)
    with True Cons.IH [OF t(1), of "granted + d"] Cons.prems range t show ?thesis
      by (auto simp: parsed)
  next
    case False
    have "\<exists>g. add_renewals h rs = Inr g" for h
      using t(1)
    proof (induction rs arbitrary: h t)
      case (Cons a as)
      then obtain x where "ttl_value (Extend a) 0 = Some x" and "\<exists>u. sum_extensions as = Some u"
        by (auto split: option.splits)
      with Cons.IH show ?case
        by (auto simp: ttl_value_def split: sum.splits)
    qed simp
    with False show ?thesis
      by (auto simp: parsed)
  qed
qed simp

lemma add_renewals_parses: "add_renewals granted rs = Inr g \<Longrightarrow> \<exists>s. sum_extensions rs = Some s"
proof (induction rs arbitrary: granted)
  case (Cons r rs)
  then obtain d where d: "parseTTL (Extend r) 0 = Inr d" and "add_renewals (wrap64 (granted + d)) rs = Inr g"
    by (auto split: sum.splits)
  with Cons.IH obtain s where "sum_extensions rs = Some s"
    by blast
  with d show ?case
    by (simp add: ttl_value_def)
qed simp

lemma LeaseOf_asked: "LeaseOf e = Inr l \<Longrightarrow> \<exists>s. asked_for e = Some s"
  by (auto simp: LeaseOf_def asked_for_def ttl_value_def Let_def split: sum.splits dest: add_renewals_parses)

section \<open>The ceiling\<close>

definition example_meta :: ObjectMeta where
  "example_meta = \<lparr>om_Name = ''pr-7'', om_Namespace = [], om_UID = ''u1'', om_Generation = 3,
     om_CreationTimestamp = 1000, om_DeletionTimestamp = None\<rparr>"

definition example_environment :: "string \<Rightarrow> string list \<Rightarrow> EphemeralEnvironment" where
  "example_environment ttl extends =
     \<lparr>ee_Meta = example_meta,
      ee_Spec = \<lparr>ee_Division = ''team'',
        ee_Change = \<lparr>ch_Repository = ''app'', ch_Number = 7, ch_Branch = ''fix'', ch_Revision = ''abc''\<rparr>,
        ee_Quota = zero_quota, ee_TTL = ttl, ee_RequestedBy = ''ada'',
        Renewals = map (\<lambda>x. \<lparr>Extend = x, ren_Reason = ''demo'', GrantedBy = ''bob'', GrantedAt = 5\<rparr>) extends\<rparr>,
      ee_Status = \<lparr>ee_Phase = NoEnvironmentPhase, ee_Namespace = [], LeaseStartedAt = None,
        ee_ExpiresAt = None, GrantedTTL = [], ReclaimedAt = None, ee_ObservedGeneration = 0,
        ee_Conditions = []\<rparr>\<rparr>"

text \<open>
  A lease that can be read never outlives seven days from its start, whatever its renewals
  add up to; it ends exactly its granted time after its start; and as long as the requested
  lifetime and the extensions together fit a 64-bit duration, the grant is their exact sum cut
  at the ceiling, it is positive, and it is marked as clamped exactly when it was cut.
\<close>
theorem lease_is_the_sum_of_its_grants_up_to_the_ceiling:
  assumes "LeaseOf e = Inr l"
  shows "Granted l \<le> MaxTTL \<and> lease_ExpiresAt l = StartedAt l + Granted l \<and>
    (case asked_for e of
       None \<Rightarrow> False
     | Some s \<Rightarrow> s \<le> max_i64 \<longrightarrow> Granted l = min s MaxTTL \<and> 0 < Granted l \<and> Clamped l = (MaxTTL < s))"
proof -
  obtain s where s: "asked_for e = Some s"
    using LeaseOf_asked [OF assms] by auto
  obtain d x where d: "ttl_value (ee_TTL (ee_Spec e)) DefaultTTL = Some d"
    and x: "sum_extensions (Renewals (ee_Spec e)) = Some x" and sx: "s = d + x"
    using s by (auto simp: asked_for_def split: option.splits)
  have pos: "0 < d"
    using ttl_value_range [OF d] by simp
  have parsed: "parseTTL (ee_TTL (ee_Spec e)) DefaultTTL = Inr d"
    using d by (auto simp: ttl_value_def split: sum.splits)
  obtain g where g: "add_renewals d (Renewals (ee_Spec e)) = Inr g" "s \<le> max_i64 \<longrightarrow> g = s"
    using add_renewals_sum [OF x, of d] pos sx by auto
  have "0 \<le> x"
    using sum_extensions_nonneg [OF x] .
  with assms g s sx pos show ?thesis
    by (auto simp: LeaseOf_def parsed Let_def MaxTTL_def hour_def min_def)
qed

theorem lease_is_the_sum_of_its_grants_up_to_the_ceiling_witness:
  "\<exists>l. LeaseOf (example_environment ''48h'' [''24h'', ''100h'']) = Inr l \<and> Granted l = 7 * 24 * hour \<and> Clamped l"
proof -
  let ?e = "example_environment ''48h'' [''24h'', ''100h'']"
  let ?l = "\<lparr>StartedAt = 1000, lease_ExpiresAt = 604800000001000, Granted = 604800000000000, Clamped = True\<rparr>"
  have l: "LeaseOf ?e = Inr ?l" and s: "asked_for ?e = Some (172 * hour)"
    by code_simp+
  then show ?thesis
    using lease_is_the_sum_of_its_grants_up_to_the_ceiling [OF l]
    by (auto simp: MaxTTL_def hour_def max_i64_def)
qed

text \<open>
  A renewal whose extension pushes the sum beyond a 64-bit duration does not lengthen the
  lease: the addition wraps around, no error is reported, the grant is negative, and the lease
  has already ended when it starts.
\<close>
theorem overflowing_renewal_ends_the_lease:
  assumes "ttl_value (ee_TTL (ee_Spec e)) DefaultTTL = Some d"
    and "Renewals (ee_Spec e) = [r]" and "ttl_value (Extend r) 0 = Some x" and "max_i64 < d + x"
  shows "\<exists>l. LeaseOf e = Inr l \<and> Granted l = d + x - 2 ^ 64 \<and> Granted l < 0 \<and> Expired l (StartedAt l)"
proof -
  have range: "in_i64 d" "in_i64 x" "0 \<le> x"
    using ttl_value_range [OF assms(1) DefaultTTL_range(1)] ttl_value_range [OF assms(3)]
    by (auto simp: in_i64_def min_i64_def max_i64_def)
  have "wrap64 (d + x) = wrap64 (d + x - 2 ^ 64)"
    using minus_mod_self2 [of "d + x + 9223372036854775808" 18446744073709551616] by (simp add: wrap64_def)
  also have "\<dots> = d + x - 2 ^ 64"
    using range assms(4) by (intro wrap64_id) (auto simp: in_i64_def min_i64_def max_i64_def)
  finally have sum: "wrap64 (d + x) = d + x - 2 ^ 64" .
  have parsed: "parseTTL (ee_TTL (ee_Spec e)) DefaultTTL = Inr d" "parseTTL (Extend r) 0 = Inr x"
    using assms(1,3) by (auto simp: ttl_value_def split: sum.splits)
  have "d + x - 2 ^ 64 < 0"
    using range by (auto simp: in_i64_def max_i64_def)
  then show ?thesis
    using assms(2) by (auto simp: LeaseOf_def parsed sum Let_def MaxTTL_def hour_def Expired_def)
qed

theorem overflowing_renewal_ends_the_lease_witness:
  "\<exists>l. LeaseOf (example_environment ''48h'' [''2562047h'']) = Inr l \<and> Granted l < 0"
proof -
  let ?e = "example_environment ''48h'' [''2562047h'']"
  let ?r = "\<lparr>Extend = ''2562047h'', ren_Reason = ''demo'', GrantedBy = ''bob'', GrantedAt = 5\<rparr>"
  have "ttl_value (ee_TTL (ee_Spec ?e)) DefaultTTL = Some (48 * hour)"
    and "ttl_value (Extend ?r) 0 = Some (2562047 * hour)"
    by code_simp+
  moreover have "Renewals (ee_Spec ?e) = [?r]"
    by (simp add: example_environment_def)
  ultimately show ?thesis
    using overflowing_renewal_ends_the_lease [of ?e "48 * hour" ?r "2562047 * hour"]
    by (auto simp: max_i64_def hour_def)
qed

section \<open>The text of a lifetime\<close>

lemma Minutes_whole:
  assumes "0 \<le> k" and "k < 9007199254740992"
  shows "Minutes (k * minute) = of_int k"
proof -
  have "k * minute sdiv minute = k" and "k * minute smod minute = 0"
    using assms by (simp_all add: signed_divide_int_def signed_modulo_int_def sgn_if minute_def)
  moreover have "fl (of_int k) = of_int k"
    using fl_of_nat_exact [of "nat k"] assms by (simp add: of_nat_nat)
  ultimately show ?thesis
    by (simp add: Minutes_def float_of_int_def fdiv_def fadd_def)
qed

lemma float_to_i64_of_int [simp]: "in_i64 k \<Longrightarrow> float_to_i64 (of_int k) = k"
  by (simp add: float_to_i64_def trunc_def)

text \<open>The nearest number of minutes, halves up.\<close>

definition minutes_of :: "duration \<Rightarrow> int" where
  "minutes_of d = (d + 30000000000) div minute"

lemma round_to_minutes:
  assumes "0 < d" and "d \<le> max_i64 - minute"
  shows "round_duration d minute = minutes_of d * minute"
proof -
  define q r where "q = d div minute" and "r = d mod minute"
  have r: "0 \<le> r" "r < minute" "d = q * minute + r" "0 \<le> q"
    using assms by (simp_all add: q_def r_def minute_def pos_imp_zdiv_nonneg_iff)
  have smod: "d smod minute = r"
    using assms by (simp add: r_def signed_modulo_int_def sgn_if minute_def)
  have m: "minutes_of d = (if r + r < minute then q else q + 1)"
  proof (cases "r + r < minute")
    case True
    with r show ?thesis
      unfolding minutes_of_def
      by (simp only: if_True) (rule int_div_pos_eq [where r = "r + 30000000000"], auto simp: minute_def)
  next
    case False
    with r show ?thesis
      unfolding minutes_of_def
      by (simp only: if_False) (rule int_div_pos_eq [where r = "r - 30000000000"], auto simp: minute_def)
  qed
  have "in_i64 (d - r)" "in_i64 (d + minute)" "in_i64 (d + minute - r)"
    using assms r by (auto simp: in_i64_def min_i64_def max_i64_def minute_def)
  moreover have "d - r = q * minute" and "d + minute - r = (q + 1) * minute"
    by (simp_all add: r(3) algebra_simps)
  moreover have "d < d + minute - r"
    using r(2) by simp
  ultimately show ?thesis
    using assms unfolding round_duration_def Let_def smod m by (auto simp: minute_def)
qed

lemma ParseDuration_hours_minutes:
  assumes "h \<le> 2000000" and "m \<le> 60"
  shows "ParseDuration (show_nat h @ ''h'' @ show_nat m @ ''m'') = Some (int h * hour + int m * minute)"
    and "ParseDuration (show_nat h @ ''h'') = Some (int h * hour)"
    and "ParseDuration (show_nat m @ ''m'') = Some (int m * minute)"
proof -
  have u: "unit_of ''h'' = Some hour" "unit_of ''m'' = Some minute"
    "in_unit CHR ''h''" "in_unit CHR ''m''"
    by (simp_all add: unit_of_def hour_def minute_def in_unit_def is_digit_def)
  have h: "component (show_nat h @ ''h'' @ rest) = Some (int h * hour, rest)"
    if "rest = [] \<or> \<not> in_unit (hd rest)" for rest
    using component_show_nat [of "''h''" hour rest h] that u assms by (simp add: hour_def)
  have m: "component (show_nat m @ ''m'') = Some (int m * minute, [])"
    using component_show_nat [of "''m''" minute "[]" m] u assms by (simp add: minute_def)
  have hd: "\<not> in_unit (hd (show_nat n @ s))" for n s
    using hd_show_nat [of n] by (simp add: in_unit_def)
  have sign: "ParseDuration (show_nat n @ [c] @ s) =
      (case components 0 (show_nat n @ [c] @ s) of None \<Rightarrow> None
       | Some d \<Rightarrow> if d > 9223372036854775807 then None else Some d)" if "\<not> is_digit c" for n c s
  proof -
    have "hd (show_nat n @ [c] @ s) \<noteq> CHR ''-''" "hd (show_nat n @ [c] @ s) \<noteq> CHR ''+''"
      using hd_show_nat [of n] by (auto simp: is_digit_def)
    moreover have "show_nat n @ [c] @ s \<noteq> ''0''"
      by (cases "show_nat n") (auto dest: arg_cong [of _ _ length])
    ultimately show ?thesis
      by (simp add: ParseDuration_def Let_def cong: option.case_cong)
  qed
  have nd: "\<not> is_digit CHR ''h''" "\<not> is_digit CHR ''m''"
    by (simp_all add: is_digit_def)
  have c: "components 0 (show_nat h @ ''h'' @ rest) = components (int h * hour) rest"
    if "rest = [] \<or> \<not> in_unit (hd rest)" for rest
    using assms by (subst components.simps) (simp add: h [OF that, simplified] hour_def)
  have c': "components d (show_nat m @ ''m'') = Some (d + int m * minute)"
    if "0 \<le> d" "d \<le> 2000000 * hour" for d
    using assms that by (subst components.simps) (simp add: m [simplified] hour_def minute_def components.simps)
  have bounds: "0 \<le> int h * hour" "int h * hour \<le> 2000000 * hour" "int m * minute \<le> 60 * minute"
    using assms by (auto simp: hour_def minute_def)
  show "ParseDuration (show_nat h @ ''h'' @ show_nat m @ ''m'') = Some (int h * hour + int m * minute)"
    using sign [OF nd(1), of h "show_nat m @ ''m''"] c [of "show_nat m @ ''m''"] c' [OF bounds(1,2)] hd bounds
    by (simp add: hour_def minute_def)
  show "ParseDuration (show_nat h @ ''h'') = Some (int h * hour)"
    using sign [OF nd(1), of h "[]"] c [of "[]"] bounds by (simp add: hour_def components.simps)
  show "ParseDuration (show_nat m @ ''m'') = Some (int m * minute)"
    using sign [OF nd(2), of m "[]"] c' [of 0] bounds by (simp add: hour_def minute_def)
qed

text \<open>
  The text of a granted lifetime reads back: for every positive duration of at most seven
  days, parsing the text that FormatTTL writes gives the duration rounded to the nearest
  minute, and at least one minute.
\<close>
theorem FormatTTL_reads_back:
  assumes "0 < d" and "d \<le> MaxTTL"
  shows "ParseDuration (FormatTTL d) = Some (max 1 (minutes_of d) * minute)"
proof -
  let ?n = "max 1 (minutes_of d)"
  have range: "0 \<le> minutes_of d" "minutes_of d \<le> 10080"
    using assms by (auto simp: minutes_of_def minute_def MaxTTL_def hour_def pos_imp_zdiv_nonneg_iff)
  have "round_duration d minute = minutes_of d * minute"
    using assms by (intro round_to_minutes) (auto simp: MaxTTL_def hour_def minute_def max_i64_def)
  then have "float_to_i64 (Minutes (round_duration d minute)) = minutes_of d"
    using range by (simp add: Minutes_whole in_i64_def min_i64_def max_i64_def)
  then have rendered: "FormatTTL d =
      (if ?n div 60 > 0 \<and> ?n mod 60 > 0 then show_int (?n div 60) @ ''h'' @ show_int (?n mod 60) @ ''m''
       else if ?n div 60 > 0 then show_int (?n div 60) @ ''h''
       else show_int (?n mod 60) @ ''m'')"
  proof -
    have "(if minutes_of d \<le> 0 then 1 else minutes_of d) = ?n"
      using range by auto
    moreover have "?n sdiv 60 = ?n div 60" and "?n - ?n div 60 * 60 = ?n mod 60"
      by (simp_all add: signed_divide_int_def sgn_if minus_div_mult_eq_mod)
    ultimately show ?thesis
      using \<open>float_to_i64 _ = _\<close> unfolding FormatTTL_def Let_def by (simp only:)
  qed
  have parts: "nat (?n div 60) \<le> 2000000" "nat (?n mod 60) \<le> 60" "0 \<le> ?n div 60" "0 \<le> ?n mod 60"
    using range by auto
  have whole: "?n div 60 * hour + ?n mod 60 * minute = ?n * minute"
  proof -
    have "x * hour + y * minute = (x * 60 + y) * minute" for x y :: int
      by (simp add: hour_def minute_def)
    from this [of "?n div 60" "?n mod 60"] show ?thesis
      by (simp only: div_mult_mod_eq)
  qed
  have shown: "show_int (?n div 60) = show_nat (nat (?n div 60))" "show_int (?n mod 60) = show_nat (nat (?n mod 60))"
    and ints: "int (nat (?n div 60)) = ?n div 60" "int (nat (?n mod 60)) = ?n mod 60"
    using parts(3,4) unfolding show_int_def by (simp_all only: not_less [symmetric] if_False int_nat_eq if_True not_False_eq_True)
  note parse = ParseDuration_hours_minutes [OF parts(1,2), unfolded ints whole]
  consider "0 < ?n div 60 \<and> 0 < ?n mod 60" | "0 < ?n div 60" "?n mod 60 = 0" | "?n div 60 = 0"
    using parts(3,4) by linarith
  then show ?thesis
  proof cases
    case 1
    then show ?thesis
      unfolding rendered shown using parse(1) by (simp only: if_True simp_thms)
  next
    case 2
    then have "?n div 60 * hour = ?n * minute"
      using whole by (simp only: mult_zero_left add_0_right)
    then show ?thesis
      unfolding rendered shown using 2 parse(2) by (simp only: if_True if_False less_irrefl simp_thms)
  next
    case 3
    then have "?n mod 60 * minute = ?n * minute"
      using whole by (simp only: mult_zero_left add_0)
    then show ?thesis
      unfolding rendered shown using 3 parse(3) by (simp only: if_True if_False less_irrefl simp_thms)
  qed
qed

theorem FormatTTL_reads_back_witness:
  "ParseDuration (FormatTTL (90 * minute + 29 * second)) = Some (90 * minute)"
  using FormatTTL_reads_back [of "90 * minute + 29 * second"]
  by (simp add: MaxTTL_def hour_def minute_def second_def minutes_of_def)

end
