(* ===== verification/Calendar.thy ===== *)
theory Calendar
  imports Prelude
begin

text \<open>
  The Gregorian calendar of package time, in UTC: the date of a day number (days since
  1 January of year 1, the zero time), the day number of a date, \<^verbatim>\<open>time.Date\<close> with its
  normalisation of months and days, \<^verbatim>\<open>AddDate\<close>, and the formats the program prints and
  parses. The two conversions are inverse to each other.
\<close>

definition day_length :: duration where "day_length = 24 * hour"

definition is_leap :: "int \<Rightarrow> bool" where
  "is_leap y \<longleftrightarrow> y mod 4 = 0 \<and> (y mod 100 \<noteq> 0 \<or> y mod 400 = 0)"

definition days_before_year :: "int \<Rightarrow> int" where
  "days_before_year y = 365 * (y - 1) + (y - 1) div 4 - (y - 1) div 100 + (y - 1) div 400"

text \<open>Days before a month of a year; months are 1 to 12, and 13 stands for the year's end.\<close>

definition days_before_month :: "bool \<Rightarrow> int \<Rightarrow> int" where
  "days_before_month l m =
     [0, 31, 59, 90, 120, 151, 181, 212, 243, 273, 304, 334, 365] ! nat (m - 1) + (if l \<and> m > 2 then 1 else 0)"

definition days_in_month :: "int \<Rightarrow> int \<Rightarrow> int" where
  "days_in_month y m = days_before_month (is_leap y) (m + 1) - days_before_month (is_leap y) m"

definition days_of_date :: "int \<Rightarrow> int \<Rightarrow> int \<Rightarrow> int" where
  "days_of_date y m d = days_before_year y + days_before_month (is_leap y) m + (d - 1)"

text \<open>The year of a day number and the day within it, by cycles of 400, 100, 4 and 1 years.\<close>

definition year_of_days :: "int \<Rightarrow> int \<times> int" where
  "year_of_days d =
     (let c = d div 146097; r = d mod 146097;
          n = r div 36524; n = n - n div 4; y = 400 * c + 100 * n; r = r - 36524 * n;
          n = r div 1461; y = y + 4 * n; r = r - 1461 * n;
          n = r div 365; n = n - n div 4
      in (y + n + 1, r - 365 * n))"

fun month_from :: "bool \<Rightarrow> int \<Rightarrow> int list \<Rightarrow> int" where
  "month_from l yd [] = 12"
| "month_from l yd (m # ms) = (if yd < days_before_month l (m + 1) then m else month_from l yd ms)"

definition date_of_days :: "int \<Rightarrow> int \<times> int \<times> int" where
  "date_of_days d =
     (let (y, yd) = year_of_days d;
          m = month_from (is_leap y) yd [1..12]
      in (y, m, yd - days_before_month (is_leap y) m + 1))"

definition date_of_time :: "time \<Rightarrow> int \<times> int \<times> int" where
  "date_of_time t = date_of_days (t div day_length)"

text \<open>\<^verbatim>\<open>time.Date(y, m, d, 0, 0, 0, 0, time.UTC)\<close>: months outside 1 to 12 carry into years.\<close>

definition make_date :: "int \<Rightarrow> int \<Rightarrow> int \<Rightarrow> time" where
  "make_date y m d = day_length * days_of_date (y + (m - 1) div 12) ((m - 1) mod 12 + 1) d"

text \<open>\<^verbatim>\<open>t.AddDate(y, m, d)\<close> keeps the time of day.\<close>

definition add_date :: "time \<Rightarrow> int \<Rightarrow> int \<Rightarrow> int \<Rightarrow> time" where
  "add_date t years months days =
     (case date_of_time t of
        (y, m, d) \<Rightarrow> make_date (y + years) (m + months) (d + days) + t mod day_length)"

section \<open>The conversions are inverse\<close>

lemma year_parts:
  fixes c a b e :: int
  assumes "0 \<le> a" "a \<le> 3" "0 \<le> b" "b \<le> 24" "0 \<le> e" "e \<le> 3"
  shows "days_before_year (400 * c + 100 * a + 4 * b + e + 1) = 146097 * c + 36524 * a + 1461 * b + 365 * e"
proof -
  let ?x = "400 * c + 100 * a + 4 * b + e"
  have "?x div 4 = 100 * c + 25 * a + b" "?x div 100 = 4 * c + a" "?x div 400 = c"
    using assms by (intro int_div_pos_eq [where r = e] int_div_pos_eq [where r = "4 * b + e"]
        int_div_pos_eq [where r = "100 * a + 4 * b + e"]; simp)+
  then show ?thesis
    by (simp add: days_before_year_def)
qed

text \<open>Division by a year length, where the last year of a cycle of four can be a day longer.\<close>

lemma cycle_parts:
  fixes r k :: int
  assumes "0 \<le> r" "r \<le> 4 * k" "4 < k"
  shows "0 \<le> r div k - r div k div 4 \<and> r div k - r div k div 4 \<le> 3 \<and>
         0 \<le> r - k * (r div k - r div k div 4) \<and> r - k * (r div k - r div k div 4) \<le> k"
proof -
  have q: "k * (r div k) \<le> r" "r < k * (r div k) + k" "0 \<le> r div k"
    using assms pos_mod_sign [of k r] pos_mod_bound [of k r] mult_div_mod_eq [of k r]
      pos_imp_zdiv_nonneg_iff [of k r] by linarith+
  have "k * (r div k) \<le> k * 4"
    using q(1) assms(2) by linarith
  then have "r div k \<le> 4"
    using assms(3) by simp
  have five: "x = 0 \<or> x = 1 \<or> x = 2 \<or> x = 3 \<or> x = 4" if "0 \<le> x" "x \<le> 4" for x :: int
    using that by presburger
  from five [OF q(3) \<open>r div k \<le> 4\<close>] show ?thesis
    using q assms by auto
qed

lemma cycle_unique:
  fixes n s k :: int
  assumes "0 \<le> n" "n \<le> 3" "0 \<le> s" "s < k \<or> s = k \<and> n = 3" "4 < k"
  shows "(k * n + s) div k - (k * n + s) div k div 4 = n"
proof (cases "s = k")
  case True
  with assms have "k * n + s = k * 4"
    by auto
  with assms True show ?thesis
    by simp
next
  case False
  with assms have "(k * n + s) div k = n"
    by (intro int_div_pos_eq [where r = s]) auto
  with assms show ?thesis
    by simp
qed

lemma year_of_days_split:
  "\<exists>c a b e yd. year_of_days d = (400 * c + 100 * a + 4 * b + e + 1, yd) \<and>
     0 \<le> a \<and> a \<le> 3 \<and> 0 \<le> b \<and> b \<le> 24 \<and> 0 \<le> e \<and> e \<le> 3 \<and> 0 \<le> yd \<and> yd \<le> 365 \<and>
     d = 146097 * c + 36524 * a + 1461 * b + 365 * e + yd"
proof -
  define c r where "c = d div 146097" and "r = d mod 146097"
  define a where "a = r div 36524 - r div 36524 div 4"
  define r1 where "r1 = r - 36524 * a"
  define b where "b = r1 div 1461"
  define r2 where "r2 = r1 - 1461 * b"
  define e where "e = r2 div 365 - r2 div 365 div 4"
  have r: "0 \<le> r" "r < 146097" "d = 146097 * c + r"
    by (simp_all add: c_def r_def)
  then have a: "0 \<le> a" "a \<le> 3" "0 \<le> r1" "r1 \<le> 36524"
    using cycle_parts [of r 36524] unfolding a_def r1_def by auto
  have "r2 = r1 mod 1461"
    by (simp add: r2_def b_def minus_mult_div_eq_mod)
  then have b: "0 \<le> b" "b \<le> 24" "0 \<le> r2" "r2 < 1461"
    using a(3,4) unfolding b_def by auto
  then have e: "0 \<le> e" "e \<le> 3" "0 \<le> r2 - 365 * e" "r2 - 365 * e \<le> 365"
    using cycle_parts [of r2 365] unfolding e_def by auto
  have "year_of_days d = (400 * c + 100 * a + 4 * b + e + 1, r2 - 365 * e)"
    by (simp add: year_of_days_def Let_def c_def r_def a_def r1_def b_def r2_def e_def)
  moreover have "d = 146097 * c + 36524 * a + 1461 * b + 365 * e + (r2 - 365 * e)"
    using r(3) by (simp add: r1_def r2_def)
  ultimately show ?thesis
    using a b e by blast
qed

lemma year_of_days_sound:
  assumes "year_of_days d = (y, yd)"
  shows "d = days_before_year y + yd \<and> 0 \<le> yd \<and> yd \<le> 365"
  using year_of_days_split [of d] assms by (auto simp: year_parts)

lemma month_cases:
  assumes "1 \<le> (m :: int)" "m \<le> 12"
  shows "m = 1 \<or> m = 2 \<or> m = 3 \<or> m = 4 \<or> m = 5 \<or> m = 6 \<or> m = 7 \<or> m = 8 \<or> m = 9 \<or> m = 10 \<or> m = 11 \<or> m = 12"
  using assms by presburger

lemma months_upto: "[1..12] = [1, 2, 3, 4, 5, 6, 7, 8, 9, 10, 11, 12 :: int]"
  by (simp add: upto.simps)

lemma month_from_range:
  assumes "0 \<le> yd"
  shows "1 \<le> month_from l yd [1..12] \<and> month_from l yd [1..12] \<le> 12 \<and>
         days_before_month l (month_from l yd [1..12]) \<le> yd"
  using assms by (simp add: months_upto days_before_month_def nth_Cons')

text \<open>Every day number is the day number of its date, whose month and day are in range.\<close>

lemma days_of_date_of_days:
  assumes "date_of_days n = (y, m, d)"
  shows "days_of_date y m d = n \<and> 1 \<le> m \<and> m \<le> 12 \<and> 1 \<le> d"
proof -
  obtain yd where yd: "year_of_days n = (y, yd)"
    using assms by (auto simp: date_of_days_def Let_def split: prod.splits)
  have m: "m = month_from (is_leap y) yd [1..12]" and d: "d = yd - days_before_month (is_leap y) m + 1"
    using assms yd by (auto simp: date_of_days_def Let_def)
  from year_of_days_sound [OF yd] month_from_range [of yd "is_leap y"] show ?thesis
    by (simp add: days_of_date_def m d)
qed

lemma year_of_days_unique:
  assumes "0 \<le> yd" and "yd < 365 + (if is_leap y then 1 else 0)"
  shows "year_of_days (days_before_year y + yd) = (y, yd)"
proof -
  define c p where "c = (y - 1) div 400" and "p = (y - 1) mod 400"
  define a q where "a = p div 100" and "q = p mod 100"
  define b e where "b = q div 4" and "e = q mod 4"
  have p: "0 \<le> p" "p < 400" "y = 400 * c + p + 1"
    by (simp_all add: c_def p_def)
  then have a: "0 \<le> a" "a \<le> 3" "0 \<le> q" "q < 100" "p = 100 * a + q"
    unfolding a_def q_def by auto
  then have b: "0 \<le> b" "b \<le> 24" "0 \<le> e" "e \<le> 3" "q = 4 * b + e"
    unfolding b_def e_def by auto
  have y: "y = 400 * c + 100 * a + 4 * b + e + 1"
    using p(3) a(5) b(5) by simp
  have days: "days_before_year y = 146097 * c + 36524 * a + 1461 * b + 365 * e"
    using year_parts [OF a(1,2) b(1-4), of c] by (simp add: y)
  have s: "y = 4 * (100 * c + 25 * a + b) + (e + 1)" "y = 100 * (4 * c + a) + (4 * b + e + 1)"
      "y = 400 * c + (100 * a + 4 * b + e + 1)"
    by (simp_all add: y)
  have zero: "(k * x + s) mod k = 0 \<longleftrightarrow> s = k" if "0 < s" "s \<le> k" for k x s :: int
    using that by (cases "s = k") auto
  have "y mod 4 = 0 \<longleftrightarrow> e + 1 = 4"
    unfolding s(1) by (rule zero) (use b in auto)
  then have m4: "y mod 4 = 0 \<longleftrightarrow> e = 3"
    by linarith
  have "y mod 100 = 0 \<longleftrightarrow> 4 * b + e + 1 = 100"
    unfolding s(2) by (rule zero) (use b in auto)
  then have m100: "y mod 100 = 0 \<longleftrightarrow> e = 3 \<and> b = 24"
    using b by linarith
  have "y mod 400 = 0 \<longleftrightarrow> 100 * a + 4 * b + e + 1 = 400"
    unfolding s(3) by (rule zero) (use a b in auto)
  then have m400: "y mod 400 = 0 \<longleftrightarrow> e = 3 \<and> b = 24 \<and> a = 3"
    using a b by linarith
  have leap: "is_leap y \<longleftrightarrow> e = 3 \<and> (b \<noteq> 24 \<or> a = 3)"
    unfolding is_leap_def m4 m100 m400 by auto
  define r where "r = 36524 * a + 1461 * b + 365 * e + yd"
  have last: "yd = 365 \<Longrightarrow> e = 3 \<and> (b \<noteq> 24 \<or> a = 3)" "yd \<le> 365"
    using assms leap by (auto split: if_splits)
  have low: "0 \<le> 1461 * b + 365 * e + yd"
    using assms b by simp
  have r3: "365 * e + yd \<le> 1460"
    using b last(2) by simp
  have r2: "1461 * b + 365 * e + yd \<le> (if a = 3 then 36524 else 36523)"
    using b r3 last by (cases "yd = 365"; cases "b = 24"; cases "a = 3") auto
  have r: "0 \<le> r" "r < 146097"
    using a r2 low by (auto simp: r_def split: if_splits)
  have "days_before_year y + yd = 146097 * c + r"
    by (simp add: days r_def)
  then have f1: "(days_before_year y + yd) div 146097 = c" and f2: "(days_before_year y + yd) mod 146097 = r"
    using r by (auto intro: int_div_pos_eq int_mod_pos_eq)
  have f3: "r div 36524 - r div 36524 div 4 = a"
  proof -
    have "1461 * b + 365 * e + yd < 36524 \<or> 1461 * b + 365 * e + yd = 36524 \<and> a = 3"
      using r2 by (cases "a = 3") auto
    from cycle_unique [OF a(1,2) low this] show ?thesis
      by (simp add: r_def add.assoc)
  qed
  have f4: "(r - 36524 * a) div 1461 = b"
    using r3 b assms(1) unfolding r_def by (intro int_div_pos_eq [where r = "365 * e + yd"]) auto
  have f5: "(r - 36524 * a - 1461 * b) div 365 - (r - 36524 * a - 1461 * b) div 365 div 4 = e"
  proof -
    have "yd < 365 \<or> yd = 365 \<and> e = 3"
      using last by linarith
    from cycle_unique [OF b(3,4) assms(1) this] show ?thesis
      by (simp add: r_def)
  qed
  show ?thesis
    unfolding year_of_days_def Let_def f1 f2 f3 f4 f5 prod.inject using y by (simp add: r_def)
qed

lemma days_before_month_step: "1 \<le> m \<Longrightarrow> m \<le> 12 \<Longrightarrow> days_before_month l m \<le> days_before_month l (m + 1)"
  by (drule (1) month_cases) (elim disjE; simp add: days_before_month_def nth_Cons')

lemma days_before_month_mono:
  "1 \<le> a \<Longrightarrow> a \<le> b \<Longrightarrow> b \<le> 13 \<Longrightarrow> days_before_month l a \<le> days_before_month l b"
proof (induction "nat (b - a)" arbitrary: b)
  case 0
  then show ?case by simp
next
  case (Suc k)
  then have "days_before_month l a \<le> days_before_month l (b - 1)"
    by simp
  also have "\<dots> \<le> days_before_month l b"
    using Suc days_before_month_step [of "b - 1" l] by simp
  finally show ?case .
qed

lemma month_from_first:
  assumes "days_before_month l m \<le> yd" "yd < days_before_month l (m + 1)" "m \<le> 12"
  shows "1 \<le> i \<Longrightarrow> i \<le> m \<Longrightarrow> month_from l yd [i..12] = m"
proof (induction "nat (m - i)" arbitrary: i)
  case 0
  with assms show ?case
    by (simp add: upto_rec1)
next
  case (Suc k)
  have "days_before_month l (i + 1) \<le> days_before_month l m"
    using Suc assms(3) by (intro days_before_month_mono) auto
  moreover have "month_from l yd [i + 1..12] = m"
    using Suc by (intro Suc.hyps(1)) auto
  ultimately show ?case
    using Suc assms by (subst upto_rec1) auto
qed

lemma month_from_unique:
  assumes "1 \<le> m" "m \<le> 12" "1 \<le> d" "d \<le> days_in_month y m"
  shows "month_from (is_leap y) (days_before_month (is_leap y) m + (d - 1)) [1..12] = m"
  using assms by (intro month_from_first) (auto simp: days_in_month_def)

lemma days_before_month_range:
  assumes "1 \<le> m" "m \<le> 12" "1 \<le> d" "d \<le> days_in_month y m"
  shows "0 \<le> days_before_month (is_leap y) m + (d - 1) \<and>
         days_before_month (is_leap y) m + (d - 1) < 365 + (if is_leap y then 1 else 0)"
proof -
  have "days_before_month (is_leap y) 1 \<le> days_before_month (is_leap y) m"
    and "days_before_month (is_leap y) (m + 1) \<le> days_before_month (is_leap y) 13"
    using assms by (intro days_before_month_mono; simp)+
  moreover have "days_before_month (is_leap y) 1 = 0"
    and "days_before_month (is_leap y) 13 = 365 + (if is_leap y then 1 else 0)"
    by (simp_all add: days_before_month_def)
  ultimately show ?thesis
    using assms(3,4) unfolding days_in_month_def by linarith
qed

lemma date_of_days_of_date:
  assumes "1 \<le> m" "m \<le> 12" "1 \<le> d" "d \<le> days_in_month y m"
  shows "date_of_days (days_of_date y m d) = (y, m, d)"
proof -
  have "year_of_days (days_of_date y m d) = (y, days_before_month (is_leap y) m + (d - 1))"
    using year_of_days_unique [of "days_before_month (is_leap y) m + (d - 1)" y] days_before_month_range [OF assms]
    by (simp add: days_of_date_def add.assoc)
  then show ?thesis
    using month_from_unique [OF assms] by (simp add: date_of_days_def Let_def)
qed

lemma days_in_month_range:
  assumes "1 \<le> m" "m \<le> 12"
  shows "28 \<le> days_in_month y m \<and> days_in_month y m \<le> 31"
  using month_cases [OF assms] by (elim disjE) (simp_all add: days_in_month_def days_before_month_def nth_Cons')

lemma div_mod_pred:
  fixes k y :: int
  assumes "1 < k"
  shows "y div k - (y - 1) div k = (if y mod k = 0 then 1 else 0)"
proof (cases "y mod k = 0")
  case True
  then have "y = k * (y div k)" using mult_div_mod_eq [of k y] by simp
  then have "y - 1 = k * (y div k - 1) + (k - 1)" by (simp add: algebra_simps)
  then have "(y - 1) div k = y div k - 1" by (rule int_div_pos_eq) (use assms in simp_all)
  with True show ?thesis by simp
next
  case False
  then have "0 \<le> y mod k - 1" "y mod k - 1 < k"
    using assms pos_mod_sign [of k y] pos_mod_bound [of k y] by linarith+
  moreover have "y - 1 = k * (y div k) + (y mod k - 1)" by simp
  ultimately have "(y - 1) div k = y div k" by (intro int_div_pos_eq [where r = "y mod k - 1"])
  with False show ?thesis by simp
qed

lemma year_step:
  fixes a b c :: int
  shows "a - a' = x \<Longrightarrow> b - b' = z \<Longrightarrow> c - c' = w \<Longrightarrow>
    365 * y + a - b + c - (365 * (y - 1) + a' - b' + c') = 365 + x - z + w"
  by simp

lemma leap_divisors: "(4 :: int) dvd 100" "(100 :: int) dvd 400"
  by simp_all

lemma days_before_next_year: "days_before_year (y + 1) = days_before_year y + 365 + (if is_leap y then 1 else 0)"
proof -
  have "days_before_year (y + 1) - days_before_year y =
      365 + (if y mod 4 = 0 then 1 else 0) - (if y mod 100 = 0 then 1 else 0) + (if y mod 400 = 0 then 1 else 0)"
  proof -
    have "y div 4 - (y - 1) div 4 = (if y mod 4 = 0 then 1 else 0)"
      and "y div 100 - (y - 1) div 100 = (if y mod 100 = 0 then 1 else 0)"
      and "y div 400 - (y - 1) div 400 = (if y mod 400 = 0 then 1 else 0)"
      by (rule div_mod_pred, simp)+
    then show ?thesis unfolding days_before_year_def add_diff_cancel_right' by (rule year_step)
  qed
  moreover have "y mod 100 = 0 \<Longrightarrow> y mod 4 = 0" "y mod 400 = 0 \<Longrightarrow> y mod 100 = 0"
    by (metis dvd_eq_mod_eq_0 dvd_trans leap_divisors)+
  ultimately have "days_before_year (y + 1) - days_before_year y = 365 + (if is_leap y then 1 else 0)"
    by (cases "y mod 4 = 0"; cases "y mod 100 = 0"; cases "y mod 400 = 0") (simp_all only: is_leap_def simp_thms if_True if_False diff_self add_0_right diff_zero)
  then show ?thesis by linarith
qed

lemma month_from_bound: "yd < days_before_month l 13 \<Longrightarrow> yd < days_before_month l (month_from l yd ms + 1)"
  by (induction ms) simp_all

lemma year_of_days_range:
  assumes "year_of_days n = (y, yd)"
  shows "yd < 365 + (if is_leap y then 1 else 0)"
proof (rule ccontr)
  note sound = year_of_days_sound [OF assms]
  assume "\<not> ?thesis"
  with sound have "\<not> is_leap y" "yd = 365" by (simp_all split: if_splits)
  with sound have "n = days_before_year (y + 1) + 0" by (simp add: days_before_next_year)
  with year_of_days_unique [of 0 "y + 1"] assms show False by (simp split: if_splits)
qed

lemma day_in_month:
  assumes "date_of_days n = (y, m, d)"
  shows "d \<le> days_in_month y m"
proof -
  obtain yd where yd: "year_of_days n = (y, yd)"
    using assms by (auto simp: date_of_days_def Let_def split: prod.splits)
  have m: "m = month_from (is_leap y) yd [1..12]" and d: "d = yd - days_before_month (is_leap y) m + 1"
    using assms yd by (auto simp: date_of_days_def Let_def)
  have "yd < days_before_month (is_leap y) (m + 1)"
    unfolding m by (rule month_from_bound) (use year_of_days_range [OF yd] in \<open>simp add: days_before_month_def split: if_splits\<close>)
  then show ?thesis by (simp add: d days_in_month_def)
qed

text \<open>The first day of a month, and of the month before it.\<close>

lemma date_of_first: "1 \<le> m \<Longrightarrow> m \<le> 12 \<Longrightarrow> date_of_time (make_date y m 1) = (y, m, 1)"
  using date_of_days_of_date [of m 1 y] days_in_month_range [of m y]
  by (simp add: date_of_time_def make_date_def day_length_def hour_def)

lemma first_of_month_before:
  fixes y m :: int
  assumes "1 \<le> m" "m \<le> 12"
  defines "y' \<equiv> (if m = 1 then y - 1 else y)" and "m' \<equiv> (if m = 1 then 12 else m - 1)"
  shows "add_date (make_date y m 1) 0 (- 1) 0 = make_date y' m' 1"
    and "make_date y m 1 = make_date y' m' 1 + day_length * days_in_month y' m'"
proof -
  have "make_date y m 1 mod day_length = 0" by (simp add: make_date_def)
  then show "add_date (make_date y m 1) 0 (- 1) 0 = make_date y' m' 1"
    unfolding add_date_def date_of_first [OF assms(1,2)] prod.case
    by (simp add: make_date_def y'_def m'_def)
  show "make_date y m 1 = make_date y' m' 1 + day_length * days_in_month y' m'"
  proof (cases "m = 1")
    case True
    have "days_before_year y = days_before_year (y - 1) + 365 + (if is_leap (y - 1) then 1 else 0)"
      using days_before_next_year [of "y - 1"] by simp
    with True show ?thesis
      by (simp add: make_date_def days_of_date_def days_in_month_def days_before_month_def y'_def m'_def algebra_simps)
  next
    case False
    with assms(1,2) show ?thesis
      by (simp add: make_date_def days_of_date_def days_in_month_def y'_def m'_def algebra_simps)
  qed
qed

section \<open>Formats\<close>

fun pad :: "nat \<Rightarrow> string \<Rightarrow> string" where
  "pad n s = replicate (n - length s) (CHR ''0'') @ s"

definition show_date :: "time \<Rightarrow> string" where
  "show_date t =
     (case date_of_time t of
        (y, m, d) \<Rightarrow> (if y < 0 then ''-'' else []) @ pad 4 (show_nat (nat \<bar>y\<bar>)) @ ''-'' @
          pad 2 (show_nat (nat m)) @ ''-'' @ pad 2 (show_nat (nat d)))"

definition rfc3339 :: "time \<Rightarrow> string" where
  "rfc3339 t =
     (let s = (t mod day_length) div second
      in show_date t @ ''T'' @ pad 2 (show_nat (nat (s div 3600))) @ '':'' @
         pad 2 (show_nat (nat (s div 60 mod 60))) @ '':'' @ pad 2 (show_nat (nat (s mod 60))) @ ''Z'')"

end
