(* ===== verification/KubeCluster.thy ===== *)
theory KubeCluster
  imports GovernApi
begin

text \<open>
  The part of a cluster that the controllers write: namespaces, resource quotas, limit ranges,
  network policies and role bindings, as maps from names to objects. A call of the Kubernetes
  client either fails, as the argument \<^verbatim>\<open>faults\<close> decides from the operation and the
  cluster at that moment, or has its documented effect. \<^verbatim>\<open>create_or_update\<close> is the
  controller library's CreateOrUpdate: read the object, start from a fresh one when there is
  none, let the caller change it, write it. (The library leaves out a write that would change
  nothing; such a call is one on which \<^verbatim>\<open>faults\<close> reports no error.)
\<close>

record OwnerReference =
  owner_UID :: string
  owner_Kind :: string
  owner_Controller :: bool

record KNamespace =
  ns_Labels :: "string \<rightharpoonup> string"
  ns_Owners :: "OwnerReference list"
  ns_Deleting :: bool

record KResourceQuota =
  rq_Hard :: "string \<rightharpoonup> Quantity"
  rq_Labels :: "string \<rightharpoonup> string"

record KLimitRange =
  lr_DefaultRequest :: "string \<rightharpoonup> Quantity"
  lr_Max :: "string \<rightharpoonup> Quantity"
  lr_Labels :: "string \<rightharpoonup> string"

record KNetworkPolicy =
  np_PolicyTypes :: "string list"
  np_Labels :: "string \<rightharpoonup> string"

record Subject =
  sj_APIGroup :: string
  sj_Kind :: string
  sj_Name :: string

record KRoleBinding =
  rb_RoleRef :: string
  rb_Subjects :: "Subject list"
  rb_Labels :: "string \<rightharpoonup> string"

text \<open>
  Capsule's global quota of a division: the division label it selects namespaces by, the
  ceilings the controller wrote, and the status fields that the controller reads back, each of
  which may be malformed.
\<close>

record KGlobalQuota =
  gq_Selector :: string
  gq_Hard :: "string \<rightharpoonup> string"
  gq_Labels :: "string \<rightharpoonup> string"
  gq_NamespaceCount :: "string + int"
  gq_TotalHard :: "string + (string \<times> string) list"
  gq_TotalUsed :: "string + (string \<times> string) list"

type_synonym key = "string \<times> string"

record Cluster =
  Namespaces :: "string \<rightharpoonup> KNamespace"
  ResourceQuotas :: "key \<rightharpoonup> KResourceQuota"
  LimitRanges :: "key \<rightharpoonup> KLimitRange"
  NetworkPolicies :: "key \<rightharpoonup> KNetworkPolicy"
  RoleBindings :: "key \<rightharpoonup> KRoleBinding"
  GlobalQuotas :: "string \<rightharpoonup> KGlobalQuota"

datatype Kind = KindNamespace | KindQuota | KindLimitRange | KindPolicy | KindBinding | KindGlobalQuota

datatype KubeOp = OpGet Kind key | OpWrite Kind key | OpDelete Kind key | OpList Kind string

type_synonym faults = "Cluster \<Rightarrow> KubeOp \<Rightarrow> api_error option"

definition no_faults :: faults where
  "no_faults c operation = None"

definition empty_cluster :: Cluster where
  "empty_cluster = \<lparr>Namespaces = Map.empty, ResourceQuotas = Map.empty, LimitRanges = Map.empty,
     NetworkPolicies = Map.empty, RoleBindings = Map.empty, GlobalQuotas = Map.empty\<rparr>"

definition fresh_namespace :: KNamespace where
  "fresh_namespace = \<lparr>ns_Labels = Map.empty, ns_Owners = [], ns_Deleting = False\<rparr>"

definition fresh_quota :: KResourceQuota where
  "fresh_quota = \<lparr>rq_Hard = Map.empty, rq_Labels = Map.empty\<rparr>"

definition fresh_limit_range :: KLimitRange where
  "fresh_limit_range = \<lparr>lr_DefaultRequest = Map.empty, lr_Max = Map.empty, lr_Labels = Map.empty\<rparr>"

definition fresh_policy :: KNetworkPolicy where
  "fresh_policy = \<lparr>np_PolicyTypes = [], np_Labels = Map.empty\<rparr>"

definition fresh_binding :: KRoleBinding where
  "fresh_binding = \<lparr>rb_RoleRef = [], rb_Subjects = [], rb_Labels = Map.empty\<rparr>"

text \<open>
  Names and labels that the controllers share, and the hard limits of a quota (\<^verbatim>\<open>mk\<close>
  makes a quantity of a whole number).
\<close>

definition LabelDivision :: string where "LabelDivision = ''govern.marstack.io/division''"
definition LabelEnvironment :: string where "LabelEnvironment = ''govern.marstack.io/environment''"
definition LabelManagedBy :: string where "LabelManagedBy = ''app.kubernetes.io/managed-by''"
definition ManagedBy :: string where "ManagedBy = ''margov''"
definition ResourceQuotaName :: string where "ResourceQuotaName = ''govern-division-quota''"
definition DefaultDenyPolicyName :: string where "DefaultDenyPolicyName = ''govern-default-deny''"

definition quota_hard :: "(int \<Rightarrow> Quantity) \<Rightarrow> Quota \<Rightarrow> (string \<rightharpoonup> Quantity)" where
  "quota_hard mk q =
     (let hard = [''requests.cpu'' \<mapsto> q_CPU q, ''requests.memory'' \<mapsto> q_Memory q];
          hard = (if \<not> QuantityIsZero (q_Storage q) then hard(''requests.storage'' \<mapsto> q_Storage q) else hard)
      in if q_Pods q > 0 then hard(''pods'' \<mapsto> mk (q_Pods q)) else hard)"

text \<open>Reading an object of a map.\<close>

definition kube_get :: "api_error option \<Rightarrow> ('k \<rightharpoonup> 'o) \<Rightarrow> 'k \<Rightarrow> api_error + 'o" where
  "kube_get fault m k =
     (case fault of
        Some err \<Rightarrow> Inl err
      | None \<Rightarrow> (case m k of None \<Rightarrow> Inl (NotFound ''not found'') | Some obj \<Rightarrow> Inr obj))"

text \<open>Writing an object: an update when it was read, a creation, which fails on one that is there, when not.\<close>

definition kube_write :: "api_error option \<Rightarrow> bool \<Rightarrow> ('k \<rightharpoonup> 'o) \<Rightarrow> 'k \<Rightarrow> 'o \<Rightarrow> ('k \<rightharpoonup> 'o) \<times> string option" where
  "kube_write fault creates m k obj =
     (case fault of
        Some err \<Rightarrow> (m, Some (error_text err))
      | None \<Rightarrow>
          (case m k of
             None \<Rightarrow> (m(k \<mapsto> obj), None)
           | Some _ \<Rightarrow> if creates then (m, Some ''already exists'') else (m(k \<mapsto> obj), None)))"

definition create_or_update ::
  "api_error option \<Rightarrow> api_error option \<Rightarrow> ('k \<rightharpoonup> 'o) \<Rightarrow> 'k \<Rightarrow> 'o \<Rightarrow> ('o \<Rightarrow> string + 'o) \<Rightarrow>
   ('k \<rightharpoonup> 'o) \<times> string option" where
  "create_or_update get_fault write_fault m k fresh mutate =
     (case kube_get get_fault m k of
        Inr obj \<Rightarrow>
          (case mutate obj of Inl message \<Rightarrow> (m, Some message) | Inr obj \<Rightarrow> kube_write write_fault False m k obj)
      | Inl err \<Rightarrow>
          if is_not_found err
          then (case mutate fresh of Inl message \<Rightarrow> (m, Some message) | Inr obj \<Rightarrow> kube_write write_fault True m k obj)
          else (m, Some (error_text err)))"

text \<open>Deleting an object that is simply removed.\<close>

definition kube_delete :: "api_error option \<Rightarrow> ('k \<rightharpoonup> 'o) \<Rightarrow> 'k \<Rightarrow> ('k \<rightharpoonup> 'o) \<times> api_error option" where
  "kube_delete fault m k =
     (case fault of
        Some err \<Rightarrow> (m, Some err)
      | None \<Rightarrow> if m k = None then (m, Some (NotFound ''not found'')) else (m(k := None), None))"

lemma create_or_update_other:
  "create_or_update g w m k fresh mutate = (m', err) \<Longrightarrow> k' \<noteq> k \<Longrightarrow> m' k' = m k'"
  by (auto simp: create_or_update_def kube_write_def split: sum.splits option.splits if_splits)

lemma create_or_update_ok:
  "create_or_update g w m k fresh mutate = (m', None) \<Longrightarrow>
     \<exists>obj obj'. (m k = None \<and> obj = fresh \<or> m k = Some obj) \<and> mutate obj = Inr obj' \<and> m' = m(k \<mapsto> obj')"
  by (auto simp: create_or_update_def kube_get_def kube_write_def split: sum.splits option.splits if_splits)

lemma create_or_update_failed:
  "create_or_update g w m k fresh mutate = (m', Some e) \<Longrightarrow> m' = m"
  by (auto simp: create_or_update_def kube_write_def split: sum.splits option.splits if_splits)

lemma kube_delete_other: "kube_delete fault m k = (m', err) \<Longrightarrow> k' \<noteq> k \<Longrightarrow> m' k' = m k'"
  by (auto simp: kube_delete_def split: option.splits if_splits)

lemma kube_delete_gone:
  "kube_delete fault m k = (m', err) \<Longrightarrow> err = None \<or> (\<exists>e. err = Some e \<and> is_not_found e \<and> fault = None) \<Longrightarrow> m' k = None"
  by (auto simp: kube_delete_def split: option.splits if_splits)

end
