(* ===== verification/EnvReconciler.thy ===== *)
theory EnvReconciler
  imports Lease Calendar Conditions KubeCluster
begin

text \<open>
  The controller of preview environments, internal/environments/reconciler.go. A call of
  Reconcile is a function of the object it reads, of the division's object, of the cluster and
  of the clock; it returns the cluster, the status it wrote (none when it wrote none), and an
  error or the delay until the next look (0: none). What is not part of the repository is the
  record \<^verbatim>\<open>EnvDeps\<close>: which client calls fail, the library's SetStatusCondition
  (\<^verbatim>\<open>ssc\<close>) and SetControllerReference (\<^verbatim>\<open>set_ref\<close>), and the constructor of
  a quantity.
\<close>

type_synonym setter = "string \<Rightarrow> string \<Rightarrow> string \<Rightarrow> string \<Rightarrow> Condition list \<Rightarrow> Condition list"

record EnvDeps =
  env_faults :: faults
  update_fault :: "EphemeralEnvironmentStatus \<Rightarrow> api_error option"
  ssc :: setter
  set_ref :: "EphemeralEnvironment \<Rightarrow> KNamespace \<Rightarrow> string + KNamespace"
  new_quantity :: "int \<Rightarrow> Quantity"

definition MaxSweepDelay :: duration where "MaxSweepDelay = 10 * minute"
definition reclaim_delay :: duration where "reclaim_delay = 30 * second"

definition LabelPreview :: string where "LabelPreview = ''govern.marstack.io/preview''"
definition LabelChange :: string where "LabelChange = ''govern.marstack.io/change''"

section \<open>Helpers\<close>

definition env_NamespaceFor :: "EphemeralEnvironment \<Rightarrow> string" where
  "env_NamespaceFor e = ee_Division (ee_Spec e) @ ''-preview-'' @ show_int (ch_Number (ee_Change (ee_Spec e)))"

definition ownedByUs :: "KNamespace \<Rightarrow> EphemeralEnvironment \<Rightarrow> bool" where
  "ownedByUs namespace e \<longleftrightarrow>
     list_ex (\<lambda>r. owner_UID r = om_UID (ee_Meta e) \<and> owner_Kind r = ''EphemeralEnvironment'') (ns_Owners namespace)"

definition sweepDelay :: "duration \<Rightarrow> duration" where
  "sweepDelay remaining =
     (if remaining \<le> 0 then second else if remaining > MaxSweepDelay then MaxSweepDelay else remaining)"

definition env_writeStatus ::
  "EnvDeps \<Rightarrow> EphemeralEnvironmentStatus \<Rightarrow> EphemeralEnvironmentStatus option \<times> string option" where
  "env_writeStatus deps status =
     (case update_fault deps status of
        None \<Rightarrow> (Some status, None)
      | Some err \<Rightarrow> (None, Some (error_text err)))"

text \<open>How a branch of Reconcile ends: it writes the status and looks again after a delay.\<close>

definition finish ::
  "EnvDeps \<Rightarrow> Cluster \<Rightarrow> EphemeralEnvironmentStatus \<Rightarrow> duration \<Rightarrow>
   Cluster \<times> EphemeralEnvironmentStatus option \<times> (string + duration)" where
  "finish deps c status delay =
     (case env_writeStatus deps status of
        (written, None) \<Rightarrow> (c, written, Inr delay)
      | (written, Some err) \<Rightarrow> (c, written, Inl err))"

section \<open>What a preview consists of\<close>

definition preview_labels :: "EphemeralEnvironment \<Rightarrow> Division \<Rightarrow> (string \<rightharpoonup> string) \<Rightarrow> (string \<rightharpoonup> string)" where
  "preview_labels e division labels = labels
     (LabelDivision \<mapsto> om_Name (dv_Meta division), LabelEnvironment \<mapsto> ''preview'',
      LabelManagedBy \<mapsto> ManagedBy, LabelPreview \<mapsto> ''true'',
      LabelChange \<mapsto> show_int (ch_Number (ee_Change (ee_Spec e))))"

definition env_ensureNamespace ::
  "EnvDeps \<Rightarrow> EphemeralEnvironment \<Rightarrow> Division \<Rightarrow> string \<Rightarrow> Cluster \<Rightarrow> Cluster \<times> string option" where
  "env_ensureNamespace deps e division name c =
     (case create_or_update (env_faults deps c (OpGet KindNamespace ([], name)))
             (env_faults deps c (OpWrite KindNamespace ([], name))) (Namespaces c) name fresh_namespace
             (\<lambda>ns. set_ref deps e (ns\<lparr>ns_Labels := preview_labels e division (ns_Labels ns)\<rparr>)) of
        (m, None) \<Rightarrow> (c\<lparr>Namespaces := m\<rparr>, None)
      | (m, Some err) \<Rightarrow> (c, Some (''namespace '' @ name @ '': '' @ err)))"

definition env_ensureQuota :: "EnvDeps \<Rightarrow> EphemeralEnvironment \<Rightarrow> string \<Rightarrow> Cluster \<Rightarrow> Cluster \<times> string option" where
  "env_ensureQuota deps e namespace c =
     (let k = (namespace, ResourceQuotaName) in
      case create_or_update (env_faults deps c (OpGet KindQuota k)) (env_faults deps c (OpWrite KindQuota k))
             (ResourceQuotas c) k fresh_quota
             (\<lambda>q. Inr (q\<lparr>rq_Hard := quota_hard (new_quantity deps) (ee_Quota (ee_Spec e)),
                         rq_Labels := (rq_Labels q)(LabelManagedBy \<mapsto> ManagedBy,
                                        LabelDivision \<mapsto> ee_Division (ee_Spec e))\<rparr>)) of
        (m, None) \<Rightarrow> (c\<lparr>ResourceQuotas := m\<rparr>, None)
      | (m, Some err) \<Rightarrow> (c, Some (''quota in '' @ namespace @ '': '' @ err)))"

definition env_ensureDefaultDeny :: "EnvDeps \<Rightarrow> Division \<Rightarrow> string \<Rightarrow> Cluster \<Rightarrow> Cluster \<times> string option" where
  "env_ensureDefaultDeny deps division namespace c =
     (if \<not> IsolationEnabled division then (c, None)
      else let k = (namespace, DefaultDenyPolicyName) in
        case create_or_update (env_faults deps c (OpGet KindPolicy k)) (env_faults deps c (OpWrite KindPolicy k))
               (NetworkPolicies c) k fresh_policy
               (\<lambda>p. Inr (p\<lparr>np_PolicyTypes := [''Ingress'', ''Egress''],
                           np_Labels := (np_Labels p)(LabelManagedBy \<mapsto> ManagedBy)\<rparr>)) of
          (m, None) \<Rightarrow> (c\<lparr>NetworkPolicies := m\<rparr>, None)
        | (m, Some err) \<Rightarrow> (c, Some (''default deny in '' @ namespace @ '': '' @ err)))"

text \<open>The three of them in order, stopping at the first error.\<close>

definition provision ::
  "EnvDeps \<Rightarrow> EphemeralEnvironment \<Rightarrow> Division \<Rightarrow> string \<Rightarrow> Cluster \<Rightarrow> Cluster \<times> string option" where
  "provision deps e division name c =
     (case env_ensureNamespace deps e division name c of
        (c, Some err) \<Rightarrow> (c, Some err)
      | (c, None) \<Rightarrow>
     (case env_ensureQuota deps e name c of
        (c, Some err) \<Rightarrow> (c, Some err)
      | (c, None) \<Rightarrow> env_ensureDefaultDeny deps division name c))"

section \<open>Reclaiming\<close>

text \<open>Deleting a namespace starts its termination: it stays, marked, until it is empty.\<close>

definition delete_namespace :: "EnvDeps \<Rightarrow> string \<Rightarrow> KNamespace \<Rightarrow> Cluster \<Rightarrow> Cluster \<times> api_error option" where
  "delete_namespace deps name ns c =
     (case env_faults deps c (OpDelete KindNamespace ([], name)) of
        Some err \<Rightarrow> (c, Some err)
      | None \<Rightarrow> (c\<lparr>Namespaces := (Namespaces c)(name \<mapsto> ns\<lparr>ns_Deleting := True\<rparr>)\<rparr>, None))"

definition reclaim ::
  "EnvDeps \<Rightarrow> time \<Rightarrow> EphemeralEnvironment \<Rightarrow> EphemeralEnvironmentStatus \<Rightarrow> Lease \<Rightarrow> Cluster \<Rightarrow>
   Cluster \<times> EphemeralEnvironmentStatus option \<times> (string + duration)" where
  "reclaim deps now e status lease c =
     (let name = ee_Namespace status in
      case kube_get (env_faults deps c (OpGet KindNamespace ([], name))) (Namespaces c) name of
        Inl err \<Rightarrow>
          if is_not_found err then
            finish deps c (status\<lparr>ee_Phase := EnvironmentExpired,
              ReclaimedAt := (case ReclaimedAt status of None \<Rightarrow> Some now | Some t \<Rightarrow> Some t),
              ee_Conditions := ssc deps ''NamespaceReady'' ''False'' ''Reclaimed''
                (''the lease ended at '' @ rfc3339 (lease_ExpiresAt lease) @ '' and the namespace is gone'')
                (ee_Conditions status)\<rparr>) 0
          else (c, None, Inl (error_text err))
      | Inr ns \<Rightarrow>
          if \<not> ownedByUs ns e then
            finish deps c (status\<lparr>ee_Phase := EnvironmentOrphaned,
              ee_Conditions := ssc deps ''NamespaceReady'' ''False'' ''NotOurs''
                (''namespace '' @ name @ '' exists but this environment does not own it, so it was left alone'')
                (ee_Conditions status)\<rparr>) 0
          else
            (case (if \<not> ns_Deleting ns then delete_namespace deps name ns c else (c, None)) of
               (c, deleted) \<Rightarrow>
                 if (case deleted of None \<Rightarrow> False | Some err \<Rightarrow> \<not> is_not_found err)
                 then (c, None, Inl (''reclaim namespace '' @ name @ '': '' @ error_text (the deleted)))
                 else finish deps c (status\<lparr>ee_Phase := EnvironmentReclaiming,
                   ee_Conditions := ssc deps ''NamespaceReady'' ''False'' ''Reclaiming''
                     (''the lease ended at '' @ rfc3339 (lease_ExpiresAt lease) @ '' and namespace '' @ name @
                      '' is being removed'')
                     (ee_Conditions status)\<rparr>) reclaim_delay))"

section \<open>Reconcile\<close>

definition begin_status :: "EphemeralEnvironment \<Rightarrow> EphemeralEnvironmentStatus" where
  "begin_status e = (ee_Status e)\<lparr>ee_ObservedGeneration := om_Generation (ee_Meta e),
                                  ee_Namespace := env_NamespaceFor e\<rparr>"

text \<open>The status with the lease filled in.\<close>

definition leased :: "EnvDeps \<Rightarrow> Lease \<Rightarrow> EphemeralEnvironmentStatus \<Rightarrow> EphemeralEnvironmentStatus" where
  "leased deps lease status = status
     \<lparr>LeaseStartedAt := (case LeaseStartedAt status of None \<Rightarrow> Some (StartedAt lease) | Some t \<Rightarrow> Some t),
      ee_ExpiresAt := Some (lease_ExpiresAt lease),
      GrantedTTL := FormatTTL (Granted lease),
      ee_Conditions :=
        (if Clamped lease then
           ssc deps ''LeaseValid'' ''True'' ''Clamped''
             (''the lease was shortened to the '' @ show_duration MaxTTL @ '' ceiling'') (ee_Conditions status)
         else
           ssc deps ''LeaseValid'' ''True'' ''Granted''
             (''the lease runs for '' @ FormatTTL (Granted lease) @ '' and ends at '' @
              rfc3339 (lease_ExpiresAt lease)) (ee_Conditions status))\<rparr>"

definition provisioned :: "EnvDeps \<Rightarrow> EphemeralEnvironment \<Rightarrow> EphemeralEnvironmentStatus \<Rightarrow> EphemeralEnvironmentStatus" where
  "provisioned deps e status = status
     \<lparr>ee_Phase := EnvironmentReady,
      ee_Conditions :=
        ssc deps ''WithinQuota'' ''True'' ''Bounded''
          (''the preview carries its own quota, so it cannot grow into the division''@ [CHR 0x27] @ ''s headroom'')
          (ssc deps ''NamespaceReady'' ''True'' ''Provisioned''
            (''namespace '' @ ee_Namespace status @ '' previews '' @ ch_Repository (ee_Change (ee_Spec e)) @ ''!'' @
             show_int (ch_Number (ee_Change (ee_Spec e))))
            (ee_Conditions status))\<rparr>"

definition env_Reconcile ::
  "EnvDeps \<Rightarrow> time \<Rightarrow> (api_error + EphemeralEnvironment) \<Rightarrow> (api_error + Division) \<Rightarrow> Cluster \<Rightarrow>
   Cluster \<times> EphemeralEnvironmentStatus option \<times> (string + duration)" where
  "env_Reconcile deps now got_environment got_division c =
     (case got_environment of
        Inl err \<Rightarrow> (c, None, if is_not_found err then Inr 0 else Inl (error_text err))
      | Inr e \<Rightarrow>
     (if om_DeletionTimestamp (ee_Meta e) \<noteq> None then (c, None, Inr 0)
      else let status = begin_status e in
     (case LeaseOf e of
        Inl err \<Rightarrow>
          finish deps c (status\<lparr>ee_Phase := EnvironmentPending,
            ee_Conditions := ssc deps ''LeaseValid'' ''False'' ''Unreadable'' err (ee_Conditions status)\<rparr>) 0
      | Inr lease \<Rightarrow>
          if ee_Phase status = EnvironmentReclaiming \<or> ee_Phase status = EnvironmentOrphaned
          then reclaim deps now e status lease c
          else
     (let status = leased deps lease status in
      if Expired lease now
      then reclaim deps now e (status\<lparr>ee_Phase := EnvironmentReclaiming\<rparr>) lease c
      else
     (case got_division of
        Inl err \<Rightarrow>
          if is_not_found err then
            finish deps c (status\<lparr>ee_Phase := EnvironmentPending,
              ee_Conditions := ssc deps ''NamespaceReady'' ''False'' ''DivisionMissing''
                (''division '' @ ee_Division (ee_Spec e) @ '' does not exist'') (ee_Conditions status)\<rparr>) 0
          else (c, None, Inl (error_text err))
      | Inr division \<Rightarrow>
          (case provision deps e division (ee_Namespace status) c of
             (c, Some err) \<Rightarrow> (c, None, Inl err)
           | (c, None) \<Rightarrow>
               finish deps c (provisioned deps e status) (sweepDelay (Remaining lease now))))))))"

section \<open>Lemmas\<close>

lemma finish_cluster: "finish deps c status delay = (c', w, r) \<Longrightarrow> c' = c"
  by (auto simp: finish_def env_writeStatus_def split: option.splits)

lemma finish_ok [simp]: "update_fault deps status = None \<Longrightarrow> finish deps c status delay = (c, Some status, Inr delay)"
  by (simp add: finish_def env_writeStatus_def)

lemma finish_delay: "finish deps c status delay = (c', w, Inr d) \<Longrightarrow> d = delay \<and> w = Some status"
  by (auto simp: finish_def env_writeStatus_def split: option.splits)

text \<open>What of a cluster lies outside one namespace.\<close>

definition same_outside :: "string \<Rightarrow> Cluster \<Rightarrow> Cluster \<Rightarrow> bool" where
  "same_outside name c c' \<longleftrightarrow>
     (\<forall>n. n \<noteq> name \<longrightarrow> Namespaces c' n = Namespaces c n) \<and>
     (\<forall>n k. n \<noteq> name \<longrightarrow> ResourceQuotas c' (n, k) = ResourceQuotas c (n, k) \<and>
                       NetworkPolicies c' (n, k) = NetworkPolicies c (n, k)) \<and>
     LimitRanges c' = LimitRanges c \<and> RoleBindings c' = RoleBindings c"

lemma same_outside_refl [simp]: "same_outside name c c"
  by (simp add: same_outside_def)

lemma same_outside_trans: "same_outside name a b \<Longrightarrow> same_outside name b c \<Longrightarrow> same_outside name a c"
  by (simp add: same_outside_def)

lemma ensureNamespace_same:
  "env_ensureNamespace deps e division name c = (c', err) \<Longrightarrow> same_outside name c c'"
  by (auto simp: env_ensureNamespace_def same_outside_def split: prod.splits option.splits
      dest: create_or_update_other)

lemma ensureQuota_same: "env_ensureQuota deps e name c = (c', err) \<Longrightarrow> same_outside name c c'"
  by (auto simp: env_ensureQuota_def Let_def same_outside_def split: prod.splits option.splits
      dest: create_or_update_other)

lemma ensureDefaultDeny_same: "env_ensureDefaultDeny deps division name c = (c', err) \<Longrightarrow> same_outside name c c'"
  by (auto simp: env_ensureDefaultDeny_def Let_def same_outside_def split: prod.splits option.splits if_splits
      dest: create_or_update_other)

lemma provision_same: "provision deps e division name c = (c', err) \<Longrightarrow> same_outside name c c'"
  unfolding provision_def
  by (auto split: prod.splits option.splits)
    (blast dest: ensureNamespace_same ensureQuota_same ensureDefaultDeny_same intro: same_outside_trans)+

lemma reclaim_same: "reclaim deps now e status lease c = (c', w, r) \<Longrightarrow> same_outside (ee_Namespace status) c c'"
  by (auto simp: reclaim_def Let_def delete_namespace_def same_outside_def
      split: sum.splits if_splits option.splits dest!: finish_cluster)

lemma begin_status_namespace [simp]: "ee_Namespace (begin_status e) = env_NamespaceFor e"
  by (simp add: begin_status_def)

lemma begin_status_phase [simp]: "ee_Phase (begin_status e) = ee_Phase (ee_Status e)"
  by (simp add: begin_status_def)

lemma leased_simps [simp]:
  "ee_Namespace (leased deps l s) = ee_Namespace s" "ee_Phase (leased deps l s) = ee_Phase s"
  by (simp_all add: leased_def)

text \<open>The two ways into the cluster: reclaiming the namespace, or provisioning it.\<close>

lemma Reconcile_cases:
  assumes "env_Reconcile deps now (Inr e) got_division c = (c', w, r)"
  obtains (unchanged) "c' = c"
    | (reclaimed) l status where "LeaseOf e = Inr l" "ee_Namespace status = env_NamespaceFor e"
        "ee_Phase (ee_Status e) = EnvironmentReclaiming \<or> ee_Phase (ee_Status e) = EnvironmentOrphaned \<or> Expired l now"
        "reclaim deps now e status l c = (c', w, r)"
    | (provisioned) l division err where "LeaseOf e = Inr l" "\<not> Expired l now"
        "got_division = Inr division" "provision deps e division (env_NamespaceFor e) c = (c', err)"
proof (cases "om_DeletionTimestamp (ee_Meta e) \<noteq> None")
  case True
  with assms unchanged show ?thesis
    by (simp add: env_Reconcile_def)
next
  case alive: False
  show ?thesis
  proof (cases "LeaseOf e")
    case (Inl err)
    with assms alive unchanged show ?thesis
      by (auto simp: env_Reconcile_def Let_def dest: finish_cluster)
  next
    case (Inr l)
    consider (sticky) "ee_Phase (ee_Status e) = EnvironmentReclaiming \<or> ee_Phase (ee_Status e) = EnvironmentOrphaned"
      | (over) "\<not> (ee_Phase (ee_Status e) = EnvironmentReclaiming \<or> ee_Phase (ee_Status e) = EnvironmentOrphaned)"
          "Expired l now"
      | (live) "\<not> (ee_Phase (ee_Status e) = EnvironmentReclaiming \<or> ee_Phase (ee_Status e) = EnvironmentOrphaned)"
          "\<not> Expired l now"
      by blast
    then show ?thesis
    proof cases
      case sticky
      with assms alive Inr have "reclaim deps now e (begin_status e) l c = (c', w, r)"
        by (simp add: env_Reconcile_def Let_def)
      with Inr sticky show ?thesis
        by (intro reclaimed) auto
    next
      case over
      with assms alive Inr
      have "reclaim deps now e ((leased deps l (begin_status e))\<lparr>ee_Phase := EnvironmentReclaiming\<rparr>) l c = (c', w, r)"
        by (simp add: env_Reconcile_def Let_def)
      with Inr over(2) show ?thesis
        by (intro reclaimed) auto
    next
      case live
      show ?thesis
      proof (cases got_division)
        case (Inl err)
        with assms alive \<open>LeaseOf e = Inr l\<close> live unchanged show ?thesis
          by (auto simp: env_Reconcile_def Let_def split: if_splits dest: finish_cluster)
      next
        case (Inr division)
        obtain c1 err where p: "provision deps e division (env_NamespaceFor e) c = (c1, err)"
          by fastforce
        with assms alive \<open>LeaseOf e = Inr l\<close> live Inr have "c' = c1"
          by (auto simp: env_Reconcile_def Let_def split: option.splits dest: finish_cluster)
        with p Inr \<open>LeaseOf e = Inr l\<close> live(2) show ?thesis
          by (intro provisioned) auto
      qed
    qed
  qed
qed

lemma reclaim_deletes:
  assumes "reclaim deps now e status l c = (c', w, r)"
    and "Namespaces c n = Some ns" "Namespaces c' n = Some ns'" "\<not> ns_Deleting ns" "ns_Deleting ns'"
  shows "n = ee_Namespace status \<and> ownedByUs ns e"
proof -
  have "n = ee_Namespace status"
    using reclaim_same [OF assms(1)] assms(2-5) by (auto simp: same_outside_def)
  moreover have "ownedByUs ns e"
  proof (rule ccontr)
    assume "\<not> ownedByUs ns e"
    with assms calculation have "c' = c"
      by (auto simp: reclaim_def Let_def kube_get_def split: option.splits if_splits dest: finish_cluster)
    with assms show False
      by simp
  qed
  ultimately show ?thesis
    by simp
qed

lemma provision_keeps_deleting:
  assumes "provision deps e division name c = (c', err)"
    and "\<And>x y. set_ref deps e x = Inr y \<Longrightarrow> ns_Deleting y = ns_Deleting x"
    and "Namespaces c n = Some ns" "Namespaces c' n = Some ns'"
  shows "ns_Deleting ns' = ns_Deleting ns \<or> ns_Deleting ns' = False"
proof -
  obtain c1 err1 where c1: "env_ensureNamespace deps e division name c = (c1, err1)"
    by fastforce
  have "Namespaces c' = Namespaces c1"
    using assms(1) c1 unfolding provision_def
    by (auto simp: env_ensureQuota_def env_ensureDefaultDeny_def Let_def split: option.splits prod.splits if_splits)
  moreover have "ns_Deleting x = ns_Deleting ns \<or> ns_Deleting x = False" if "Namespaces c1 n = Some x" for x
  proof (cases "n = name")
    case True
    with c1 assms(2,3) that show ?thesis
      by (auto simp: env_ensureNamespace_def create_or_update_def kube_get_def kube_write_def fresh_namespace_def
          split: prod.splits option.splits sum.splits if_splits)
  next
    case False
    with ensureNamespace_same [OF c1] assms(3) that show ?thesis
      by (simp add: same_outside_def)
  qed
  ultimately show ?thesis
    using assms(4) by simp
qed

section \<open>Properties\<close>

text \<open>A SetControllerReference that always succeeds, and a preview whose hour is over.\<close>

definition own_ref :: "EphemeralEnvironment \<Rightarrow> KNamespace \<Rightarrow> string + KNamespace" where
  "own_ref e ns = Inr (ns\<lparr>ns_Owners := ns_Owners ns @
     [\<lparr>owner_UID = om_UID (ee_Meta e), owner_Kind = ''EphemeralEnvironment'', owner_Controller = True\<rparr>]\<rparr>)"

definition example_deps :: EnvDeps where
  "example_deps = \<lparr>env_faults = no_faults, update_fault = (\<lambda>_. None), ssc = setCondition 9, set_ref = own_ref,
     new_quantity = (\<lambda>n. \<lparr>MilliValue = 1000 * n, Value = n, QuantityIsZero = (n = 0)\<rparr>)\<rparr>"

definition owned_namespace :: KNamespace where
  "owned_namespace = fresh_namespace\<lparr>ns_Owners :=
     [\<lparr>owner_UID = ''u1'', owner_Kind = ''EphemeralEnvironment'', owner_Controller = True\<rparr>]\<rparr>"

definition example_cluster :: Cluster where
  "example_cluster = empty_cluster\<lparr>Namespaces := [''team-preview-7'' \<mapsto> owned_namespace]\<rparr>"

lemma example_namespace [simp]: "env_NamespaceFor (example_environment ttl xs) = ''team-preview-7''"
proof -
  have "show_int 7 = ''7''"
    by code_simp
  then show ?thesis
    by (simp add: env_NamespaceFor_def example_environment_def)
qed

lemma example_lease: "LeaseOf (example_environment ''1h'' []) =
    Inr \<lparr>StartedAt = 1000, lease_ExpiresAt = 1000 + hour, Granted = hour, Clamped = False\<rparr>"
  by code_simp



lemma LeaseOf_status:
  "LeaseStartedAt status = LeaseStartedAt (ee_Status e) \<or>
     (\<exists>l. LeaseOf e = Inr l \<and> LeaseStartedAt status = Some (StartedAt l)) \<Longrightarrow>
   LeaseOf (e\<lparr>ee_Status := status\<rparr>) = LeaseOf e"
  by (auto simp: LeaseOf_def Let_def split: sum.splits option.splits)

lemma reclaim_owned:
  assumes "env_faults deps = no_faults" and "\<And>s. update_fault deps s = None"
    and "Namespaces c (ee_Namespace status) = Some ns" and "ownedByUs ns e"
  shows "\<exists>c' status'. reclaim deps now e status l c = (c', Some status', Inr reclaim_delay) \<and>
     Namespaces c' (ee_Namespace status) = Some (ns\<lparr>ns_Deleting := True\<rparr>) \<and>
     ee_Phase status' = EnvironmentReclaiming \<and> LeaseStartedAt status' = LeaseStartedAt status \<and>
     ReclaimedAt status' = ReclaimedAt status"
proof (cases "ns_Deleting ns")
  case True
  then have "ns\<lparr>ns_Deleting := True\<rparr> = ns"
    by simp
  with True assms show ?thesis
    by (simp add: reclaim_def Let_def kube_get_def no_faults_def)
next
  case False
  with assms show ?thesis
    by (simp add: reclaim_def Let_def kube_get_def no_faults_def delete_namespace_def)
qed

lemma reclaim_gone:
  assumes "env_faults deps = no_faults" and "\<And>s. update_fault deps s = None"
    and "Namespaces c (ee_Namespace status) = None"
  shows "\<exists>status'. reclaim deps now e status l c = (c, Some status', Inr 0) \<and>
     ee_Phase status' = EnvironmentExpired \<and>
     ReclaimedAt status' = Some (case ReclaimedAt status of None \<Rightarrow> now | Some t \<Rightarrow> t)"
  using assms by (simp add: reclaim_def Let_def kube_get_def no_faults_def split: option.splits)

text \<open>
  C10. When the calls to the cluster succeed, an environment whose lease is over is reclaimed in
  two looks: the first starts deleting its namespace, records the phase Reclaiming and asks to
  look again in half a minute; and once the namespace is gone, a look at the recorded object
  records the phase Expired and when that was, and asks for no further look.
\<close>
theorem expired_environment_is_reclaimed:
  assumes "om_DeletionTimestamp (ee_Meta e) = None" and l: "LeaseOf e = Inr l" and "Expired l now"
    and ok: "env_faults deps = no_faults" "\<forall>s. update_fault deps s = None"
    and ns: "Namespaces c (env_NamespaceFor e) = Some ns" "ownedByUs ns e"
  shows "\<exists>c' status. env_Reconcile deps now (Inr e) got c = (c', Some status, Inr reclaim_delay) \<and>
    Namespaces c' (env_NamespaceFor e) = Some (ns\<lparr>ns_Deleting := True\<rparr>) \<and>
    ee_Phase status = EnvironmentReclaiming \<and>
    (\<forall>c2 later got2. Namespaces c2 (env_NamespaceFor e) = None \<longrightarrow>
       (\<exists>status2. env_Reconcile deps later (Inr (e\<lparr>ee_Status := status\<rparr>)) got2 c2 = (c2, Some status2, Inr 0) \<and>
          ee_Phase status2 = EnvironmentExpired \<and>
          ReclaimedAt status2 = Some (case ReclaimedAt (ee_Status e) of None \<Rightarrow> later | Some t \<Rightarrow> t)))"
proof -
  define status0 where "status0 =
    (if ee_Phase (ee_Status e) = EnvironmentReclaiming \<or> ee_Phase (ee_Status e) = EnvironmentOrphaned
     then begin_status e else (leased deps l (begin_status e))\<lparr>ee_Phase := EnvironmentReclaiming\<rparr>)"
  have first: "env_Reconcile deps now (Inr e) got c = reclaim deps now e status0 l c"
    using assms(1-3) by (simp add: env_Reconcile_def Let_def status0_def)
  have s0: "ee_Namespace status0 = env_NamespaceFor e" "ReclaimedAt status0 = ReclaimedAt (ee_Status e)"
      "LeaseStartedAt status0 = LeaseStartedAt (ee_Status e) \<or> LeaseStartedAt status0 = Some (StartedAt l)"
    by (auto simp: status0_def begin_status_def leased_def split: option.splits)
  obtain c' status where run: "reclaim deps now e status0 l c = (c', Some status, Inr reclaim_delay)"
    and c': "Namespaces c' (env_NamespaceFor e) = Some (ns\<lparr>ns_Deleting := True\<rparr>)"
    and status: "ee_Phase status = EnvironmentReclaiming" "LeaseStartedAt status = LeaseStartedAt status0"
      "ReclaimedAt status = ReclaimedAt status0"
    using reclaim_owned [of deps c status0 ns e now l] ok ns s0(1) by auto
  let ?e = "e\<lparr>ee_Status := status\<rparr>"
  have "LeaseOf ?e = Inr l"
    using LeaseOf_status [of status e] status(2) s0(3) l by auto
  then have "env_Reconcile deps later (Inr ?e) got2 c2 = reclaim deps later ?e (begin_status ?e) l c2" for later got2 c2
    using assms(1) status(1) by (simp add: env_Reconcile_def Let_def)
  moreover have "ee_Namespace (begin_status ?e) = env_NamespaceFor e" "ReclaimedAt (begin_status ?e) = ReclaimedAt (ee_Status e)"
    using status(3) s0(2) by (simp_all add: begin_status_def env_NamespaceFor_def)
  ultimately show ?thesis
    using first run c' status(1) reclaim_gone [of deps _ "begin_status ?e"] ok by fastforce
qed

theorem expired_environment_is_reclaimed_witness:
  "\<exists>c' status. env_Reconcile example_deps (2 * hour) (Inr (example_environment ''1h'' [])) (Inl (NotFound ''x''))
     example_cluster = (c', Some status, Inr reclaim_delay) \<and> ee_Phase status = EnvironmentReclaiming"
proof -
  let ?e = "example_environment ''1h'' []"
  let ?l = "\<lparr>StartedAt = 1000, lease_ExpiresAt = 1000 + hour, Granted = hour, Clamped = False\<rparr>"
  have "om_DeletionTimestamp (ee_Meta ?e) = None" "Expired ?l (2 * hour)"
    by (simp_all add: example_environment_def example_meta_def Expired_def hour_def)
  moreover have "env_faults example_deps = no_faults" "\<forall>s. update_fault example_deps s = None"
    by (simp_all add: example_deps_def)
  moreover have "Namespaces example_cluster (env_NamespaceFor ?e) = Some owned_namespace"
    by (simp add: example_cluster_def)
  moreover have "ownedByUs owned_namespace ?e"
    by (simp add: ownedByUs_def owned_namespace_def example_environment_def example_meta_def)
  ultimately show ?thesis
    using expired_environment_is_reclaimed [of ?e ?l "2 * hour" example_deps example_cluster owned_namespace
        "Inl (NotFound ''x'')"] example_lease by blast
qed

lemma sweepDelay_range:
  assumes "\<not> Expired l now"
  shows "0 < sweepDelay (Remaining l now) \<and> sweepDelay (Remaining l now) \<le> MaxSweepDelay \<and>
         now + sweepDelay (Remaining l now) \<le> lease_ExpiresAt l"
  using assms
  by (auto simp: sweepDelay_def Remaining_def Expired_def time_sub_def MaxSweepDelay_def minute_def second_def
      min_i64_def max_i64_def)

lemma reclaim_not_ready: "reclaim deps now e status l c = (c', Some s, r) \<Longrightarrow> ee_Phase s \<noteq> EnvironmentReady"
  by (auto simp: reclaim_def finish_def env_writeStatus_def Let_def split: sum.splits option.splits prod.splits if_splits)

text \<open>A written phase Ready comes from the last branch of Reconcile.\<close>

lemma Reconcile_ready:
  assumes "env_Reconcile deps now (Inr e) (Inr division) c = (c', Some s, r)" and "ee_Phase s = EnvironmentReady"
  shows "\<exists>l. LeaseOf e = Inr l \<and> \<not> Expired l now \<and>
    provision deps e division (env_NamespaceFor e) c = (c', None) \<and> r = Inr (sweepDelay (Remaining l now))"
proof -
  have alive: "om_DeletionTimestamp (ee_Meta e) = None"
    using assms by (auto simp: env_Reconcile_def split: if_splits)
  obtain l where l: "LeaseOf e = Inr l"
    using assms alive
    by (cases "LeaseOf e") (auto simp: env_Reconcile_def finish_def env_writeStatus_def Let_def split: option.splits)
  have live: "\<not> (ee_Phase (ee_Status e) = EnvironmentReclaiming \<or> ee_Phase (ee_Status e) = EnvironmentOrphaned)"
    "\<not> Expired l now"
    using assms alive l by (auto simp: env_Reconcile_def Let_def dest: reclaim_not_ready split: if_splits)
  obtain c1 err where p: "provision deps e division (env_NamespaceFor e) c = (c1, err)"
    by fastforce
  with assms alive l live show ?thesis
    by (auto simp: env_Reconcile_def Let_def finish_def env_writeStatus_def split: option.splits)
qed

lemma provision_contents:
  assumes "provision deps e division name c = (c', None)"
    and law: "\<forall>x y. set_ref deps e x = Inr y \<longrightarrow> ownedByUs y e \<and> ns_Labels y = ns_Labels x"
  shows "(\<exists>ns. Namespaces c' name = Some ns \<and> ownedByUs ns e \<and>
            ns_Labels ns LabelDivision = Some (om_Name (dv_Meta division))) \<and>
         (\<exists>q. ResourceQuotas c' (name, ResourceQuotaName) = Some q \<and>
            rq_Hard q = quota_hard (new_quantity deps) (ee_Quota (ee_Spec e))) \<and>
         (IsolationEnabled division \<longrightarrow>
            (\<exists>p. NetworkPolicies c' (name, DefaultDenyPolicyName) = Some p \<and> np_PolicyTypes p = [''Ingress'', ''Egress'']))"
proof -
  obtain c1 c2 where c1: "env_ensureNamespace deps e division name c = (c1, None)"
    and c2: "env_ensureQuota deps e name c1 = (c2, None)"
    and c3: "env_ensureDefaultDeny deps division name c2 = (c', None)"
    using assms(1) by (auto simp: provision_def split: prod.splits option.splits)
  have labels: "preview_labels e division m LabelDivision = Some (om_Name (dv_Meta division))" for m
    by (simp add: preview_labels_def LabelDivision_def LabelEnvironment_def LabelManagedBy_def LabelPreview_def
        LabelChange_def)
  have "\<exists>ns. Namespaces c1 name = Some ns \<and> ownedByUs ns e \<and>
      ns_Labels ns LabelDivision = Some (om_Name (dv_Meta division))"
    using c1 law labels by (fastforce simp: env_ensureNamespace_def split: prod.splits option.splits
        dest!: create_or_update_ok)
  moreover have "Namespaces c' = Namespaces c1" "ResourceQuotas c' = ResourceQuotas c2"
    using c2 c3 by (auto simp: env_ensureQuota_def env_ensureDefaultDeny_def Let_def
        split: prod.splits option.splits if_splits)
  moreover have "\<exists>q. ResourceQuotas c2 (name, ResourceQuotaName) = Some q \<and>
      rq_Hard q = quota_hard (new_quantity deps) (ee_Quota (ee_Spec e))"
    using c2 by (auto simp: env_ensureQuota_def Let_def split: prod.splits option.splits dest!: create_or_update_ok)
  moreover have "IsolationEnabled division \<longrightarrow> (\<exists>p. NetworkPolicies c' (name, DefaultDenyPolicyName) = Some p \<and>
      np_PolicyTypes p = [''Ingress'', ''Egress''])"
    using c3 by (auto simp: env_ensureDefaultDeny_def Let_def split: prod.splits option.splits if_splits
        dest!: create_or_update_ok)
  ultimately show ?thesis
    by simp
qed

text \<open>
  An environment is only recorded as Ready while its lease runs, and then its namespace is
  its own and carries the division's name, holds exactly the quota of the environment's
  specification, and denies traffic by default when the division is isolated; and the next look
  comes within ten minutes and no later than the end of the lease. The hypothesis is what
  SetControllerReference promises: it adds the owner and keeps the labels.
\<close>
theorem ready_environment_is_bounded_and_watched:
  assumes run: "env_Reconcile deps now (Inr e) (Inr division) c = (c', Some status, Inr delay)"
    and ready: "ee_Phase status = EnvironmentReady"
    and law: "\<forall>x y. set_ref deps e x = Inr y \<longrightarrow> ownedByUs y e \<and> ns_Labels y = ns_Labels x"
  shows "(\<exists>l. LeaseOf e = Inr l \<and> \<not> Expired l now \<and> now + delay \<le> lease_ExpiresAt l) \<and>
    0 < delay \<and> delay \<le> MaxSweepDelay \<and>
    (\<exists>ns. Namespaces c' (env_NamespaceFor e) = Some ns \<and> ownedByUs ns e \<and>
       ns_Labels ns LabelDivision = Some (om_Name (dv_Meta division))) \<and>
    (\<exists>q. ResourceQuotas c' (env_NamespaceFor e, ResourceQuotaName) = Some q \<and>
       rq_Hard q = quota_hard (new_quantity deps) (ee_Quota (ee_Spec e))) \<and>
    (IsolationEnabled division \<longrightarrow>
       (\<exists>p. NetworkPolicies c' (env_NamespaceFor e, DefaultDenyPolicyName) = Some p \<and>
            np_PolicyTypes p = [''Ingress'', ''Egress'']))"
proof -
  obtain l where l: "LeaseOf e = Inr l" "\<not> Expired l now" "delay = sweepDelay (Remaining l now)"
    and p: "provision deps e division (env_NamespaceFor e) c = (c', None)"
    using Reconcile_ready [OF run ready] by auto
  then show ?thesis
    using sweepDelay_range [OF l(2)] provision_contents [OF p law] by auto
qed

definition example_env_division :: Division where
  "example_env_division =
     \<lparr>dv_Meta = example_meta\<lparr>om_Name := ''team''\<rparr>,
      dv_Spec = \<lparr>DisplayName = ''Team'', Environments = [''dev''], dv_Quota = zero_quota,
        dv_Limits = \<lparr>DefaultRequestCPU = zero_quantity, DefaultRequestMemory = zero_quantity,
          MaxCPUPerPod = zero_quantity, MaxMemoryPerPod = zero_quantity\<rparr>,
        Access = [], DefaultDeny = None, Suspended = False\<rparr>,
      dv_Status = \<lparr>dv_Phase = NoDivisionPhase, dv_Namespaces = [], QuotaBackend = [],
        dv_ObservedGeneration = 0, dv_Conditions = []\<rparr>\<rparr>"

theorem ready_environment_is_bounded_and_watched_witness:
  "\<exists>c' status delay. env_Reconcile example_deps 2000 (Inr (example_environment ''1h'' [])) (Inr example_env_division)
     empty_cluster = (c', Some status, Inr delay) \<and> delay \<le> MaxSweepDelay"
proof -
  let ?e = "example_environment ''1h'' []"
  let ?l = "\<lparr>StartedAt = 1000, lease_ExpiresAt = 1000 + hour, Granted = hour, Clamped = False\<rparr>"
  have live: "om_DeletionTimestamp (ee_Meta ?e) = None" "\<not> Expired ?l 2000"
      "ee_Phase (ee_Status ?e) = NoEnvironmentPhase"
    by (simp_all add: example_environment_def example_meta_def Expired_def hour_def)
  have deps: "env_faults example_deps = no_faults" "update_fault example_deps s = None" "set_ref example_deps = own_ref" for s
    by (simp_all add: example_deps_def)
  have "\<exists>c'. provision example_deps ?e example_env_division ''team-preview-7'' empty_cluster = (c', None)"
    by (simp add: provision_def env_ensureNamespace_def env_ensureQuota_def env_ensureDefaultDeny_def
        create_or_update_def kube_get_def kube_write_def deps no_faults_def empty_cluster_def own_ref_def Let_def
        IsolationEnabled_def example_env_division_def)
  then obtain c' where "provision example_deps ?e example_env_division ''team-preview-7'' empty_cluster = (c', None)" ..
  then have run: "env_Reconcile example_deps 2000 (Inr ?e) (Inr example_env_division) empty_cluster =
      (c', Some (provisioned example_deps ?e (leased example_deps ?l (begin_status ?e))),
       Inr (sweepDelay (Remaining ?l 2000)))"
    using live example_lease by (simp add: env_Reconcile_def Let_def deps)
  have "ee_Phase (provisioned example_deps ?e (leased example_deps ?l (begin_status ?e))) = EnvironmentReady"
    by (simp add: provisioned_def)
  moreover have "\<forall>x y. set_ref example_deps ?e x = Inr y \<longrightarrow> ownedByUs y ?e \<and> ns_Labels y = ns_Labels x"
    by (auto simp: deps own_ref_def ownedByUs_def)
  ultimately show ?thesis
    using ready_environment_is_bounded_and_watched [OF run] run by blast
qed

text \<open>
  When the lifetime of an environment cannot be read, Reconcile leaves the cluster as it is,
  records the phase Pending and asks for no further look: also when the environment was being
  reclaimed, so that a namespace whose lease is over stays until the text is corrected.
\<close>
theorem unreadable_lease_stops_reclaiming:
  assumes "om_DeletionTimestamp (ee_Meta e) = None" and "LeaseOf e = Inl err"
    and "\<forall>s. update_fault deps s = None"
  shows "\<exists>status. env_Reconcile deps now (Inr e) got c = (c, Some status, Inr 0) \<and> ee_Phase status = EnvironmentPending"
  using assms by (simp add: env_Reconcile_def Let_def)

theorem unreadable_lease_stops_reclaiming_witness:
  "\<exists>status. env_Reconcile example_deps (9 * hour) (Inr (example_environment ''5d'' [])) (Inl (NotFound ''x''))
     example_cluster = (example_cluster, Some status, Inr 0) \<and> ee_Phase status = EnvironmentPending"
proof -
  have "LeaseOf (example_environment ''5d'' []) = Inl (''spec.ttl: '' @ quoted ''5d'' @ '' is not a duration'')"
    by code_simp
  then show ?thesis
    by (rule unreadable_lease_stops_reclaiming [rotated])
      (simp_all add: example_environment_def example_meta_def example_deps_def)
qed

end
