(* ===== verification/Attribution.thy ===== *)
theory Attribution
  imports GovernApi
begin

text \<open>
  The admission webhook of internal/admission/attribution.go, which records who made an object.
  A rule says how to read and set the owner of a kind of object and, for preview environments,
  how to stamp renewals. Decoding and encoding are not part of the repository: the request
  carries what the decoder answers for the new and the old object, and \<^verbatim>\<open>encode\<close> is an
  argument; \<^verbatim>\<open>Patched\<close> carries the object that is encoded.
  The locale \<^verbatim>\<open>attribution\<close> is what the webhook relies on in a rule.
\<close>

datatype Operation = Create | Update | Delete | Connect

record 'a AdmissionRequest =
  Username :: string
  Operation_of :: Operation
  decoded :: "string + 'a"
  decoded_old :: "string + 'a"

datatype 'a Response = Denied string | Errored int string | Allowed string | Patched 'a

record 'a Rule =
  Path :: string
  Field :: string
  Owner :: "'a \<Rightarrow> string"
  SetOwner :: "'a \<Rightarrow> string \<Rightarrow> 'a"
  Stamp :: "(time \<Rightarrow> 'a \<Rightarrow> 'a \<Rightarrow> string \<Rightarrow> string + 'a) option"

definition go_quote :: "string \<Rightarrow> string" where
  "go_quote s = [CHR 0x22] @
     concat (map (\<lambda>c. if c = CHR 0x22 \<or> c = CHR 0x5C then [CHR 0x5C, c] else [c]) s) @ [CHR 0x22]"

section \<open>Renewals\<close>

text \<open>The first renewal of the old object that the new one does not repeat.\<close>

fun rewritten_from :: "nat \<Rightarrow> Renewal list \<Rightarrow> Renewal list \<Rightarrow> (nat \<times> Renewal) option" where
  "rewritten_from i (b # bs) (a # as) = (if a \<noteq> b then Some (i, b) else rewritten_from (Suc i) bs as)"
| "rewritten_from i _ _ = None"

definition stamp_renewal :: "time \<Rightarrow> string \<Rightarrow> Renewal \<Rightarrow> Renewal" where
  "stamp_renewal now user r =
     (let r = r\<lparr>GrantedBy := user\<rparr>
      in if is_zero_time (GrantedAt r) then r\<lparr>GrantedAt := now\<rparr> else r)"

definition stampRenewals ::
  "time \<Rightarrow> EphemeralEnvironment \<Rightarrow> EphemeralEnvironment \<Rightarrow> string \<Rightarrow> string + EphemeralEnvironment" where
  "stampRenewals now after before user =
     (let as = Renewals (ee_Spec after); bs = Renewals (ee_Spec before) in
      if length as < length bs then Inl ''a renewal that was already granted cannot be removed''
      else case rewritten_from 0 bs as of
        Some (i, b) \<Rightarrow> Inl (''renewal '' @ show_nat i @ '' was granted by '' @ GrantedBy b @ '' and cannot be rewritten'')
      | None \<Rightarrow>
          Inr (after\<lparr>ee_Spec := (ee_Spec after)
            \<lparr>Renewals := take (length bs) as @ map (stamp_renewal now user) (drop (length bs) as)\<rparr>\<rparr>))"

section \<open>The rules\<close>

definition quota_request_rule :: "QuotaRequest Rule" where
  "quota_request_rule =
     \<lparr>Path = ''/attribute/quotarequest'', Field = ''spec.requestedBy'',
      Owner = (\<lambda>x. qr_RequestedBy (qr_Spec x)),
      SetOwner = (\<lambda>x user. x\<lparr>qr_Spec := (qr_Spec x)\<lparr>qr_RequestedBy := user\<rparr>\<rparr>),
      Stamp = None\<rparr>"

definition decision_rule :: "Decision Rule" where
  "decision_rule =
     \<lparr>Path = ''/attribute/decision'', Field = ''spec.decidedBy'',
      Owner = (\<lambda>x. dc_DecidedBy (dc_Spec x)),
      SetOwner = (\<lambda>x user. x\<lparr>dc_Spec := (dc_Spec x)\<lparr>dc_DecidedBy := user\<rparr>\<rparr>),
      Stamp = None\<rparr>"

definition environment_rule :: "EphemeralEnvironment Rule" where
  "environment_rule =
     \<lparr>Path = ''/attribute/ephemeralenvironment'', Field = ''spec.requestedBy'',
      Owner = (\<lambda>x. ee_RequestedBy (ee_Spec x)),
      SetOwner = (\<lambda>x user. x\<lparr>ee_Spec := (ee_Spec x)\<lparr>ee_RequestedBy := user\<rparr>\<rparr>),
      Stamp = Some stampRenewals\<rparr>"

section \<open>Handle\<close>

definition respond :: "('a \<Rightarrow> string option) \<Rightarrow> 'a \<Rightarrow> 'a Response" where
  "respond encode_error obj =
     (case encode_error obj of Some err \<Rightarrow> Errored 500 err | None \<Rightarrow> Patched obj)"

definition Handle :: "'a Rule \<Rightarrow> ('a \<Rightarrow> string option) \<Rightarrow> time \<Rightarrow> 'a AdmissionRequest \<Rightarrow> 'a Response" where
  "Handle rule encode_error now request =
     (let user = Username request in
      if user = [] then Denied ''the request carries no authenticated user, so nothing can be attributed''
      else case decoded request of
        Inl err \<Rightarrow> Errored 400 err
      | Inr obj \<Rightarrow>
          (case Operation_of request of
             Create \<Rightarrow> respond encode_error (SetOwner rule obj user)
           | Update \<Rightarrow>
               (case decoded_old request of
                  Inl err \<Rightarrow> Errored 400 err
                | Inr previous \<Rightarrow>
                    if Owner rule obj \<noteq> Owner rule previous then
                      Denied (Field rule @ '' was recorded as '' @ go_quote (Owner rule previous) @
                              '' when the object was created and cannot be rewritten'')
                    else (case Stamp rule of
                        None \<Rightarrow> respond encode_error obj
                      | Some stamp \<Rightarrow>
                          (case stamp now obj previous user of
                             Inl err \<Rightarrow> Denied err
                           | Inr obj \<Rightarrow> respond encode_error obj)))
           | _ \<Rightarrow> Allowed []))"

section \<open>What a rule promises\<close>

text \<open>An object names the user who creates it, or the user it named before.\<close>

definition attributed :: "'a Rule \<Rightarrow> 'a AdmissionRequest \<Rightarrow> 'a \<Rightarrow> bool" where
  "attributed rule r obj \<longleftrightarrow> Username r \<noteq> [] \<and>
    (Operation_of r = Create \<and> Owner rule obj = Username r \<or>
     Operation_of r = Update \<and> (\<exists>previous. decoded_old r = Inr previous \<and> Owner rule obj = Owner rule previous))"

locale attribution =
  fixes rule :: "'a Rule"
  assumes owner_set: "Owner rule (SetOwner rule obj user) = user"
    and stamp_keeps: "Stamp rule = Some f \<Longrightarrow> f now obj previous user = Inr obj' \<Longrightarrow> Owner rule obj' = Owner rule obj"
begin

lemma created_by: "Handle rule enc now r = Patched obj \<Longrightarrow> Operation_of r = Create \<Longrightarrow>
    Owner rule obj = Username r \<and> Username r \<noteq> []"
  by (auto simp: Handle_def respond_def Let_def owner_set split: if_splits sum.splits option.splits)

lemma updated_keeps: "Handle rule enc now r = Patched obj \<Longrightarrow> Operation_of r = Update \<Longrightarrow>
    \<exists>previous. decoded_old r = Inr previous \<and> Owner rule obj = Owner rule previous"
  by (auto simp: Handle_def respond_def Let_def split: if_splits sum.splits option.splits dest: stamp_keeps)

lemma patched_operation: "Handle rule enc now r = Patched obj \<Longrightarrow>
    Username r \<noteq> [] \<and> (Operation_of r = Create \<or> Operation_of r = Update)"
  by (auto simp: Handle_def Let_def split: if_splits sum.splits Operation.splits)

lemma patched_attributed: "Handle rule enc now r = Patched obj \<Longrightarrow> attributed rule r obj"
  unfolding attributed_def using created_by updated_keeps patched_operation by blast

end

interpretation quota_request: attribution quota_request_rule
  by unfold_locales (simp_all add: quota_request_rule_def)

interpretation decision: attribution decision_rule
  by unfold_locales (simp_all add: decision_rule_def)

lemma stampRenewals_owner: "stampRenewals now after before user = Inr e \<Longrightarrow> ee_RequestedBy (ee_Spec e) = ee_RequestedBy (ee_Spec after)"
  by (auto simp: stampRenewals_def Let_def split: if_splits option.splits)

interpretation environment: attribution environment_rule
  by unfold_locales (auto simp: environment_rule_def dest: stampRenewals_owner)

section \<open>Renewals are only added, and stamped\<close>

lemma rewritten_from_None:
  "rewritten_from i bs as = None \<Longrightarrow> length bs \<le> length as \<Longrightarrow> take (length bs) as = bs"
  by (induction i bs as rule: rewritten_from.induct) (auto split: if_splits)

lemma stamp_renewal_simps [simp]:
  "GrantedBy (stamp_renewal now user r) = user"
  "Extend (stamp_renewal now user r) = Extend r"
  "GrantedAt (stamp_renewal now user r) = (if GrantedAt r = 0 then now else GrantedAt r)"
  by (simp_all add: stamp_renewal_def Let_def is_zero_time_def)

lemma stampRenewals_ok:
  assumes "stampRenewals now after before user = Inr e"
  shows "\<exists>added. Renewals (ee_Spec e) = Renewals (ee_Spec before) @ map (stamp_renewal now user) added \<and>
    Renewals (ee_Spec after) = Renewals (ee_Spec before) @ added"
proof -
  let ?as = "Renewals (ee_Spec after)" and ?bs = "Renewals (ee_Spec before)"
  have len: "length ?bs \<le> length ?as" and none: "rewritten_from 0 ?bs ?as = None"
    and e: "Renewals (ee_Spec e) = take (length ?bs) ?as @ map (stamp_renewal now user) (drop (length ?bs) ?as)"
    using assms by (auto simp: stampRenewals_def Let_def split: if_splits option.splits)
  have "take (length ?bs) ?as = ?bs"
    using rewritten_from_None [OF none len] .
  then show ?thesis
    using e append_take_drop_id [of "length ?bs" ?as] by (intro exI [of _ "drop (length ?bs) ?as"]) simp
qed

section \<open>Properties\<close>

definition blank_environment :: "string \<Rightarrow> Renewal list \<Rightarrow> EphemeralEnvironment" where
  "blank_environment user rs =
     \<lparr>ee_Meta = \<lparr>om_Name = ''pr-7'', om_Namespace = [], om_UID = ''u1'', om_Generation = 1,
        om_CreationTimestamp = 5, om_DeletionTimestamp = None\<rparr>,
      ee_Spec = \<lparr>ee_Division = ''team'',
        ee_Change = \<lparr>ch_Repository = ''app'', ch_Number = 7, ch_Branch = ''fix'', ch_Revision = ''abc''\<rparr>,
        ee_Quota = zero_quota, ee_TTL = ''1h'', ee_RequestedBy = user, Renewals = rs\<rparr>,
      ee_Status = \<lparr>ee_Phase = NoEnvironmentPhase, ee_Namespace = [], LeaseStartedAt = None,
        ee_ExpiresAt = None, GrantedTTL = [], ReclaimedAt = None, ee_ObservedGeneration = 0,
        ee_Conditions = []\<rparr>\<rparr>"

definition forged_renewal :: Renewal where
  "forged_renewal = \<lparr>Extend = ''24h'', ren_Reason = ''please'', GrantedBy = ''boss'', GrantedAt = 0\<rparr>"

definition update_request :: "EphemeralEnvironment AdmissionRequest" where
  "update_request = \<lparr>Username = ''eve'', Operation_of = Update,
     decoded = Inr (blank_environment ''ada'' [forged_renewal]), decoded_old = Inr (blank_environment ''ada'' [])\<rparr>"

definition create_request :: "EphemeralEnvironment AdmissionRequest" where
  "create_request = \<lparr>Username = ''eve'', Operation_of = Create,
     decoded = Inr (blank_environment ''ada'' [forged_renewal]), decoded_old = Inl ''none''\<rparr>"

lemma update_accepted: "Handle environment_rule (\<lambda>_. None) 9 update_request =
    Patched (blank_environment ''ada'' [stamp_renewal 9 ''eve'' forged_renewal])"
  by (simp add: Handle_def update_request_def environment_rule_def respond_def stampRenewals_def Let_def
      blank_environment_def)

lemma create_accepted: "Handle environment_rule (\<lambda>_. None) 9 create_request =
    Patched (blank_environment ''eve'' [forged_renewal])"
  by (simp add: Handle_def create_request_def environment_rule_def respond_def Let_def blank_environment_def)

text \<open>
  C11. Of the quota requests, decisions and preview environments that the webhook lets through
  with an author, every new one names the authenticated user who creates it, and every changed
  one still names the author it had; requests without an authenticated user are never among
  them.
\<close>
theorem authors_cannot_be_forged:
  "(Handle quota_request_rule enc1 now r1 = Patched x1 \<longrightarrow> attributed quota_request_rule r1 x1) \<and>
   (Handle decision_rule enc2 now r2 = Patched x2 \<longrightarrow> attributed decision_rule r2 x2) \<and>
   (Handle environment_rule enc3 now r3 = Patched x3 \<longrightarrow> attributed environment_rule r3 x3)"
  using quota_request.patched_attributed decision.patched_attributed environment.patched_attributed by blast

theorem authors_cannot_be_forged_witness:
  "attributed environment_rule create_request (blank_environment ''eve'' [forged_renewal])"
  using authors_cannot_be_forged create_accepted by blast

text \<open>
  A change of a preview environment that the webhook lets through keeps every renewal that
  was granted before, in order and unchanged, and each renewal it adds names the user who makes
  the change, keeps its extension, and has a time.
\<close>
theorem renewals_are_only_added_and_stamped:
  assumes "Handle environment_rule enc now r = Patched e" and "Operation_of r = Update"
  shows "\<exists>previous obj added. decoded_old r = Inr previous \<and> decoded r = Inr obj \<and>
    Renewals (ee_Spec obj) = Renewals (ee_Spec previous) @ added \<and>
    Renewals (ee_Spec e) = Renewals (ee_Spec previous) @ map (stamp_renewal now (Username r)) added \<and>
    (\<forall>x \<in> set (drop (length (Renewals (ee_Spec previous))) (Renewals (ee_Spec e))).
       GrantedBy x = Username r \<and> (now \<noteq> 0 \<longrightarrow> GrantedAt x \<noteq> 0))"
proof -
  obtain obj previous where obj: "decoded r = Inr obj" "decoded_old r = Inr previous"
    "stampRenewals now obj previous (Username r) = Inr e"
    using assms
    by (auto simp: Handle_def environment_rule_def respond_def Let_def split: if_splits sum.splits option.splits)
  from stampRenewals_ok [OF this(3)] obj(1,2) show ?thesis
    by auto
qed

theorem renewals_are_only_added_and_stamped_witness:
  "\<exists>previous. decoded_old update_request = Inr previous \<and>
     Renewals (ee_Spec (blank_environment ''ada'' [stamp_renewal 9 ''eve'' forged_renewal])) =
       Renewals (ee_Spec previous) @ [stamp_renewal 9 ''eve'' forged_renewal]"
proof -
  have "Operation_of update_request = Update"
    by (simp add: update_request_def)
  from renewals_are_only_added_and_stamped [OF update_accepted this] show ?thesis
    by (auto simp: update_request_def blank_environment_def)
qed

text \<open>
  Renewals that a new environment is created with are not stamped: the webhook lets the
  environment through with the renewals as they were sent, whoever they say granted them.
\<close>
theorem renewals_of_a_new_environment_are_not_stamped:
  assumes "Operation_of r = Create" and "Username r \<noteq> []" and "decoded r = Inr obj" and "\<forall>x. enc x = None"
  shows "\<exists>e. Handle environment_rule enc now r = Patched e \<and> ee_RequestedBy (ee_Spec e) = Username r \<and>
    Renewals (ee_Spec e) = Renewals (ee_Spec obj)"
  using assms by (simp add: Handle_def environment_rule_def respond_def Let_def)

theorem renewals_of_a_new_environment_are_not_stamped_witness:
  "\<exists>e. Handle environment_rule (\<lambda>_. None) 9 create_request = Patched e \<and>
     ee_RequestedBy (ee_Spec e) = ''eve'' \<and> map GrantedBy (Renewals (ee_Spec e)) = [''boss'']"
  using renewals_of_a_new_environment_are_not_stamped
    [of create_request "blank_environment ''ada'' [forged_renewal]" "\<lambda>_. None" 9]
  by (auto simp: create_request_def blank_environment_def forged_renewal_def)

end
