(* ===== verification/GoStrings.thy ===== *)
theory GoStrings
  imports Prelude "HOL-Library.Sublist"
begin

text \<open>
  What the program uses of Go's strings, encoding/base64 and net/url packages. A string is its
  bytes, so the white space outside ASCII that TrimSpace knows is listed in its UTF-8 encoding.
\<close>

section \<open>Package strings\<close>

fun cut_at :: "char \<Rightarrow> string \<Rightarrow> string \<times> string \<times> bool" where
  "cut_at c [] = ([], [], False)"
| "cut_at c (x # xs) =
     (if x = c then ([], xs, True) else case cut_at c xs of (before, after, found) \<Rightarrow> (x # before, after, found))"

fun split_on :: "char \<Rightarrow> string \<Rightarrow> string list" where
  "split_on c [] = [[]]"
| "split_on c (x # xs) =
     (if x = c then [] # split_on c xs
      else case split_on c xs of [] \<Rightarrow> [[x]] | part # parts \<Rightarrow> (x # part) # parts)"

definition white_space :: "string list" where
  "white_space =
     [[CHR 0x09], [CHR 0x0A], [CHR 0x0B], [CHR 0x0C], [CHR 0x0D], [CHR 0x20],
      [CHR 0xC2, CHR 0x85], [CHR 0xC2, CHR 0xA0], [CHR 0xE1, CHR 0x9A, CHR 0x80]] @
     map (\<lambda>n. [CHR 0xE2, CHR 0x80, char_of (n :: nat)]) ([0x80..<0x8B] @ [0xA8, 0xA9, 0xAF]) @
     [[CHR 0xE2, CHR 0x81, CHR 0x9F], [CHR 0xE3, CHR 0x80, CHR 0x80]]"

text \<open>Strip any of the given words off the front, as long as there is one.\<close>

function strip :: "string list \<Rightarrow> string \<Rightarrow> string" where
  "strip ws s =
     (case find (\<lambda>w. w \<noteq> [] \<and> prefix w s) ws of None \<Rightarrow> s | Some w \<Rightarrow> strip ws (drop (length w) s))"
  by auto

lemma find_SomeD: "find P xs = Some x \<Longrightarrow> x \<in> set xs \<and> P x"
  by (auto simp: find_Some_iff)

termination strip
  by (relation "measure (\<lambda>(ws, s). length s)")
    (auto dest!: find_SomeD simp: prefix_def)

declare strip.simps [simp del]

definition TrimSpace :: "string \<Rightarrow> string" where
  "TrimSpace s = rev (strip (map rev white_space) (rev (strip white_space s)))"

lemma strip_length: "length (strip ws s) \<le> length s"
proof (induction ws s rule: strip.induct)
  case (1 ws s)
  show ?case
  proof (cases "find (\<lambda>w. w \<noteq> [] \<and> prefix w s) ws")
    case None
    then show ?thesis by (subst strip.simps) simp
  next
    case (Some w)
    with 1 [OF Some] show ?thesis by (subst strip.simps) simp
  qed
qed

lemma TrimSpace_length: "length (TrimSpace s) \<le> length s"
  using strip_length [of "map rev white_space" "rev (strip white_space s)"] strip_length [of white_space s]
  by (simp add: TrimSpace_def)

section \<open>Package encoding/base64: RawURLEncoding\<close>

definition b64_digit :: "nat \<Rightarrow> char" where
  "b64_digit n = (if n < 26 then char_of (65 + n) else if n < 52 then char_of (71 + n)
     else if n < 62 then char_of (n - 4) else if n = 62 then CHR ''-'' else CHR ''_'')"

definition b64_value :: "char \<Rightarrow> nat option" where
  "b64_value c = (let n = of_char c :: nat in
     if 65 \<le> n \<and> n \<le> 90 then Some (n - 65)
     else if 97 \<le> n \<and> n \<le> 122 then Some (n - 71)
     else if 48 \<le> n \<and> n \<le> 57 then Some (n + 4)
     else if n = 45 then Some 62 else if n = 95 then Some 63 else None)"

fun b64_encode :: "string \<Rightarrow> string" where
  "b64_encode [] = []"
| "b64_encode [a] = [b64_digit (of_char a div 4), b64_digit (of_char a mod 4 * 16)]"
| "b64_encode [a, b] =
     [b64_digit (of_char a div 4), b64_digit (of_char a mod 4 * 16 + of_char b div 16),
      b64_digit (of_char b mod 16 * 4)]"
| "b64_encode (a # b # c # s) =
     [b64_digit (of_char a div 4), b64_digit (of_char a mod 4 * 16 + of_char b div 16),
      b64_digit (of_char b mod 16 * 4 + of_char c div 64), b64_digit (of_char c mod 64)] @ b64_encode s"

text \<open>The decoder reads past line ends, refuses padding and a lone last digit, and ignores spare bits.\<close>

fun b64_values :: "string \<Rightarrow> nat list option" where
  "b64_values [] = Some []"
| "b64_values (c # s) =
     (if c = CHR 0x0A \<or> c = CHR 0x0D then b64_values s
      else case (b64_value c, b64_values s) of (Some v, Some vs) \<Rightarrow> Some (v # vs) | _ \<Rightarrow> None)"

fun b64_bytes :: "nat list \<Rightarrow> string option" where
  "b64_bytes [] = Some []"
| "b64_bytes [x] = None"
| "b64_bytes [x, y] = Some [char_of (x * 4 + y div 16)]"
| "b64_bytes [x, y, z] = Some [char_of (x * 4 + y div 16), char_of (y mod 16 * 16 + z div 4)]"
| "b64_bytes (x # y # z # w # s) =
     map_option (\<lambda>r. char_of (x * 4 + y div 16) # char_of (y mod 16 * 16 + z div 4) # char_of (z mod 4 * 64 + w) # r)
       (b64_bytes s)"

definition b64_decode :: "string \<Rightarrow> string option" where
  "b64_decode s = Option.bind (b64_values s) b64_bytes"

lemma b64_value_digit: "n < 64 \<Longrightarrow> b64_value (b64_digit n) = Some n"
  by (auto simp: b64_value_def b64_digit_def Let_def)

lemma b64_digit_facts: "n < 64 \<Longrightarrow>
   b64_value (b64_digit n) = Some n \<and> b64_digit n \<noteq> CHR 0x0A \<and> b64_digit n \<noteq> CHR 0x0D"
  using b64_value_digit [of n] by (auto simp: b64_value_def)

lemma b64_values_digit: "n < 64 \<Longrightarrow> b64_values (b64_digit n # s) = map_option ((#) n) (b64_values s)"
  using b64_digit_facts [of n] by (auto split: option.splits)

lemma byte_parts:
  assumes "a < 256" and "b < (256 :: nat)"
  shows "a div 4 < 64" "a mod 4 * 16 + b div 16 < 64" "b mod 16 * 4 + a div 64 < 64" "b mod 64 < 64"
    "a mod 4 * 16 < 64" "b mod 16 * 4 < 64"
  using assms by auto

lemma b64_decode_encode [simp]: "b64_decode (b64_encode s) = Some s"
proof -
  have lt: "(of_char c :: nat) < 256" for c
    by (rule nat_of_char_less_256)
  note parts = byte_parts [OF lt lt]
  have join1: "a div 4 * 4 + (a mod 4 * 16 + b div 16) div 16 = a" if "b < 256" for a b :: nat
    using that by auto
  have join2: "(a mod 4 * 16 + b div 16) mod 16 * 16 + (b mod 16 * 4 + c div 64) div 4 = b"
    if "b < 256" "c < 256" for a b c :: nat
    using that by auto
  have join3: "(b mod 16 * 4 + c div 64) mod 4 * 64 + c mod 64 = c" if "c < 256" for b c :: nat
    using that by auto
  have "\<exists>vs. b64_values (b64_encode s) = Some vs \<and> b64_bytes vs = Some s"
  proof (induction s rule: b64_encode.induct)
    case (2 a)
    then show ?case
      using join1 [of 0 "of_char a"] parts by (simp add: b64_values_digit del: b64_values.simps(2))
  next
    case (3 a b)
    then show ?case
      using join1 [OF lt, of "of_char a" b] join2 [of "of_char b" 0 "of_char a"] lt parts by (simp add: b64_values_digit del: b64_values.simps(2))
  next
    case (4 a b c s)
    then obtain vs where "b64_values (b64_encode s) = Some vs" "b64_bytes vs = Some s" by blast
    then show ?case
      using join1 [OF lt, of "of_char a" b] join2 [OF lt lt, of "of_char a" b c] join3 [OF lt, of "of_char b" c] parts
      by (simp add: b64_values_digit del: b64_values.simps(2))
  qed simp
  then show ?thesis
    by (auto simp: b64_decode_def)
qed

section \<open>Package net/url\<close>

fun unescape :: "string \<Rightarrow> string option" where
  "unescape [] = Some []"
| "unescape (c # s) =
     (if c = CHR ''%'' then
        (case s of
           h # l # rest \<Rightarrow>
             (case (hex_value h, hex_value l) of
                (Some a, Some b) \<Rightarrow> map_option ((#) (char_of (16 * a + b))) (unescape rest)
              | _ \<Rightarrow> None)
         | _ \<Rightarrow> None)
      else map_option ((#) c) (unescape s))"

end
