(* ===== verification/Identity.thy ===== *)
theory Identity
  imports Duration GoStrings
begin

text \<open>
  Who is calling: internal/identity/actor.go, session.go, middleware.go and dev.go. A session
  travels in a cookie sealed with an authenticated cipher. The cipher, the source of nonces and
  the json codec of a session are arguments: \<^verbatim>\<open>sl_seal\<close> and \<^verbatim>\<open>sl_open\<close> are the two calls of
  cipher.AEAD, which put the nonce in front. Cookies of a request are its name and value pairs;
  what a handler sets is the list of cookies it writes.
\<close>

datatype AuthMode = NoAuthMode | AuthModeOIDC | AuthModeDev

record Actor =
  ac_Subject :: string
  ac_Email :: string
  ac_Groups :: "string list"
  ac_ActiveDivision :: string
  ac_Mode :: AuthMode
  ac_ExpiresAt :: time

record Session =
  ss_Subject :: string
  ss_Email :: string
  ss_Groups :: "string list"
  ss_ActiveDivision :: string
  ss_Mode :: AuthMode
  ss_IssuedAt :: time
  ss_ExpiresAt :: time

definition InGroup :: "Actor \<Rightarrow> string \<Rightarrow> bool" where
  "InGroup a g = (g \<in> set (ac_Groups a))"

definition Label :: "Actor \<Rightarrow> string" where
  "Label a = (if ac_Email a \<noteq> [] then ac_Email a else ac_Subject a)"

definition ActorFromSession :: "Session \<Rightarrow> Actor" where
  "ActorFromSession s = \<lparr>ac_Subject = ss_Subject s, ac_Email = ss_Email s, ac_Groups = ss_Groups s,
     ac_ActiveDivision = ss_ActiveDivision s, ac_Mode = ss_Mode s, ac_ExpiresAt = ss_ExpiresAt s\<rparr>"

definition SessionFromActor :: "time \<Rightarrow> Actor \<Rightarrow> Session" where
  "SessionFromActor now a = \<lparr>ss_Subject = ac_Subject a, ss_Email = ac_Email a, ss_Groups = ac_Groups a,
     ss_ActiveDivision = ac_ActiveDivision a, ss_Mode = ac_Mode a, ss_IssuedAt = now, ss_ExpiresAt = ac_ExpiresAt a\<rparr>"

text \<open>The actor a request context carries, if it carries one with a subject.\<close>

definition FromContext :: "Actor option \<Rightarrow> Actor option" where
  "FromContext ctx = (case ctx of None \<Rightarrow> None | Some a \<Rightarrow> if ac_Subject a = [] then None else Some a)"

section \<open>Sessions\<close>

definition CookieName :: string where "CookieName = ''margov_session''"
definition KeyLength :: nat where "KeyLength = 32"
definition maxLifetime :: duration where "maxLifetime = 12 * hour"

datatype SessionError = ErrNoSession | ErrSessionExpired | ErrTampered

definition Valid :: "Session \<Rightarrow> time \<Rightarrow> SessionError option" where
  "Valid s now = (if ss_Subject s = [] then Some ErrNoSession
                  else if now > ss_ExpiresAt s then Some ErrSessionExpired else None)"

record Sealer =
  sl_NonceSize :: nat
  sl_seal :: "string \<Rightarrow> string \<Rightarrow> string"
  sl_open :: "string \<Rightarrow> string \<Rightarrow> string option"
  sl_secure :: bool

definition NewSealer :: "(string \<Rightarrow> bool \<Rightarrow> Sealer) \<Rightarrow> string \<Rightarrow> bool \<Rightarrow> string + Sealer" where
  "NewSealer gcm key secure =
     (if length key \<noteq> KeyLength
      then Inl (''a session key must be '' @ show_nat KeyLength @ '' bytes, got '' @ show_nat (length key))
      else Inr (gcm key secure))"

definition SealJSON :: "Sealer \<Rightarrow> string + string \<Rightarrow> string + string \<Rightarrow> string + string" where
  "SealJSON s payload nonce =
     (case payload of
        Inl err \<Rightarrow> Inl (''encode sealed value: '' @ err)
      | Inr p \<Rightarrow>
          (case nonce of
             Inl err \<Rightarrow> Inl (''generate session nonce: '' @ err)
           | Inr n \<Rightarrow> Inr (b64_encode (n @ sl_seal s n p))))"

definition OpenJSON :: "Sealer \<Rightarrow> (string \<Rightarrow> 'a option) \<Rightarrow> string \<Rightarrow> SessionError + 'a" where
  "OpenJSON s unmarshal value =
     (case b64_decode value of
        None \<Rightarrow> Inl ErrTampered
      | Some raw \<Rightarrow>
          if length raw < sl_NonceSize s then Inl ErrTampered
          else (case sl_open s (take (sl_NonceSize s) raw) (drop (sl_NonceSize s) raw) of
                  None \<Rightarrow> Inl ErrTampered
                | Some payload \<Rightarrow> (case unmarshal payload of None \<Rightarrow> Inl ErrTampered | Some x \<Rightarrow> Inr x)))"

record Codec =
  cd_marshal :: "Session \<Rightarrow> string + string"
  cd_unmarshal :: "string \<Rightarrow> Session option"

record Cookie =
  ck_Name :: string
  ck_Value :: string
  ck_Path :: string
  ck_Expires :: time
  ck_MaxAge :: int
  ck_HttpOnly :: bool
  ck_Secure :: bool
  ck_SameSite :: string

definition site_cookie :: "Sealer \<Rightarrow> string \<Rightarrow> string \<Rightarrow> string \<Rightarrow> time \<Rightarrow> int \<Rightarrow> Cookie" where
  "site_cookie s name value path expires age =
     \<lparr>ck_Name = name, ck_Value = value, ck_Path = path, ck_Expires = expires, ck_MaxAge = age,
      ck_HttpOnly = True, ck_Secure = sl_secure s, ck_SameSite = ''Lax''\<rparr>"

text \<open>No session lives longer than \<^verbatim>\<open>maxLifetime\<close>.\<close>

definition capped :: "Session \<Rightarrow> Session" where
  "capped s =
     (if is_zero_time (ss_ExpiresAt s) \<or> time_sub (ss_ExpiresAt s) (ss_IssuedAt s) > maxLifetime
      then s\<lparr>ss_ExpiresAt := ss_IssuedAt s + maxLifetime\<rparr> else s)"

definition CookieFor :: "Sealer \<Rightarrow> Codec \<Rightarrow> string + string \<Rightarrow> Session \<Rightarrow> string + Cookie" where
  "CookieFor s codec nonce session =
     (let session = capped session in
      case SealJSON s (cd_marshal codec session) nonce of
        Inl err \<Rightarrow> Inl err
      | Inr value \<Rightarrow> Inr (site_cookie s CookieName value ''/'' (ss_ExpiresAt session) 0))"

text \<open>The cookies a handler writes: the session, or one that removes it.\<close>

definition Write :: "Sealer \<Rightarrow> Codec \<Rightarrow> string + string \<Rightarrow> Session \<Rightarrow> string + Cookie list" where
  "Write s codec nonce session = (case CookieFor s codec nonce session of Inl err \<Rightarrow> Inl err | Inr c \<Rightarrow> Inr [c])"

definition Clear :: "Sealer \<Rightarrow> Cookie list" where
  "Clear s = [site_cookie s CookieName [] ''/'' 0 (- 1)]"

definition Read :: "Sealer \<Rightarrow> Codec \<Rightarrow> (string \<times> string) list \<Rightarrow> time \<Rightarrow> SessionError + Session" where
  "Read s codec cookies now =
     (case map_of cookies CookieName of
        None \<Rightarrow> Inl ErrNoSession
      | Some value \<Rightarrow>
          (case OpenJSON s (cd_unmarshal codec) value of
             Inl err \<Rightarrow> Inl err
           | Inr session \<Rightarrow> (case Valid session now of Some err \<Rightarrow> Inl err | None \<Rightarrow> Inr session)))"

section \<open>Middleware\<close>

text \<open>What the next handler sees: the cookies written so far, and the actor of the context.\<close>

definition Middleware ::
  "Sealer \<Rightarrow> Codec \<Rightarrow> (string \<times> string) list \<Rightarrow> time \<Rightarrow> Actor option \<Rightarrow> Cookie list \<times> Actor option" where
  "Middleware s codec cookies now ctx =
     (case Read s codec cookies now of
        Inl err \<Rightarrow> ((if err = ErrTampered \<or> err = ErrSessionExpired then Clear s else []), ctx)
      | Inr session \<Rightarrow> ([], Some (ActorFromSession session)))"

text \<open>The interceptor of the API: a call without an actor is answered before the handler.\<close>

definition RequireActor :: "'e \<Rightarrow> (Actor option \<Rightarrow> 'e + 'a) \<Rightarrow> Actor option \<Rightarrow> 'e + 'a" where
  "RequireActor unauthenticated handler ctx =
     (case FromContext ctx of None \<Rightarrow> Inl unauthenticated | Some _ \<Rightarrow> handler ctx)"

section \<open>The development identity\<close>

definition sessionTTL :: duration where "sessionTTL = 8 * hour"

record DevIdentity =
  di_Subject :: string
  di_Email :: string
  di_Groups :: "string list"

definition ParseDevIdentity :: "string \<Rightarrow> DevIdentity option" where
  "ParseDevIdentity spec =
     (case cut_at (CHR '':'') spec of
        (before, rest, _) \<Rightarrow>
          (let subject = TrimSpace before in
           if subject = [] then None
           else Some \<lparr>di_Subject = subject, di_Email = (if CHR ''@'' \<in> set subject then subject else []),
                     di_Groups = filter (\<lambda>g. g \<noteq> []) (map TrimSpace (split_on (CHR '','') rest))\<rparr>))"

definition dev_session :: "DevIdentity \<Rightarrow> time \<Rightarrow> Session" where
  "dev_session d now =
     \<lparr>ss_Subject = di_Subject d, ss_Email = di_Email d, ss_Groups = di_Groups d, ss_ActiveDivision = [],
      ss_Mode = AuthModeDev, ss_IssuedAt = now, ss_ExpiresAt = now + sessionTTL\<rparr>"

section \<open>Properties\<close>

text \<open>What the cipher and the codec are relied on for: opening undoes sealing, decoding undoes encoding.\<close>

definition seals :: "Sealer \<Rightarrow> bool" where
  "seals s \<longleftrightarrow> (\<forall>n p. length n = sl_NonceSize s \<longrightarrow> sl_open s n (sl_seal s n p) = Some p)"

definition codes :: "Codec \<Rightarrow> bool" where
  "codes c \<longleftrightarrow> (\<forall>session p. cd_marshal c session = Inr p \<longrightarrow> cd_unmarshal c p = Some session)"

lemma OpenJSON_SealJSON:
  assumes "seals s" and "length n = sl_NonceSize s" and "SealJSON s (Inr p) (Inr n) = Inr value"
  shows "OpenJSON s unmarshal value = (case unmarshal p of None \<Rightarrow> Inl ErrTampered | Some x \<Rightarrow> Inr x)"
proof -
  have "b64_decode value = Some (n @ sl_seal s n p)"
    using assms(3) by (auto simp: SealJSON_def)
  with assms(1,2) show ?thesis
    by (simp add: OpenJSON_def seals_def)
qed

lemma capped_simps [simp]: "ss_Subject (capped s) = ss_Subject s" "ss_IssuedAt (capped s) = ss_IssuedAt s"
  by (simp_all add: capped_def)

lemma capped_lifetime: "ss_ExpiresAt (capped s) \<le> ss_IssuedAt s + maxLifetime"
  by (auto simp: capped_def time_sub_def maxLifetime_def hour_def max_i64_def min_i64_def)

lemma capped_idem [simp]: "capped (capped s) = capped s"
proof -
  have "time_sub (ss_IssuedAt s + maxLifetime) (ss_IssuedAt s) = maxLifetime"
    by (simp add: time_sub_def maxLifetime_def hour_def max_i64_def min_i64_def)
  then show ?thesis
    by (simp add: capped_def)
qed

lemma CookieFor_cases:
  assumes "CookieFor s codec nonce session = Inr cookie"
  obtains p n where "cd_marshal codec (capped session) = Inr p" "nonce = Inr n"
    "SealJSON s (Inr p) (Inr n) = Inr (ck_Value cookie)" "ck_Name cookie = CookieName"
    "ck_Expires cookie = ss_ExpiresAt (capped session)"
  using assms by (auto simp: CookieFor_def SealJSON_def Let_def site_cookie_def split: sum.splits)

text \<open>
  C14. A session that was written as a cookie comes back as the same caller on every request made
  up to its expiry, which is never more than twelve hours after it was issued; after that the
  request goes on without a caller and the cookie is removed.
\<close>
theorem session_survives_its_cookie:
  assumes "seals s" and "codes codec" and "length n = sl_NonceSize s" and "ss_Subject session \<noteq> []"
    and "CookieFor s codec (Inr n) session = Inr cookie"
  shows "ck_Expires cookie \<le> ss_IssuedAt session + maxLifetime \<and>
    Middleware s codec [(ck_Name cookie, ck_Value cookie)] now ctx =
      (if now \<le> ck_Expires cookie then ([], Some (ActorFromSession (capped session))) else (Clear s, ctx))"
  using assms(5)
proof (cases rule: CookieFor_cases)
  case (1 p n')
  then have "cd_unmarshal codec p = Some (capped session)"
    using assms(2) by (simp add: codes_def)
  with 1 OpenJSON_SealJSON [OF assms(1,3)] have "OpenJSON s (cd_unmarshal codec) (ck_Value cookie) = Inr (capped session)"
    by (metis option.simps(5) sum.inject(2))
  then show ?thesis
    using 1 assms(4) capped_lifetime [of session] by (simp add: Middleware_def Read_def Valid_def)
qed


text \<open>
  A development identity is refused exactly when it names nobody; otherwise it has that name,
  and only groups that are not blank.
\<close>
theorem ParseDevIdentity_names_someone:
  "(ParseDevIdentity spec = None) = (TrimSpace (takeWhile (\<lambda>c. c \<noteq> CHR '':'') spec) = []) \<and>
   (\<forall>d. ParseDevIdentity spec = Some d \<longrightarrow>
      di_Subject d = TrimSpace (takeWhile (\<lambda>c. c \<noteq> CHR '':'') spec) \<and> di_Subject d \<noteq> [] \<and> [] \<notin> set (di_Groups d))"
proof -
  have "fst (cut_at c s) = takeWhile (\<lambda>x. x \<noteq> c) s" for c s
    by (induction s) (auto split: prod.splits)
  then show ?thesis
    by (auto simp: ParseDevIdentity_def Let_def split: prod.splits) (metis fst_conv)+
qed


section \<open>Examples\<close>

definition example_sealer :: Sealer where
  "example_sealer = \<lparr>sl_NonceSize = 2, sl_seal = (\<lambda>n p. n @ p),
     sl_open = (\<lambda>n c. if take (length n) c = n then Some (drop (length n) c) else None), sl_secure = True\<rparr>"

definition example_session :: Session where
  "example_session = \<lparr>ss_Subject = ''ada'', ss_Email = [], ss_Groups = [''dev''], ss_ActiveDivision = [],
     ss_Mode = AuthModeOIDC, ss_IssuedAt = 100, ss_ExpiresAt = 500\<rparr>"

definition example_codec :: Codec where
  "example_codec = \<lparr>cd_marshal = (\<lambda>s. if s = example_session then Inr ''ada'' else Inl ''other''),
     cd_unmarshal = (\<lambda>p. if p = ''ada'' then Some example_session else None)\<rparr>"

lemma example_sealer_seals: "seals example_sealer" and example_codec_codes: "codes example_codec"
  by (auto simp: seals_def example_sealer_def codes_def example_codec_def split: if_splits)

lemma capped_example [simp]: "capped example_session = example_session"
  by (simp add: capped_def example_session_def time_sub_def maxLifetime_def hour_def is_zero_time_def min_i64_def max_i64_def)

definition example_cookie :: "string + Cookie" where
  "example_cookie = CookieFor example_sealer example_codec (Inr ''ab'') example_session"

lemma example_cookie_value: "\<exists>c. example_cookie = Inr c \<and> ck_Expires c = 500"
  by (simp add: example_cookie_def CookieFor_def SealJSON_def example_codec_def site_cookie_def) (simp add: example_session_def)

theorem session_survives_its_cookie_witness:
  "\<exists>c. example_cookie = Inr c \<and>
     snd (Middleware example_sealer example_codec [(ck_Name c, ck_Value c)] 400 None) = Some (ActorFromSession example_session) \<and>
     fst (Middleware example_sealer example_codec [(ck_Name c, ck_Value c)] 600 None) = Clear example_sealer"
proof -
  obtain c where c: "CookieFor example_sealer example_codec (Inr ''ab'') example_session = Inr c" "ck_Expires c = 500"
    using example_cookie_value by (auto simp: example_cookie_def)
  have n: "length ''ab'' = sl_NonceSize example_sealer" and subject: "ss_Subject example_session \<noteq> []"
    by (simp_all add: example_sealer_def example_session_def)
  note at = session_survives_its_cookie [OF example_sealer_seals example_codec_codes n subject c(1)]
  from at [of 400 None] at [of 600 None] c show ?thesis
    by (simp add: example_cookie_def)
qed

definition strict_sealer :: Sealer where
  "strict_sealer = example_sealer\<lparr>sl_open := (\<lambda>n c. if c = n @ ''ada'' then Some ''ada'' else None)\<rparr>"

definition sealed_value :: string where
  "sealed_value = b64_encode (''ab'' @ ''ab'' @ ''ada'')"


theorem ParseDevIdentity_names_someone_witness:
  "\<exists>d. ParseDevIdentity ''a@b: x,,y'' = Some d \<and> di_Subject d = ''a@b''"
proof -
  have "TrimSpace (takeWhile (\<lambda>c. c \<noteq> CHR '':'') ''a@b: x,,y'') = ''a@b''"
    by code_simp
  then show ?thesis
    using ParseDevIdentity_names_someone [of "''a@b: x,,y''"] by force
qed

end
