(* ===== verification/SignIn.thy ===== *)
theory SignIn
  imports Identity
begin

text \<open>
  Signing in with OpenID Connect: internal/identity/oidc.go, and the login of dev.go. The
  provider, the exchange of the code and the verification of the ID token are arguments (the
  oidc and oauth2 packages); a handler is a function of the request and returns the cookies it
  set and how it answered. \<^verbatim>\<open>parsed_target\<close> is url.Parse as far as safeRedirect looks at it.
\<close>

definition flowCookieName :: string where "flowCookieName = ''margov_auth''"
definition flowLifetime :: duration where "flowLifetime = 10 * minute"

section \<open>Where to go after signing in\<close>

definition is_letter :: "char \<Rightarrow> bool" where
  "is_letter c = (let n = of_char c :: nat in 65 \<le> n \<and> n \<le> 90 \<or> 97 \<le> n \<and> n \<le> 122)"

definition is_ctl :: "char \<Rightarrow> bool" where
  "is_ctl c = (let n = of_char c :: nat in n < 32 \<or> n = 127)"

text \<open>
  The scheme of a URL and what follows it: none when the text does not begin like one, an error
  when it begins with a colon.
\<close>

fun scheme_from :: "bool \<Rightarrow> string \<Rightarrow> (string \<times> string) option option" where
  "scheme_from first [] = Some None"
| "scheme_from first (c # s) =
     (if is_letter c \<or> \<not> first \<and> (is_digit c \<or> c \<in> {CHR ''+'', CHR ''-'', CHR ''.''})
      then map_option (map_option (\<lambda>(scheme, rest). (c # scheme, rest))) (scheme_from False s)
      else if c = CHR '':'' then (if first then None else Some (Some ([], s)))
      else Some None)"

definition user_char :: "char \<Rightarrow> bool" where
  "user_char c = (is_letter c \<or> is_digit c \<or> c \<in> set ''-._:~!$&()*+,;=%@'' \<or> of_char c = (39 :: nat))"

text \<open>
  Whether the authority of a URL has a host. None is an authority that url.Parse refuses; a host
  that it might refuse counts as a host, which makes no difference to the redirect.
\<close>

definition authority_host :: "string \<Rightarrow> bool option" where
  "authority_host authority =
     (case cut_at (CHR ''@'') (rev authority) of
        (host, user, found) \<Rightarrow>
          if host \<noteq> [] then Some True
          else if \<not> found then Some False
          else let (name, password, _) = cut_at (CHR '':'') (rev user) in
            if list_all user_char (rev user) \<and> unescape name \<noteq> None \<and> unescape password \<noteq> None
            then Some False else None)"

text \<open>Whether the URL is absolute, whether it has a host, and its path.\<close>

definition rest_target :: "bool \<Rightarrow> string \<Rightarrow> (bool \<times> bool \<times> string) option" where
  "rest_target scheme rest =
     (if \<not> prefix ''/'' rest \<and> scheme then Some (True, False, [])
      else if \<not> prefix ''/'' rest \<and> CHR '':'' \<in> set (fst (cut_at (CHR ''/'') rest)) then None
      else if (scheme \<or> \<not> prefix ''///'' rest) \<and> prefix ''//'' rest
      then (let authority = takeWhile (\<lambda>c. c \<noteq> CHR ''/'') (drop 2 rest);
                path = dropWhile (\<lambda>c. c \<noteq> CHR ''/'') (drop 2 rest)
            in case (authority_host authority, unescape path) of
                 (Some host, Some p) \<Rightarrow> Some (scheme, host, p)
               | _ \<Rightarrow> None)
      else map_option (\<lambda>p. (scheme, False, p)) (unescape rest))"

definition parsed_target :: "string \<Rightarrow> (bool \<times> bool \<times> string) option" where
  "parsed_target target =
     (case cut_at (CHR ''#'') target of
        (url, fragment, _) \<Rightarrow>
          if unescape fragment = None \<or> list_ex is_ctl url then None
          else if url = ''*'' then Some (False, False, ''*'')
          else (case scheme_from True url of
            None \<Rightarrow> None
          | Some None \<Rightarrow> rest_target False (fst (cut_at (CHR ''?'') url))
          | Some (Some (_, rest)) \<Rightarrow> rest_target True (fst (cut_at (CHR ''?'') rest))))"

definition safeRedirect :: "string \<Rightarrow> string" where
  "safeRedirect target =
     (if target = [] then ''/''
      else case parsed_target target of
        None \<Rightarrow> ''/''
      | Some (absolute, host, path) \<Rightarrow> if absolute \<or> host \<or> \<not> prefix ''/'' path then ''/'' else path)"

section \<open>The claims of an ID token\<close>

datatype Claim = StringClaim string | ListClaim "Claim list" | StringsClaim "string list" | OtherClaim

record IDToken =
  it_Subject :: string
  it_Expiry :: time
  it_Claims :: "string + (string \<times> Claim) list"

fun claim_string :: "Claim \<Rightarrow> string option" where
  "claim_string (StringClaim s) = Some s"
| "claim_string _ = None"

definition stringClaim :: "(string \<times> Claim) list \<Rightarrow> string \<Rightarrow> string" where
  "stringClaim claims name =
     (case Option.bind (map_of claims name) claim_string of None \<Rightarrow> [] | Some s \<Rightarrow> s)"

definition stringsClaim :: "(string \<times> Claim) list \<Rightarrow> string \<Rightarrow> string list" where
  "stringsClaim claims name =
     (case map_of claims name of
        Some (ListClaim items) \<Rightarrow> filter (\<lambda>g. g \<noteq> []) (List.map_filter claim_string items)
      | Some (StringsClaim gs) \<Rightarrow> gs
      | Some (StringClaim s) \<Rightarrow> if s = [] then [] else split_on (CHR '','') s
      | _ \<Rightarrow> [])"

definition sessionFrom :: "string \<Rightarrow> string \<Rightarrow> time \<Rightarrow> IDToken \<Rightarrow> string + Session" where
  "sessionFrom usernameClaim groupsClaim now token =
     (case it_Claims token of
        Inl err \<Rightarrow> Inl (''decode claims: '' @ err)
      | Inr claims \<Rightarrow>
          (let expires = (if is_zero_time (it_Expiry token) \<or> it_Expiry token > now + sessionTTL
                          then now + sessionTTL else it_Expiry token);
               session = \<lparr>ss_Subject = it_Subject token, ss_Email = stringClaim claims usernameClaim,
                 ss_Groups = stringsClaim claims groupsClaim, ss_ActiveDivision = [], ss_Mode = AuthModeOIDC,
                 ss_IssuedAt = now, ss_ExpiresAt = expires\<rparr>
           in if ss_Subject session = [] then Inl ''the id token carries no subject'' else Inr session))"

section \<open>The configuration\<close>

record OIDCConfig =
  oc_IssuerURL :: string
  oc_ClientID :: string
  oc_RedirectURL :: string
  oc_Scopes :: "string list"
  oc_GroupsClaim :: string
  oc_UsernameClaim :: string

text \<open>An argument stands for the discovery of the provider, which can fail.\<close>

definition NewAuthenticator :: "(string \<Rightarrow> string option) \<Rightarrow> OIDCConfig \<Rightarrow> string + OIDCConfig" where
  "NewAuthenticator discover cfg =
     (if oc_IssuerURL cfg = [] \<or> oc_ClientID cfg = [] \<or> oc_RedirectURL cfg = []
      then Inl ''oidc needs an issuer, a client id and a redirect url''
      else case discover (oc_IssuerURL cfg) of
        Some err \<Rightarrow> Inl (''discover the oidc provider at '' @ oc_IssuerURL cfg @ '': '' @ err)
      | None \<Rightarrow> Inr (cfg
          \<lparr>oc_Scopes := (if oc_Scopes cfg = [] then [''openid'', ''profile'', ''email'', ''groups''] else oc_Scopes cfg),
           oc_GroupsClaim := (if oc_GroupsClaim cfg = [] then ''groups'' else oc_GroupsClaim cfg),
           oc_UsernameClaim := (if oc_UsernameClaim cfg = [] then ''email'' else oc_UsernameClaim cfg)\<rparr>))"

section \<open>The handlers\<close>

datatype Response = HttpError int string | RedirectTo string | NoContent

record FlowState =
  fl_State :: string
  fl_Verifier :: string
  fl_Redirect :: string
  fl_ExpiresAt :: time

definition clearFlow :: "Sealer \<Rightarrow> Cookie list" where
  "clearFlow s = [site_cookie s flowCookieName [] ''/auth'' 0 (- 1)]"

definition randomToken :: "string + string \<Rightarrow> string + string" where
  "randomToken raw = (case raw of Inl err \<Rightarrow> Inl (''generate token: '' @ err) | Inr bytes \<Rightarrow> Inr (b64_encode bytes))"

definition login ::
  "Sealer \<Rightarrow> (FlowState \<Rightarrow> string + string) \<Rightarrow> (string \<Rightarrow> string \<Rightarrow> string) \<Rightarrow>
   string + string \<Rightarrow> string \<Rightarrow> string + string \<Rightarrow> time \<Rightarrow> string \<Rightarrow> Cookie list \<times> Response" where
  "login s marshal_flow auth_url raw verifier nonce now redirect =
     (case randomToken raw of
        Inl _ \<Rightarrow> ([], HttpError 500 ''cannot start sign in'')
      | Inr state \<Rightarrow>
          (let flow = \<lparr>fl_State = state, fl_Verifier = verifier, fl_Redirect = safeRedirect redirect,
                       fl_ExpiresAt = now + flowLifetime\<rparr>
           in case SealJSON s (marshal_flow flow) nonce of
                Inl _ \<Rightarrow> ([], HttpError 500 ''cannot start sign in'')
              | Inr sealed \<Rightarrow>
                  ([site_cookie s flowCookieName sealed ''/auth'' (fl_ExpiresAt flow) 0],
                   RedirectTo (auth_url state verifier))))"

record Callback =
  cb_cookies :: "(string \<times> string) list"
  cb_state :: string
  cb_error :: string
  cb_code :: string

text \<open>
  The provider: exchanging a code with its verifier gives the raw ID token, none when the token
  has none, and verifying that gives the token.
\<close>

record Provider =
  pr_exchange :: "string \<Rightarrow> string \<Rightarrow> string + string option"
  pr_verify :: "string \<Rightarrow> string + IDToken"

definition callback ::
  "Sealer \<Rightarrow> Codec \<Rightarrow> (string \<Rightarrow> FlowState option) \<Rightarrow> OIDCConfig \<Rightarrow> Provider \<Rightarrow> string + string \<Rightarrow> time \<Rightarrow> Callback \<Rightarrow>
   Cookie list \<times> Response" where
  "callback s codec unmarshal_flow cfg provider nonce now req =
     (case map_of (cb_cookies req) flowCookieName of
        None \<Rightarrow> ([], HttpError 400 ''sign in did not start here'')
      | Some sealed \<Rightarrow>
     (case OpenJSON s unmarshal_flow sealed of
        Inl _ \<Rightarrow> ([], HttpError 400 ''sign in did not start here'')
      | Inr flow \<Rightarrow>
     (if now > fl_ExpiresAt flow then (clearFlow s, HttpError 400 ''sign in took too long, try again'')
      else if cb_state req \<noteq> fl_State flow then (clearFlow s, HttpError 400 ''the sign in state does not match'')
      else if cb_error req \<noteq> [] then (clearFlow s, HttpError 401 (''the identity provider refused: '' @ cb_error req))
      else (case pr_exchange provider (cb_code req) (fl_Verifier flow) of
        Inl _ \<Rightarrow> (clearFlow s, HttpError 401 ''the identity provider refused the code'')
      | Inr None \<Rightarrow> (clearFlow s, HttpError 401 ''the identity provider returned no id token'')
      | Inr (Some raw) \<Rightarrow>
     (case pr_verify provider raw of
        Inl _ \<Rightarrow> (clearFlow s, HttpError 401 ''the id token does not verify'')
      | Inr token \<Rightarrow>
     (case sessionFrom (oc_UsernameClaim cfg) (oc_GroupsClaim cfg) now token of
        Inl _ \<Rightarrow> (clearFlow s, HttpError 401 ''the id token is missing the claims we need'')
      | Inr session \<Rightarrow>
     (case Write s codec nonce session of
        Inl _ \<Rightarrow> (clearFlow s, HttpError 500 ''cannot start the session'')
      | Inr cookies \<Rightarrow> (clearFlow s @ cookies, RedirectTo (fl_Redirect flow)))))))))"

definition logout :: "Sealer \<Rightarrow> Cookie list \<times> Response" where
  "logout s = (Clear s, NoContent)"

definition dev_login :: "Sealer \<Rightarrow> Codec \<Rightarrow> string + string \<Rightarrow> DevIdentity \<Rightarrow> time \<Rightarrow> Cookie list \<times> Response" where
  "dev_login s codec nonce d now =
     (case Write s codec nonce (dev_session d now) of
        Inl _ \<Rightarrow> ([], HttpError 500 ''cannot start the session'')
      | Inr cookies \<Rightarrow> (cookies, RedirectTo ''/''))"

section \<open>Properties\<close>

lemma fst_cut_at: "fst (cut_at c s) = takeWhile (\<lambda>x. x \<noteq> c) s"
  by (induction s) (auto split: prod.splits)

lemma cut_at_absent: "c \<notin> set s \<Longrightarrow> cut_at c s = (s, [], False)"
  by (induction s) auto

lemma unescape_plain: "CHR ''%'' \<notin> set s \<Longrightarrow> unescape s = Some s"
  by (induction s) auto

lemma authority_host_plain: "CHR ''@'' \<notin> set a \<Longrightarrow> authority_host a = Some (a \<noteq> [])"
  by (simp add: authority_host_def cut_at_absent)

text \<open>The path of a target that is not absolute and names no host, when nothing is escaped.\<close>

lemma rest_target_path:
  assumes "CHR ''%'' \<notin> set rest" and "CHR ''@'' \<notin> set rest"
    and "rest_target scheme rest = Some (False, False, path)"
  shows "prefix ''//'' path \<longrightarrow> prefix ''///'' path"
proof (cases "prefix ''//'' rest \<and> \<not> prefix ''///'' rest")
  case True
  then obtain s where rest: "rest = ''//'' @ s" and s: "\<not> prefix ''/'' s"
    by (auto simp: prefix_def)
  have "authority_host (takeWhile (\<lambda>c. c \<noteq> CHR ''/'') s) = Some (takeWhile (\<lambda>c. c \<noteq> CHR ''/'') s \<noteq> [])"
    using assms(2) by (intro authority_host_plain) (auto simp: rest dest: set_takeWhileD)
  moreover have "takeWhile (\<lambda>c. c \<noteq> CHR ''/'') s = [] \<longrightarrow> s = []"
    using s by (cases s) (auto split: if_splits)
  ultimately show ?thesis
    using assms(3) True by (cases "s = []") (auto simp: rest rest_target_def Let_def split: option.splits if_splits)
next
  case False
  with assms show ?thesis
    by (auto simp: rest_target_def unescape_plain Let_def split: if_splits option.splits)
qed

lemma parsed_target_path:
  assumes "CHR ''%'' \<notin> set target" and "CHR ''@'' \<notin> set target"
    and "parsed_target target = Some (False, False, path)"
  shows "prefix ''//'' path \<longrightarrow> prefix ''///'' path"
proof -
  obtain url fragment f where cut: "cut_at (CHR ''#'') target = (url, fragment, f)"
    by (metis prod_cases3)
  then have url: "set url \<subseteq> set target"
    using fst_cut_at [of "CHR ''#''" target] by (auto dest: set_takeWhileD)
  have sub: "set (fst (cut_at c s)) \<subseteq> set s" for c s
    by (auto simp: fst_cut_at dest: set_takeWhileD)
  have no_scheme: "rest_target True s \<noteq> Some (False, False, path)" for s
    by (auto simp: rest_target_def Let_def split: option.splits)
  have "url = ''*'' \<and> path = ''*'' \<or> rest_target False (fst (cut_at (CHR ''?'') url)) = Some (False, False, path)"
    using assms(3) cut no_scheme by (auto simp: parsed_target_def split: if_splits option.splits)
  then show ?thesis
    using rest_target_path [of "fst (cut_at (CHR ''?'') url)" False path] sub [of "CHR ''?''" url] url assms(1,2)
    by auto
qed

text \<open>
  After signing in the browser is sent to a path of this site: the target begins with a slash
  whatever was asked for, and as long as it has no escapes and no at-sign it begins with two
  slashes only when a third follows, so that it names no other host.
\<close>
theorem redirect_stays_on_the_site:
  "prefix ''/'' (safeRedirect target) \<and>
   (CHR ''%'' \<notin> set target \<and> CHR ''@'' \<notin> set target \<longrightarrow>
      prefix ''//'' (safeRedirect target) \<longrightarrow> prefix ''///'' (safeRedirect target))"
  using parsed_target_path [of target] by (auto simp: safeRedirect_def split: option.splits)

theorem redirect_stays_on_the_site_witness:
  "prefix ''/'' (safeRedirect ''/catalog?x=1'') \<and> \<not> prefix ''//'' (safeRedirect ''/catalog?x=1'')"
proof -
  have "\<not> prefix ''///'' (safeRedirect ''/catalog?x=1'')"
    by code_simp
  then show ?thesis
    using redirect_stays_on_the_site [of "''/catalog?x=1''"] by simp
qed

text \<open>With an escaped slash, or an empty user, the path is that of another host.\<close>

lemma safeRedirect_can_name_a_host:
  "safeRedirect ''/%2Fevil.example'' = ''//evil.example'' \<and> safeRedirect ''//@//evil.example'' = ''//evil.example''"
  by code_simp

text \<open>
  C15. A callback writes a session only after the sign in started in this browser: the flow cookie
  opens, it is not older than ten minutes, the state is the one it carries, the provider did
  not refuse, it exchanged the code for a token with the verifier of the flow and that token
  verifies; the session is for the subject of the token and lasts eight hours at most. The
  browser then goes where the flow said.
\<close>
theorem callback_signs_in_only_its_own_flow:
  assumes "callback s codec unmarshal_flow cfg provider nonce now req = (cookies, response)"
    and "\<exists>c \<in> set cookies. ck_Name c = CookieName"
  shows "\<exists>sealed flow raw token session.
    map_of (cb_cookies req) flowCookieName = Some sealed \<and> OpenJSON s unmarshal_flow sealed = Inr flow \<and>
    now \<le> fl_ExpiresAt flow \<and> cb_state req = fl_State flow \<and> cb_error req = [] \<and>
    pr_exchange provider (cb_code req) (fl_Verifier flow) = Inr (Some raw) \<and> pr_verify provider raw = Inr token \<and>
    it_Subject token \<noteq> [] \<and> ss_Subject session = it_Subject token \<and> ss_ExpiresAt session \<le> now + sessionTTL \<and>
    (\<exists>c. CookieFor s codec nonce session = Inr c \<and> cookies = clearFlow s @ [c]) \<and> response = RedirectTo (fl_Redirect flow)"
proof -
  have no_flow: "ck_Name c \<noteq> CookieName" if "c \<in> set (clearFlow s)" for c
    using that by (auto simp: clearFlow_def site_cookie_def flowCookieName_def CookieName_def)
  obtain sealed flow where flow: "map_of (cb_cookies req) flowCookieName = Some sealed"
      "OpenJSON s unmarshal_flow sealed = Inr flow" "now \<le> fl_ExpiresAt flow" "cb_state req = fl_State flow" "cb_error req = []"
    using assms no_flow by (auto simp: callback_def split: option.splits sum.splits if_splits)
  then obtain raw token where token: "pr_exchange provider (cb_code req) (fl_Verifier flow) = Inr (Some raw)"
      "pr_verify provider raw = Inr token"
    using assms no_flow by (auto simp: callback_def split: option.splits sum.splits)
  with flow obtain session c where session: "sessionFrom (oc_UsernameClaim cfg) (oc_GroupsClaim cfg) now token = Inr session"
      "CookieFor s codec nonce session = Inr c" "cookies = clearFlow s @ [c]" "response = RedirectTo (fl_Redirect flow)"
    using assms no_flow by (auto simp: callback_def Write_def split: option.splits sum.splits)
  then have "it_Subject token \<noteq> []" "ss_Subject session = it_Subject token" "ss_ExpiresAt session \<le> now + sessionTTL"
    by (auto simp: sessionFrom_def Let_def split: sum.splits if_splits)
  with flow token session show ?thesis by blast
qed


definition example_flow :: FlowState where
  "example_flow = \<lparr>fl_State = ''st'', fl_Verifier = ''vf'', fl_Redirect = ''/home'', fl_ExpiresAt = 300\<rparr>"

definition example_token :: IDToken where
  "example_token = \<lparr>it_Subject = ''ada'', it_Expiry = 500, it_Claims = Inr [(''groups'', ListClaim [StringClaim ''dev'', OtherClaim])]\<rparr>"

definition example_callback :: "Cookie list \<times> Response" where
  "example_callback =
     callback example_sealer example_codec (\<lambda>p. if p = ''f'' then Some example_flow else None)
       \<lparr>oc_IssuerURL = ''i'', oc_ClientID = ''c'', oc_RedirectURL = ''r'', oc_Scopes = [], oc_GroupsClaim = ''groups'',
        oc_UsernameClaim = ''email''\<rparr>
       \<lparr>pr_exchange = (\<lambda>code verifier. if code = ''cd'' \<and> verifier = ''vf'' then Inr (Some ''tok'') else Inl ''no''),
        pr_verify = (\<lambda>raw. Inr example_token)\<rparr>
       (Inr ''xy'') 100
       \<lparr>cb_cookies = [(flowCookieName, b64_encode (''ab'' @ ''ab'' @ ''f''))], cb_state = ''st'', cb_error = [], cb_code = ''cd''\<rparr>"

lemma example_session_from:
  "sessionFrom ''email'' ''groups'' 100 example_token = Inr example_session"
  by (simp add: sessionFrom_def example_token_def stringClaim_def stringsClaim_def List.map_filter_def example_session_def
      is_zero_time_def sessionTTL_def hour_def)

theorem callback_signs_in_only_its_own_flow_witness:
  "snd example_callback = RedirectTo ''/home'' \<and> (\<exists>c \<in> set (fst example_callback). ck_Name c = CookieName)"
proof -
  let ?unmarshal = "\<lambda>p. if p = ''f'' then Some example_flow else None"
  let ?sealed = "b64_encode (''ab'' @ ''ab'' @ ''f'')"
  have sealed: "OpenJSON example_sealer ?unmarshal ?sealed = Inr example_flow"
    by (simp add: OpenJSON_def example_sealer_def del: b64_encode.simps append.simps)
  obtain c where c: "CookieFor example_sealer example_codec (Inr ''xy'') example_session = Inr c" "ck_Name c = CookieName"
    by (auto simp: CookieFor_def SealJSON_def example_codec_def site_cookie_def)
  have run: "\<exists>c \<in> set (fst example_callback). ck_Name c = CookieName"
    using sealed c example_session_from
    by (simp add: example_callback_def callback_def Write_def del: b64_encode.simps append.simps)
      (simp add: example_flow_def)
  obtain cookies response where pair: "example_callback = (cookies, response)"
    by fastforce
  then have "\<exists>c \<in> set cookies. ck_Name c = CookieName"
    using run by (metis fst_conv)
  from callback_signs_in_only_its_own_flow [OF pair [unfolded example_callback_def] this] sealed
  have "response = RedirectTo (fl_Redirect example_flow)"
    by (auto simp del: b64_encode.simps append.simps)
  then have "snd example_callback = RedirectTo ''/home''"
    using pair by (metis example_flow_def FlowState.select_convs(3) snd_conv)
  with run show ?thesis by blast
qed

end
