(* ===== verification/Access.thy ===== *)
theory Access
  imports Identity
begin

text \<open>
  What a caller may see: internal/identity/authorizer.go, which asks Kubernetes on the caller's
  behalf and keeps the answers for a while, and internal/identity/service.go, which turns the
  answers and the grants of the divisions into memberships. The answers of Kubernetes may change
  with time, so the review is a function of the time it is asked at; one reading of the clock
  serves a call.
\<close>

section \<open>The authorizer\<close>

record Scope =
  AllowAll :: bool
  sc_Namespaces :: "string list"

fun allows_from :: "string list \<Rightarrow> string \<Rightarrow> bool" where
  "allows_from [] namespace = False"
| "allows_from (a # as) namespace = (if a = namespace then True else allows_from as namespace)"

definition Scope_Allows :: "Scope \<Rightarrow> string \<Rightarrow> bool" where
  "Scope_Allows s namespace = (if AllowAll s then True else allows_from (sc_Namespaces s) namespace)"

text \<open>Building a client for a caller, and the answer to the access review it sends.\<close>

record Reviewer =
  rv_client :: "string \<Rightarrow> string list \<Rightarrow> string option"
  rv_allowed :: "time \<Rightarrow> string \<Rightarrow> string list \<Rightarrow> string \<Rightarrow> string + bool"

type_synonym cache = "string \<rightharpoonup> bool \<times> time"

definition NewAuthorizer :: "duration \<Rightarrow> duration \<times> cache" where
  "NewAuthorizer ttl = ((if ttl \<le> 0 then minute else ttl), Map.empty)"

definition cached :: "duration \<Rightarrow> cache \<Rightarrow> time \<Rightarrow> string \<Rightarrow> bool option" where
  "cached ttl cache now key =
     (case cache key of
        None \<Rightarrow> None
      | Some (answer, asked) \<Rightarrow> if time_sub now asked > ttl then None else Some answer)"

definition cache_key :: "Actor \<Rightarrow> string \<Rightarrow> string" where
  "cache_key actor namespace = ac_Subject actor @ ''|'' @ namespace"

definition allowed ::
  "Reviewer \<Rightarrow> duration \<Rightarrow> time \<Rightarrow> Actor \<Rightarrow> string \<Rightarrow> cache \<Rightarrow> (string + bool) \<times> cache" where
  "allowed rv ttl now actor namespace cache =
     (case cached ttl cache now (cache_key actor namespace) of
        Some answer \<Rightarrow> (Inr answer, cache)
      | None \<Rightarrow>
          (case rv_client rv (ac_Subject actor) (ac_Groups actor) of
             Some err \<Rightarrow> (Inl (''build a client for '' @ Label actor @ '': '' @ err), cache)
           | None \<Rightarrow>
               (case rv_allowed rv now (ac_Subject actor) (ac_Groups actor) namespace of
                  Inl err \<Rightarrow> (Inl (''ask kubernetes whether '' @ Label actor @ '' may list workloads in '' @
                                 [CHR 0x22] @ namespace @ [CHR 0x22] @ '': '' @ err), cache)
                | Inr answer \<Rightarrow> (Inr answer, cache(cache_key actor namespace \<mapsto> (answer, now))))))"

fun scan_namespaces ::
  "Reviewer \<Rightarrow> duration \<Rightarrow> time \<Rightarrow> Actor \<Rightarrow> string list \<Rightarrow> cache \<Rightarrow> (string + string list) \<times> cache" where
  "scan_namespaces rv ttl now actor [] cache = (Inr [], cache)"
| "scan_namespaces rv ttl now actor (namespace # rest) cache =
     (case allowed rv ttl now actor namespace cache of
        (Inl err, cache) \<Rightarrow> (Inl err, cache)
      | (Inr ok, cache) \<Rightarrow>
          (case scan_namespaces rv ttl now actor rest cache of
             (Inl err, cache) \<Rightarrow> (Inl err, cache)
           | (Inr found, cache) \<Rightarrow> (Inr (if ok then namespace # found else found), cache)))"

definition ScopeFor ::
  "Reviewer \<Rightarrow> duration \<Rightarrow> time \<Rightarrow> Actor \<Rightarrow> string list \<Rightarrow> cache \<Rightarrow> (string + Scope) \<times> cache" where
  "ScopeFor rv ttl now actor candidates cache =
     (case allowed rv ttl now actor [] cache of
        (Inl err, cache) \<Rightarrow> (Inl err, cache)
      | (Inr True, cache) \<Rightarrow> (Inr \<lparr>AllowAll = True, sc_Namespaces = []\<rparr>, cache)
      | (Inr False, cache) \<Rightarrow>
          (case scan_namespaces rv ttl now actor candidates cache of
             (Inl err, cache) \<Rightarrow> (Inl err, cache)
           | (Inr found, cache) \<Rightarrow> (Inr \<lparr>AllowAll = False, sc_Namespaces = found\<rparr>, cache)))"

section \<open>The service\<close>

record AccessGrant =
  ag_Role :: string
  ag_Group :: string

record DivisionAccess =
  da_Division :: string
  da_DisplayName :: string
  da_Grants :: "AccessGrant list"
  da_Namespaces :: "string list"

record Membership =
  mb_Division :: string
  mb_DisplayName :: string
  mb_Roles :: "string list"
  mb_Namespaces :: "string list"

datatype access_error = Unauthenticated | PermissionDenied string | Internal string | Unavailable string

datatype MemberRole = ROLE_ADMIN | ROLE_OPERATOR | ROLE_VIEWER | ROLE_APPROVER

datatype SessionAuthMode = AUTH_MODE_OIDC | AUTH_MODE_DEV | AUTH_MODE_UNSPECIFIED

fun authMode :: "AuthMode \<Rightarrow> SessionAuthMode" where
  "authMode AuthModeOIDC = AUTH_MODE_OIDC"
| "authMode AuthModeDev = AUTH_MODE_DEV"
| "authMode NoAuthMode = AUTH_MODE_UNSPECIFIED"

definition proto_role :: "string \<Rightarrow> MemberRole option" where
  "proto_role role =
     (if role = ''admin'' then Some ROLE_ADMIN else if role = ''operator'' then Some ROLE_OPERATOR
      else if role = ''viewer'' then Some ROLE_VIEWER else if role = ''approver'' then Some ROLE_APPROVER else None)"

definition protoRoles :: "string list \<Rightarrow> MemberRole list" where
  "protoRoles roles = List.map_filter proto_role roles"

fun roles_from :: "Actor \<Rightarrow> AccessGrant list \<Rightarrow> string list \<Rightarrow> string list" where
  "roles_from actor [] roles = roles"
| "roles_from actor (g # gs) roles =
     roles_from actor gs (if InGroup actor (ag_Group g) \<and> ag_Role g \<notin> set roles then roles @ [ag_Role g] else roles)"

definition membership :: "Actor \<Rightarrow> Scope \<Rightarrow> DivisionAccess \<Rightarrow> Membership option" where
  "membership actor scope division =
     (let roles = roles_from actor (da_Grants division) [];
          visible = filter (Scope_Allows scope) (da_Namespaces division)
      in if roles = [] \<and> visible = [] then None
         else Some \<lparr>mb_Division = da_Division division, mb_DisplayName = da_DisplayName division,
                    mb_Roles = roles, mb_Namespaces = visible\<rparr>)"

record AccessDeps =
  ad_reviewer :: Reviewer
  ad_ttl :: duration
  ad_divisions :: "string + DivisionAccess list"

definition membershipsOf ::
  "AccessDeps \<Rightarrow> time \<Rightarrow> Actor \<Rightarrow> cache \<Rightarrow> (access_error + Membership list \<times> bool) \<times> cache" where
  "membershipsOf deps now actor cache =
     (case ad_divisions deps of
        Inl err \<Rightarrow> (Inl (Internal err), cache)
      | Inr access \<Rightarrow>
          (case ScopeFor (ad_reviewer deps) (ad_ttl deps) now actor (concat (map da_Namespaces access)) cache of
             (Inl err, cache) \<Rightarrow> (Inl (Unavailable err), cache)
           | (Inr scope, cache) \<Rightarrow> (Inr (List.map_filter (membership actor scope) access, AllowAll scope), cache)))"

text \<open>The namespaces a service may show: only those of divisions in which the caller has a grant are asked for.\<close>

definition service_Scope :: "AccessDeps \<Rightarrow> time \<Rightarrow> Actor \<Rightarrow> cache \<Rightarrow> (string + Scope) \<times> cache" where
  "service_Scope deps now actor cache =
     (case ad_divisions deps of
        Inl err \<Rightarrow> (Inl err, cache)
      | Inr access \<Rightarrow>
          ScopeFor (ad_reviewer deps) (ad_ttl deps) now actor
            (concat (map da_Namespaces (filter (\<lambda>d. list_ex (\<lambda>g. InGroup actor (ag_Group g)) (da_Grants d)) access))) cache)"

record DivisionMembership =
  dm_Division :: string
  dm_DisplayName :: string
  dm_Roles :: "MemberRole list"
  dm_Namespaces :: "string list"

record SessionView =
  sv_Subject :: string
  sv_Groups :: "string list"
  sv_ActingDivision :: string
  sv_ActiveDivision :: string
  sv_PlatformApprover :: bool
  sv_AuthMode :: SessionAuthMode
  sv_ExpiresAt :: "time option"
  sv_Memberships :: "DivisionMembership list"

definition describe_session ::
  "AccessDeps \<Rightarrow> time \<Rightarrow> Actor \<Rightarrow> cache \<Rightarrow> (access_error + SessionView) \<times> cache" where
  "describe_session deps now actor cache =
     (case membershipsOf deps now actor cache of
        (Inl err, cache) \<Rightarrow> (Inl err, cache)
      | (Inr (memberships, approver), cache) \<Rightarrow>
          (Inr \<lparr>sv_Subject = Label actor, sv_Groups = ac_Groups actor, sv_ActingDivision = ac_ActiveDivision actor,
                sv_ActiveDivision =
                  (if ac_ActiveDivision actor = []
                   then (case memberships of [] \<Rightarrow> [] | m # _ \<Rightarrow> mb_Division m) else ac_ActiveDivision actor),
                sv_PlatformApprover = approver, sv_AuthMode = authMode (ac_Mode actor),
                sv_ExpiresAt = (if is_zero_time (ac_ExpiresAt actor) then None else Some (ac_ExpiresAt actor)),
                sv_Memberships = map (\<lambda>m. \<lparr>dm_Division = mb_Division m, dm_DisplayName = mb_DisplayName m,
                    dm_Roles = protoRoles (mb_Roles m), dm_Namespaces = mb_Namespaces m\<rparr>) memberships\<rparr>, cache))"

definition GetSession ::
  "AccessDeps \<Rightarrow> time \<Rightarrow> Actor option \<Rightarrow> cache \<Rightarrow> (access_error + SessionView) \<times> cache" where
  "GetSession deps now ctx cache =
     (case FromContext ctx of None \<Rightarrow> (Inl Unauthenticated, cache) | Some actor \<Rightarrow> describe_session deps now actor cache)"

definition SwitchDivision ::
  "AccessDeps \<Rightarrow> Sealer \<Rightarrow> Codec \<Rightarrow> string + string \<Rightarrow> time \<Rightarrow> Actor option \<Rightarrow> string \<Rightarrow> cache \<Rightarrow>
   (access_error + SessionView \<times> Cookie) \<times> cache" where
  "SwitchDivision deps s codec nonce now ctx wanted cache =
     (case FromContext ctx of
        None \<Rightarrow> (Inl Unauthenticated, cache)
      | Some actor \<Rightarrow>
     (case membershipsOf deps now actor cache of
        (Inl err, cache) \<Rightarrow> (Inl err, cache)
      | (Inr (memberships, _), cache) \<Rightarrow>
     (if \<not> list_ex (\<lambda>m. mb_Division m = wanted) memberships
      then (Inl (PermissionDenied (Label actor @ '' is not a member of '' @ wanted)), cache)
      else let actor = actor\<lparr>ac_ActiveDivision := wanted\<rparr>
           in case CookieFor s codec nonce (SessionFromActor now actor) of
                Inl err \<Rightarrow> (Inl (Internal err), cache)
              | Inr cookie \<Rightarrow>
                  (case describe_session deps now actor cache of
                     (Inl err, cache) \<Rightarrow> (Inl err, cache)
                   | (Inr described, cache) \<Rightarrow> (Inr (described, cookie), cache)))))"

section \<open>Properties of the authorizer\<close>

text \<open>The caches that calls of ScopeFor leave behind, as the clock goes on.\<close>

inductive asked :: "Reviewer \<Rightarrow> duration \<Rightarrow> time \<Rightarrow> cache \<Rightarrow> bool" for rv ttl where
  start: "asked rv ttl now Map.empty"
| later: "asked rv ttl now cache \<Longrightarrow> now \<le> now' \<Longrightarrow>
    \<forall>namespace \<in> set candidates. CHR ''|'' \<notin> set namespace \<Longrightarrow>
    asked rv ttl now' (snd (ScopeFor rv ttl now' actor candidates cache))"

text \<open>Every kept answer was given by Kubernetes to that subject for that namespace at the time it bears.\<close>

definition backed :: "Reviewer \<Rightarrow> time \<Rightarrow> cache \<Rightarrow> bool" where
  "backed rv now cache \<longleftrightarrow>
     (\<forall>key answer t. cache key = Some (answer, t) \<longrightarrow>
        t \<le> now \<and> (\<exists>subject groups namespace. key = subject @ ''|'' @ namespace \<and> CHR ''|'' \<notin> set namespace \<and>
                     rv_allowed rv t subject groups namespace = Inr answer))"

lemma key_inject:
  assumes "s1 @ ''|'' @ n1 = s2 @ ''|'' @ n2" and "CHR ''|'' \<notin> set n1" and "CHR ''|'' \<notin> set n2"
  shows "s1 = s2 \<and> n1 = n2"
proof -
  have first: "takeWhile (\<lambda>c. c \<noteq> CHR ''|'') (rev n @ CHR ''|'' # rev s) = rev n" if "CHR ''|'' \<notin> set n" for n s
    using that by (simp add: takeWhile_append)
  have "rev n1 @ CHR ''|'' # rev s1 = rev n2 @ CHR ''|'' # rev s2"
    using arg_cong [OF assms(1), of rev] by simp
  with first [OF assms(2)] first [OF assms(3)] have "rev n1 = rev n2"
    by metis
  with assms(1) show ?thesis by simp
qed

text \<open>An answer for a namespace: given to the subject at most the time to live ago.\<close>

definition recent_answer :: "Reviewer \<Rightarrow> duration \<Rightarrow> time \<Rightarrow> string \<Rightarrow> string \<Rightarrow> bool \<Rightarrow> bool" where
  "recent_answer rv ttl now subject namespace answer \<longleftrightarrow>
     (\<exists>t groups. t \<le> now \<and> time_sub now t \<le> ttl \<and> rv_allowed rv t subject groups namespace = Inr answer)"

lemma allowed_backed:
  assumes "backed rv now cache" and "CHR ''|'' \<notin> set namespace" and "0 \<le> ttl"
    and "allowed rv ttl now actor namespace cache = (r, cache')"
  shows "backed rv now cache'"
    and "r = Inr answer \<Longrightarrow> recent_answer rv ttl now (ac_Subject actor) namespace answer"
proof -
  consider "cache' = cache" | b where "cache' = cache(cache_key actor namespace \<mapsto> (b, now))"
      "rv_allowed rv now (ac_Subject actor) (ac_Groups actor) namespace = Inr b"
    using assms(4) by (auto simp: allowed_def split: option.splits sum.splits)
  then show "backed rv now cache'"
  proof cases
    case 2
    then show ?thesis
      using assms(1,2) by (fastforce simp: backed_def cache_key_def split: if_splits)
  qed (use assms(1) in simp)
  have now: "time_sub now now = 0"
    by (simp add: time_sub_def min_i64_def max_i64_def)
  assume "r = Inr answer"
  then consider (kept) "cached ttl cache now (cache_key actor namespace) = Some answer"
    | (fresh) "rv_allowed rv now (ac_Subject actor) (ac_Groups actor) namespace = Inr answer"
    using assms(4) by (auto simp: allowed_def split: option.splits sum.splits)
  then show "recent_answer rv ttl now (ac_Subject actor) namespace answer"
  proof cases
    case kept
    then obtain t where t: "cache (cache_key actor namespace) = Some (answer, t)" "time_sub now t \<le> ttl"
      by (auto simp: cached_def split: option.splits if_splits)
    with assms(1) obtain subject groups namespace' where
      "ac_Subject actor @ ''|'' @ namespace = subject @ ''|'' @ namespace'" "CHR ''|'' \<notin> set namespace'"
      "rv_allowed rv t subject groups namespace' = Inr answer" "t \<le> now"
      unfolding backed_def cache_key_def by blast
    with key_inject assms(2) t(2) show ?thesis
      unfolding recent_answer_def by blast
  next
    case fresh
    with now assms(3) show ?thesis
      unfolding recent_answer_def by (intro exI [of _ now]) auto
  qed
qed

lemma scan_backed:
  assumes "backed rv now cache" and "\<forall>n \<in> set candidates. CHR ''|'' \<notin> set n" and "0 \<le> ttl"
    and "scan_namespaces rv ttl now actor candidates cache = (r, cache')"
  shows "backed rv now cache' \<and> (\<forall>found. r = Inr found \<longrightarrow> set found \<subseteq> set candidates \<and>
    (\<forall>n \<in> set candidates. recent_answer rv ttl now (ac_Subject actor) n True \<or> n \<notin> set found) \<and>
    (\<forall>n \<in> set candidates. recent_answer rv ttl now (ac_Subject actor) n False \<or> n \<in> set found))"
  using assms
proof (induction candidates arbitrary: cache r cache')
  case Nil
  then show ?case by auto
next
  case (Cons n rest)
  obtain a c1 where a: "allowed rv ttl now actor n cache = (a, c1)" by fastforce
  obtain b c2 where b: "scan_namespaces rv ttl now actor rest c1 = (b, c2)" by fastforce
  note head = allowed_backed [OF Cons.prems(1) _ Cons.prems(3) a]
  have "backed rv now c1" using head(1) Cons.prems(2) by simp
  from Cons.IH [OF this _ Cons.prems(3) b] Cons.prems(2)
  have rest: "backed rv now c2" "\<And>found. b = Inr found \<Longrightarrow> set found \<subseteq> set rest \<and>
      (\<forall>n \<in> set rest. recent_answer rv ttl now (ac_Subject actor) n True \<or> n \<notin> set found) \<and>
      (\<forall>n \<in> set rest. recent_answer rv ttl now (ac_Subject actor) n False \<or> n \<in> set found)"
    by auto
  show ?case
    using Cons.prems(2,4) a b head rest by (cases a; cases b) (auto split: if_splits)
qed

lemma ScopeFor_backed:
  assumes "backed rv now cache" and "\<forall>n \<in> set candidates. CHR ''|'' \<notin> set n" and "0 \<le> ttl"
    and "ScopeFor rv ttl now actor candidates cache = (r, cache')"
  shows "backed rv now cache'" and "r = Inr scope \<Longrightarrow> namespace \<in> set candidates \<Longrightarrow>
    if Scope_Allows scope namespace
    then recent_answer rv ttl now (ac_Subject actor) namespace True \<or> recent_answer rv ttl now (ac_Subject actor) [] True
    else recent_answer rv ttl now (ac_Subject actor) namespace False"
proof -
  obtain a c1 where a: "allowed rv ttl now actor [] cache = (a, c1)" by fastforce
  obtain b c2 where b: "scan_namespaces rv ttl now actor candidates c1 = (b, c2)" by fastforce
  have all: "backed rv now c1" "\<And>answer. a = Inr answer \<Longrightarrow> recent_answer rv ttl now (ac_Subject actor) [] answer"
    using allowed_backed [OF assms(1) _ assms(3) a] by simp_all
  note scan = scan_backed [OF all(1) assms(2,3) b]
  show "backed rv now cache'"
    using assms(4) a b all(1) scan by (auto simp: ScopeFor_def split: sum.splits bool.splits)
  assume "r = Inr scope" "namespace \<in> set candidates"
  then consider "a = Inr True" "AllowAll scope"
    | found where "b = Inr found" "scope = \<lparr>AllowAll = False, sc_Namespaces = found\<rparr>"
    using assms(4) a b by (auto simp: ScopeFor_def split: sum.splits bool.splits)
  then show "if Scope_Allows scope namespace
    then recent_answer rv ttl now (ac_Subject actor) namespace True \<or> recent_answer rv ttl now (ac_Subject actor) [] True
    else recent_answer rv ttl now (ac_Subject actor) namespace False"
  proof cases
    case 1
    with all(2) show ?thesis by (simp add: Scope_Allows_def)
  next
    case (2 found)
    have "allows_from ns n \<longleftrightarrow> n \<in> set ns" for ns n
      by (induction ns) auto
    with 2 scan \<open>namespace \<in> set candidates\<close> show ?thesis
      by (auto simp: Scope_Allows_def)
  qed
qed

lemma asked_backed: "asked rv ttl now cache \<Longrightarrow> 0 \<le> ttl \<Longrightarrow> backed rv now cache"
proof (induction rule: asked.induct)
  case (start now)
  then show ?case by (simp add: backed_def)
next
  case (later now cache now' candidates actor)
  then have "backed rv now' cache"
    unfolding backed_def by (meson order_trans)
  with later show ?case
    by (metis ScopeFor_backed(1) prod.collapse)
qed

text \<open>
  C12. What the scope of a caller says is what Kubernetes said: a namespace it lets through was
  allowed to that subject, by itself or for the whole cluster, at a time no longer ago than the
  answers are kept, and a candidate it does not let through was refused as recently. Answers of
  other subjects are never used; the groups of the caller are not looked at.
\<close>
theorem scope_rests_on_recent_answers:
  assumes "asked rv ttl now cache" and "now \<le> now'" and "0 \<le> ttl"
    and "\<forall>n \<in> set candidates. CHR ''|'' \<notin> set n"
    and "ScopeFor rv ttl now' actor candidates cache = (Inr scope, cache')" and "namespace \<in> set candidates"
  shows "if Scope_Allows scope namespace
    then recent_answer rv ttl now' (ac_Subject actor) namespace True \<or> recent_answer rv ttl now' (ac_Subject actor) [] True
    else recent_answer rv ttl now' (ac_Subject actor) namespace False"
proof -
  have "backed rv now' cache"
    using asked_backed [OF assms(1,3)] assms(2) unfolding backed_def by (meson order_trans)
  from ScopeFor_backed(2) [OF this assms(4,3,5) refl assms(6)] show ?thesis .
qed


text \<open>
  Within the time an answer is kept, a caller of the same subject gets it whatever groups the
  caller is in by then.
\<close>

lemma kept_answer_ignores_groups:
  "cached ttl cache now (cache_key actor namespace) = Some answer \<Longrightarrow>
     allowed rv ttl now (actor\<lparr>ac_Groups := groups\<rparr>) namespace cache = (Inr answer, cache)"
  by (simp add: allowed_def cache_key_def)

section \<open>Properties of the service\<close>

lemma roles_from_set:
  "set (roles_from actor gs roles) = set roles \<union> ag_Role ` {g \<in> set gs. ac_Groups actor \<noteq> [] \<and> InGroup actor (ag_Group g)} \<and>
   (distinct roles \<longrightarrow> distinct (roles_from actor gs roles))"
  by (induction gs arbitrary: roles) (auto simp: InGroup_def)

lemma in_map_filter: "y \<in> set (List.map_filter f xs) \<longleftrightarrow> (\<exists>x \<in> set xs. f x = Some y)"
  by (force simp: List.map_filter_def)

lemma membershipsOf_Inr:
  assumes "membershipsOf deps now actor cache = (Inr (memberships, approver), cache')"
  obtains access scope where "ad_divisions deps = Inr access"
    "ScopeFor (ad_reviewer deps) (ad_ttl deps) now actor (concat (map da_Namespaces access)) cache = (Inr scope, cache')"
    "memberships = List.map_filter (membership actor scope) access" "approver = AllowAll scope"
  using assms by (auto simp: membershipsOf_def split: sum.splits prod.splits)

text \<open>
  A caller is a member of exactly the divisions that grant a role to one of the caller's
  groups or have a namespace the caller may see; the membership lists those roles, each once,
  and those namespaces.
\<close>
theorem memberships_are_grants_and_visible_namespaces:
  assumes "membershipsOf deps now actor cache = (Inr (memberships, approver), cache')"
  shows "\<exists>access scope. ad_divisions deps = Inr access \<and> approver = AllowAll scope \<and>
    (\<forall>m. m \<in> set memberships \<longleftrightarrow>
       (\<exists>d \<in> set access. mb_Division m = da_Division d \<and> mb_DisplayName m = da_DisplayName d \<and>
          mb_Roles m = roles_from actor (da_Grants d) [] \<and> distinct (mb_Roles m) \<and>
          set (mb_Roles m) = {ag_Role g | g. g \<in> set (da_Grants d) \<and> ag_Group g \<in> set (ac_Groups actor)} \<and>
          mb_Namespaces m = filter (Scope_Allows scope) (da_Namespaces d) \<and>
          (mb_Roles m \<noteq> [] \<or> mb_Namespaces m \<noteq> [])))"
proof -
  obtain access scope where access: "ad_divisions deps = Inr access" "approver = AllowAll scope"
    "memberships = List.map_filter (membership actor scope) access"
    using assms by (rule membershipsOf_Inr)
  have roles: "distinct (roles_from actor gs [])"
    "set (roles_from actor gs []) = {ag_Role g | g. g \<in> set gs \<and> ag_Group g \<in> set (ac_Groups actor)}" for gs
    using roles_from_set [of actor gs "[]"] by (auto simp: InGroup_def)
  have "membership actor scope d = Some m \<longleftrightarrow>
      mb_Division m = da_Division d \<and> mb_DisplayName m = da_DisplayName d \<and>
      mb_Roles m = roles_from actor (da_Grants d) [] \<and> distinct (mb_Roles m) \<and>
      set (mb_Roles m) = {ag_Role g | g. g \<in> set (da_Grants d) \<and> ag_Group g \<in> set (ac_Groups actor)} \<and>
      mb_Namespaces m = filter (Scope_Allows scope) (da_Namespaces d) \<and>
      (mb_Roles m \<noteq> [] \<or> mb_Namespaces m \<noteq> [])" for d m
    using roles by (cases m) (auto simp: membership_def Let_def)
  with access show ?thesis
    by (intro exI [of _ access] exI [of _ scope]) (simp add: in_map_filter)
qed

text \<open>
  Switching the division is for members of it only, and does not prolong the session: the
  cookie expires when the caller's session does, or twelve hours from now if that is sooner.
\<close>
theorem switching_keeps_the_expiry:
  assumes "SwitchDivision deps s codec nonce now (Some actor) wanted cache = (Inr (described, cookie), cache')"
    and "\<not> is_zero_time (ac_ExpiresAt actor)"
  shows "(\<exists>memberships approver cache1. membershipsOf deps now actor cache = (Inr (memberships, approver), cache1) \<and>
            wanted \<in> mb_Division ` set memberships) \<and>
    ac_Subject actor \<noteq> [] \<and> sv_ActingDivision described = wanted \<and>
    ck_Expires cookie = min (ac_ExpiresAt actor) (now + maxLifetime)"
proof -
  let ?actor = "actor\<lparr>ac_ActiveDivision := wanted\<rparr>"
  obtain memberships approver cache1 where m: "membershipsOf deps now actor cache = (Inr (memberships, approver), cache1)"
      "list_ex (\<lambda>m. mb_Division m = wanted) memberships"
    and cookie: "CookieFor s codec nonce (SessionFromActor now ?actor) = Inr cookie"
    and described: "describe_session deps now ?actor cache1 = (Inr described, cache')"
    and subject: "ac_Subject actor \<noteq> []"
    using assms(1) by (auto simp: SwitchDivision_def FromContext_def Let_def split: if_splits sum.splits prod.splits)
  have "sv_ActingDivision described = wanted"
    using described by (auto simp: describe_session_def split: sum.splits prod.splits)
  moreover have "ck_Expires cookie = min (ac_ExpiresAt actor) (now + maxLifetime)"
    using cookie assms(2)
    by (auto simp: CookieFor_def Let_def site_cookie_def capped_def SessionFromActor_def time_sub_def maxLifetime_def hour_def
        min_i64_def max_i64_def split: sum.splits if_splits)
  moreover have "wanted \<in> mb_Division ` set memberships"
    using m(2) by (force simp: list_ex_iff)
  ultimately show ?thesis
    using m(1) subject by blast
qed

section \<open>Examples\<close>

definition example_reviewer :: Reviewer where
  "example_reviewer = \<lparr>rv_client = (\<lambda>_ _. None), rv_allowed = (\<lambda>t subject gs ns. Inr (ns = ''team-dev''))\<rparr>"

definition example_actor :: Actor where
  "example_actor = \<lparr>ac_Subject = ''ada'', ac_Email = [], ac_Groups = [''dev''], ac_ActiveDivision = ''team'',
     ac_Mode = AuthModeOIDC, ac_ExpiresAt = 500\<rparr>"

theorem scope_rests_on_recent_answers_witness:
  "\<exists>scope cache'. ScopeFor example_reviewer 60 7 example_actor [''team-dev'', ''other''] Map.empty = (Inr scope, cache') \<and>
     Scope_Allows scope ''team-dev'' \<and> recent_answer example_reviewer 60 7 ''ada'' ''team-dev'' True"
proof -
  have asked: "asked example_reviewer 60 5 Map.empty" by (rule asked.start)
  obtain scope cache' where run: "ScopeFor example_reviewer 60 7 example_actor [''team-dev'', ''other''] Map.empty = (Inr scope, cache')"
      "Scope_Allows scope ''team-dev''"
    by (simp add: ScopeFor_def allowed_def cached_def example_reviewer_def cache_key_def example_actor_def Scope_Allows_def)
  have "ac_Subject example_actor = ''ada''" "\<not> recent_answer example_reviewer 60 7 ''ada'' [] True"
    by (simp_all add: example_actor_def recent_answer_def example_reviewer_def)
  with scope_rests_on_recent_answers [OF asked _ _ _ run(1), of "''team-dev''"] run show ?thesis
    by simp
qed

definition example_deps :: AccessDeps where
  "example_deps = \<lparr>ad_reviewer = example_reviewer, ad_ttl = 60, ad_divisions =
     Inr [\<lparr>da_Division = ''team'', da_DisplayName = ''Team'', da_Grants = [\<lparr>ag_Role = ''viewer'', ag_Group = ''dev''\<rparr>],
           da_Namespaces = [''team-dev'']\<rparr>,
          \<lparr>da_Division = ''ops'', da_DisplayName = ''Ops'', da_Grants = [], da_Namespaces = [''ops'']\<rparr>]\<rparr>"

definition example_membership :: Membership where
  "example_membership = \<lparr>mb_Division = ''team'', mb_DisplayName = ''Team'', mb_Roles = [''viewer''],
     mb_Namespaces = [''team-dev'']\<rparr>"

lemma example_memberships:
  "\<exists>cache'. membershipsOf example_deps 100 example_actor Map.empty = (Inr ([example_membership], False), cache')"
  by (simp add: membershipsOf_def example_deps_def ScopeFor_def allowed_def cached_def example_reviewer_def cache_key_def
      example_actor_def Scope_Allows_def List.map_filter_def membership_def InGroup_def example_membership_def)

theorem memberships_are_grants_and_visible_namespaces_witness:
  "\<exists>cache'. membershipsOf example_deps 100 example_actor Map.empty = (Inr ([example_membership], False), cache') \<and>
     distinct (mb_Roles example_membership)"
proof -
  obtain cache' where run: "membershipsOf example_deps 100 example_actor Map.empty = (Inr ([example_membership], False), cache')"
    using example_memberships by blast
  from memberships_are_grants_and_visible_namespaces [OF run] run show ?thesis
    by auto
qed


theorem switching_keeps_the_expiry_witness:
  "\<exists>described cookie cache'. SwitchDivision example_deps example_sealer \<lparr>cd_marshal = (\<lambda>_. Inr ''x''), cd_unmarshal = (\<lambda>_. None)\<rparr>
     (Inr ''ab'') 100 (Some example_actor) ''team'' Map.empty = (Inr (described, cookie), cache') \<and> ck_Expires cookie = 500"
proof -
  let ?codec = "\<lparr>cd_marshal = (\<lambda>_. Inr ''x''), cd_unmarshal = (\<lambda>_. None)\<rparr>"
  obtain described cookie cache' where run:
    "SwitchDivision example_deps example_sealer ?codec (Inr ''ab'') 100 (Some example_actor) ''team'' Map.empty =
       (Inr (described, cookie), cache')"
    by (simp add: SwitchDivision_def describe_session_def FromContext_def CookieFor_def SealJSON_def Let_def membershipsOf_def
        example_deps_def ScopeFor_def allowed_def cached_def example_reviewer_def cache_key_def
        example_actor_def Scope_Allows_def List.map_filter_def membership_def InGroup_def time_sub_def
        min_i64_def max_i64_def)
  moreover have "\<not> is_zero_time (ac_ExpiresAt example_actor)"
    by (simp add: example_actor_def is_zero_time_def)
  ultimately have "ck_Expires cookie = min (ac_ExpiresAt example_actor) (100 + maxLifetime)"
    using switching_keeps_the_expiry by blast
  with run show ?thesis
    by (auto simp: example_actor_def maxLifetime_def hour_def)
qed

end
