(* ===== verification/RequestStore.thy ===== *)
theory RequestStore
  imports GovernApi
begin

text \<open>
  The projection of requests and decisions into the database: internal/requests/store.go (the
  two tables of migration 0003 with their keys and checks, the upserts, the deletion and the two
  queries) and internal/requests/projector.go (what is projected, and when). The encodings of
  specifications and evidence are opaque texts, a uid is the text of a uuid; a statement that a
  constraint refuses leaves the tables as they were. ListRequests orders by creation; rows of
  the same moment keep the order of the table, which SQL leaves open.
\<close>

record StoredDecision =
  sd_UID :: string
  sd_RequestUID :: string
  sd_Decider :: string
  sd_Outcome :: string
  sd_Reason :: string
  sd_Evidence :: string
  sd_GrantedUntil :: "time option"
  sd_DecidedAt :: time
  sd_RevokedAt :: "time option"
  sd_RevokedReason :: string

record StoredRequest =
  sr_UID :: string
  sr_Kind :: string
  sr_Name :: string
  sr_Namespace :: string
  sr_Division :: string
  sr_Requester :: string
  sr_Reason :: string
  sr_Phase :: string
  sr_EvidenceDigest :: string
  sr_Spec :: string
  sr_Recommendation :: string
  sr_Preflight :: string
  sr_CreatedAt :: time

text \<open>A row also keeps the uid of its division, when the division was known by name.\<close>

record RequestRow =
  row_Request :: StoredRequest
  row_DivisionUID :: "string option"

record RequestDB =
  db_requests :: "RequestRow list"
  db_decisions :: "StoredDecision list"
  db_divisions :: "(string \<times> string) list"

definition KindQuota :: string where "KindQuota = ''QuotaRequest''"

section \<open>Phases as text\<close>

fun snake_from :: "bool \<Rightarrow> string \<Rightarrow> string" where
  "snake_from first [] = []"
| "snake_from first (c # cs) =
     (if 65 \<le> (of_char c :: nat) \<and> (of_char c :: nat) \<le> 90
      then (if first then [] else ''_'') @ [char_of ((of_char c :: nat) + 32)]
      else [c]) @ snake_from False cs"

definition snake :: "string \<Rightarrow> string" where
  "snake s = snake_from True s"

definition phaseOf :: "QuotaRequest \<Rightarrow> string" where
  "phaseOf r = (if qr_Phase (qr_Status r) = NoRequestPhase then ''pending''
                else snake (phase_text (qr_Phase (qr_Status r))))"

fun outcome_text :: "Outcome \<Rightarrow> string" where
  "outcome_text OutcomeApproved = ''Approved''"
| "outcome_text OutcomeRejected = ''Rejected''"
| "outcome_text OutcomeChangesRequested = ''ChangesRequested''"

definition to_lower :: "string \<Rightarrow> string" where
  "to_lower = map (\<lambda>c. if 65 \<le> (of_char c :: nat) \<and> (of_char c :: nat) \<le> 90 then char_of ((of_char c :: nat) + 32) else c)"

section \<open>The statements\<close>

definition known_kinds :: "string list" where
  "known_kinds = [''QuotaRequest'', ''AccessRequest'', ''PeeringRequest'', ''MembershipRequest'',
                  ''NamespaceRequest'', ''EphemeralEnvironment'']"

definition known_phases :: "string list" where
  "known_phases = [''pending'', ''preflight_failed'', ''awaiting_decision'', ''approved'', ''rejected'',
                   ''changes_requested'', ''applied'', ''expired'', ''withdrawn'']"

definition open_phases :: "string list" where
  "open_phases = [''pending'', ''awaiting_decision'', ''changes_requested'']"

definition row_uid :: "RequestRow \<Rightarrow> string" where
  "row_uid row = sr_UID (row_Request row)"

definition row_key :: "RequestRow \<Rightarrow> string \<times> string \<times> string" where
  "row_key row = (sr_Namespace (row_Request row), sr_Kind (row_Request row), sr_Name (row_Request row))"

definition request_key :: "StoredRequest \<Rightarrow> string \<times> string \<times> string" where
  "request_key r = (sr_Namespace r, sr_Kind r, sr_Name r)"

definition division_uid :: "RequestDB \<Rightarrow> string \<Rightarrow> string option" where
  "division_uid db name = map_option fst (find (\<lambda>(uid, n). n = name) (db_divisions db))"

text \<open>The row an upsert leaves where there was one: creation time and acting division are kept.\<close>

definition updated_row :: "RequestDB \<Rightarrow> StoredRequest \<Rightarrow> RequestRow \<Rightarrow> RequestRow" where
  "updated_row db r old =
     \<lparr>row_Request = r\<lparr>sr_Division := sr_Division (row_Request old), sr_CreatedAt := sr_CreatedAt (row_Request old)\<rparr>,
      row_DivisionUID = division_uid db (sr_Division r)\<rparr>"

definition UpsertRequest :: "RequestDB \<Rightarrow> StoredRequest \<Rightarrow> RequestDB option" where
  "UpsertRequest db r =
     (if sr_Kind r \<notin> set known_kinds \<or> sr_Phase r \<notin> set known_phases then None
      else if (\<exists>row \<in> set (db_requests db). row_uid row = sr_UID r \<and> row_key row \<noteq> request_key r) then None
      else case find (\<lambda>row. row_key row = request_key r) (db_requests db) of
        None \<Rightarrow> Some (db\<lparr>db_requests := db_requests db @
                   [\<lparr>row_Request = r, row_DivisionUID = division_uid db (sr_Division r)\<rparr>]\<rparr>)
      | Some old \<Rightarrow>
          if row_uid old \<noteq> sr_UID r \<and> (\<exists>d \<in> set (db_decisions db). sd_RequestUID d = row_uid old) then None
          else Some (db\<lparr>db_requests :=
                 map (\<lambda>row. if row_key row = request_key r then updated_row db r row else row) (db_requests db)\<rparr>))"

definition DeleteRequest :: "RequestDB \<Rightarrow> string \<Rightarrow> string \<Rightarrow> RequestDB" where
  "DeleteRequest db namespace name =
     (let gone = (\<lambda>row. row_key row = (namespace, KindQuota, name))
      in db\<lparr>db_requests := filter (\<lambda>row. \<not> gone row) (db_requests db),
            db_decisions := filter (\<lambda>d. \<not> (\<exists>row \<in> set (db_requests db). gone row \<and> row_uid row = sd_RequestUID d))
              (db_decisions db)\<rparr>)"

definition updated_decision :: "StoredDecision \<Rightarrow> StoredDecision \<Rightarrow> StoredDecision" where
  "updated_decision d old =
     d\<lparr>sd_RequestUID := sd_RequestUID old, sd_Decider := sd_Decider old, sd_DecidedAt := sd_DecidedAt old\<rparr>"

definition known_outcomes :: "string list" where
  "known_outcomes = [''approved'', ''rejected'', ''changes_requested'']"

definition UpsertDecision :: "RequestDB \<Rightarrow> StoredDecision \<Rightarrow> RequestDB option" where
  "UpsertDecision db d =
     (if sd_Outcome d \<notin> set known_outcomes \<or> sd_Outcome d = ''approved'' \<and> sd_GrantedUntil d = None \<or>
         sd_Evidence d = ''{}'' then None
      else case find (\<lambda>e. sd_UID e = sd_UID d) (db_decisions db) of
        None \<Rightarrow>
          if (\<exists>row \<in> set (db_requests db). row_uid row = sd_RequestUID d)
          then Some (db\<lparr>db_decisions := db_decisions db @ [d]\<rparr>) else None
      | Some old \<Rightarrow>
          Some (db\<lparr>db_decisions :=
            map (\<lambda>e. if sd_UID e = sd_UID d then updated_decision d e else e) (db_decisions db)\<rparr>))"

text \<open>A row as a query returns it: the division's current name, and the newest decision.\<close>

definition shown_division :: "RequestDB \<Rightarrow> RequestRow \<Rightarrow> string" where
  "shown_division db row =
     (case row_DivisionUID row of
        None \<Rightarrow> sr_Division (row_Request row)
      | Some uid \<Rightarrow> (case map_of (db_divisions db) uid of None \<Rightarrow> sr_Division (row_Request row) | Some n \<Rightarrow> n))"

definition latest_decision :: "RequestDB \<Rightarrow> string \<Rightarrow> StoredDecision option" where
  "latest_decision db uid =
     (case sort_key (\<lambda>d. - sd_DecidedAt d) (filter (\<lambda>d. sd_RequestUID d = uid) (db_decisions db)) of
        [] \<Rightarrow> None | d # _ \<Rightarrow> Some d)"

text \<open>An absent recommendation or preflight is stored as NULL and read back as the json \<^verbatim>\<open>null\<close>.\<close>

definition coalesce_null :: "string \<Rightarrow> string" where
  "coalesce_null s = (if s = [] then ''null'' else s)"

definition shown :: "RequestDB \<Rightarrow> RequestRow \<Rightarrow> StoredRequest \<times> StoredDecision option" where
  "shown db row =
     ((row_Request row)\<lparr>sr_Division := shown_division db row,
        sr_Recommendation := coalesce_null (sr_Recommendation (row_Request row)),
        sr_Preflight := coalesce_null (sr_Preflight (row_Request row))\<rparr>,
      latest_decision db (row_uid row))"

definition selected :: "RequestDB \<Rightarrow> string list option \<Rightarrow> string \<Rightarrow> bool \<Rightarrow> RequestRow \<Rightarrow> bool" where
  "selected db divisions phase openOnly row \<longleftrightarrow>
     (case divisions of None \<Rightarrow> True | Some ds \<Rightarrow> shown_division db row \<in> set ds) \<and>
     (phase = [] \<or> sr_Phase (row_Request row) = phase) \<and>
     (\<not> openOnly \<or> sr_Phase (row_Request row) \<in> set open_phases)"

definition ListRequests ::
  "RequestDB \<Rightarrow> string list option \<Rightarrow> string \<Rightarrow> bool \<Rightarrow> (StoredRequest \<times> StoredDecision option) list" where
  "ListRequests db divisions phase openOnly =
     map (shown db) (sort_key (\<lambda>row. - sr_CreatedAt (row_Request row))
       (filter (selected db divisions phase openOnly) (db_requests db)))"

definition GetRequest :: "RequestDB \<Rightarrow> string \<Rightarrow> (StoredRequest \<times> StoredDecision option) option" where
  "GetRequest db uid = map_option (shown db) (find (\<lambda>row. row_uid row = uid) (db_requests db))"

section \<open>The projectors\<close>

text \<open>The encoders of json, each of which can fail.\<close>

record Encoders =
  enc_spec :: "QuotaRequestSpec \<Rightarrow> string option"
  enc_recommendation :: "Recommendation \<Rightarrow> string option"
  enc_preflight :: "PreflightResult \<Rightarrow> string option"
  enc_evidence :: "Evidence \<Rightarrow> string option"

text \<open>An optional field of the projection: empty when absent, and an error of its encoder.\<close>

definition encoded :: "('a \<Rightarrow> string option) \<Rightarrow> 'a option \<Rightarrow> string option" where
  "encoded enc x = (case x of None \<Rightarrow> Some [] | Some a \<Rightarrow> enc a)"

definition projectRequest :: "Encoders \<Rightarrow> time \<Rightarrow> QuotaRequest \<Rightarrow> StoredRequest option" where
  "projectRequest enc now r =
     (case (enc_spec enc (qr_Spec r), encoded (enc_recommendation enc) (qr_Recommendation (qr_Status r)),
            encoded (enc_preflight enc) (qr_Preflight (qr_Status r))) of
        (Some spec, Some recommendation, Some preflight) \<Rightarrow>
          Some \<lparr>sr_UID = om_UID (qr_Meta r), sr_Kind = KindQuota, sr_Name = om_Name (qr_Meta r),
                sr_Namespace = om_Namespace (qr_Meta r), sr_Division = qr_Division (qr_Spec r),
                sr_Requester = (if qr_RequestedBy (qr_Spec r) = [] then ''unknown'' else qr_RequestedBy (qr_Spec r)),
                sr_Reason = qr_Reason (qr_Spec r), sr_Phase = phaseOf r,
                sr_EvidenceDigest = qr_EvidenceDigest (qr_Status r), sr_Spec = spec,
                sr_Recommendation = recommendation, sr_Preflight = preflight,
                sr_CreatedAt = (if is_zero_time (om_CreationTimestamp (qr_Meta r)) then now
                                else om_CreationTimestamp (qr_Meta r))\<rparr>
      | _ \<Rightarrow> None)"

text \<open>What the database refuses is an error, and the controller tries again.\<close>

definition Projector_Reconcile ::
  "Encoders \<Rightarrow> time \<Rightarrow> string \<times> string \<Rightarrow> (api_error + QuotaRequest) \<Rightarrow> RequestDB \<Rightarrow> RequestDB \<times> bool" where
  "Projector_Reconcile enc now key got db =
     (case got of
        Inl err \<Rightarrow> if is_not_found err then (DeleteRequest db (fst key) (snd key), True) else (db, False)
      | Inr r \<Rightarrow>
          (case Option.bind (projectRequest enc now r) (UpsertRequest db) of
             None \<Rightarrow> (db, False) | Some db' \<Rightarrow> (db', True)))"

definition project_decision :: "Encoders \<Rightarrow> time \<Rightarrow> Decision \<Rightarrow> QuotaRequest \<Rightarrow> StoredDecision option" where
  "project_decision enc now d r =
     map_option (\<lambda>evidence.
        \<lparr>sd_UID = om_UID (dc_Meta d), sd_RequestUID = om_UID (qr_Meta r), sd_Decider = dc_DecidedBy (dc_Spec d),
         sd_Outcome = to_lower (snake (outcome_text (dc_Outcome (dc_Spec d)))), sd_Reason = dc_Reason (dc_Spec d),
         sd_Evidence = evidence, sd_GrantedUntil = dc_GrantedUntil (dc_Spec d),
         sd_DecidedAt = (if is_zero_time (om_CreationTimestamp (dc_Meta d)) then now else om_CreationTimestamp (dc_Meta d)),
         sd_RevokedAt = (if dc_RevokedReason (dc_Spec d) \<noteq> [] then Some now else None),
         sd_RevokedReason = dc_RevokedReason (dc_Spec d)\<rparr>)
       (enc_evidence enc (dc_Evidence (dc_Spec d)))"

definition decisionProjector_Reconcile ::
  "Encoders \<Rightarrow> time \<Rightarrow> (api_error + Decision) \<Rightarrow> (api_error + QuotaRequest) \<Rightarrow> RequestDB \<Rightarrow> RequestDB \<times> bool" where
  "decisionProjector_Reconcile enc now got_decision got_request db =
     (case got_decision of
        Inl err \<Rightarrow> (db, is_not_found err)
      | Inr d \<Rightarrow>
     (case got_request of
        Inl err \<Rightarrow> (db, is_not_found err)
      | Inr r \<Rightarrow>
     (case Option.bind (projectRequest enc now r) (UpsertRequest db) of
        None \<Rightarrow> (db, False)
      | Some db1 \<Rightarrow>
          (case Option.bind (project_decision enc now d r) (UpsertDecision db1) of
             None \<Rightarrow> (db1, False) | Some db2 \<Rightarrow> (db2, True)))))"

section \<open>The invariant of the tables\<close>

definition db_ok :: "RequestDB \<Rightarrow> bool" where
  "db_ok db \<longleftrightarrow>
     distinct (map row_uid (db_requests db)) \<and> distinct (map row_key (db_requests db)) \<and>
     distinct (map sd_UID (db_decisions db)) \<and>
     (\<forall>row \<in> set (db_requests db). sr_Kind (row_Request row) \<in> set known_kinds \<and> sr_Phase (row_Request row) \<in> set known_phases) \<and>
     (\<forall>d \<in> set (db_decisions db). sd_RequestUID d \<in> row_uid ` set (db_requests db) \<and> sd_Outcome d \<in> set known_outcomes \<and>
        (sd_Outcome d = ''approved'' \<longrightarrow> sd_GrantedUntil d \<noteq> None))"

text \<open>What the projectors do to the tables, from empty ones.\<close>

inductive projected :: "RequestDB \<Rightarrow> bool" where
  start: "projected \<lparr>db_requests = [], db_decisions = [], db_divisions = divisions\<rparr>"
| request: "projected db \<Longrightarrow> projected (fst (Projector_Reconcile enc now key got db))"
| decision: "projected db \<Longrightarrow> projected (fst (decisionProjector_Reconcile enc now gotd gotr db))"

lemma row_key_updated [simp]: "row_key row = request_key r \<Longrightarrow> row_key (updated_row db r row) = row_key row"
  by (simp add: row_key_def request_key_def updated_row_def)

lemma row_uid_updated [simp]: "row_uid (updated_row db r row) = sr_UID r"
  by (simp add: row_uid_def updated_row_def)

lemma new_row_simps [simp]:
  "row_uid \<lparr>row_Request = r, row_DivisionUID = u\<rparr> = sr_UID r"
  "row_key \<lparr>row_Request = r, row_DivisionUID = u\<rparr> = request_key r"
  by (simp_all add: row_uid_def row_key_def request_key_def)

text \<open>The three ways an upsert succeeds: a new row, or the row of the same key under the old or a new uid.\<close>

lemma UpsertRequest_cases:
  assumes "UpsertRequest db r = Some db'"
  obtains (inserted) "request_key r \<notin> row_key ` set (db_requests db)" "sr_UID r \<notin> row_uid ` set (db_requests db)"
      "db' = db\<lparr>db_requests := db_requests db @ [\<lparr>row_Request = r, row_DivisionUID = division_uid db (sr_Division r)\<rparr>]\<rparr>"
      "sr_Kind r \<in> set known_kinds" "sr_Phase r \<in> set known_phases"
    | (updated) old where "old \<in> set (db_requests db)" "row_key old = request_key r"
      "row_uid old = sr_UID r \<or> row_uid old \<notin> sd_RequestUID ` set (db_decisions db)"
      "\<forall>row \<in> set (db_requests db). row_uid row = sr_UID r \<longrightarrow> row_key row = request_key r"
      "db' = db\<lparr>db_requests := map (\<lambda>row. if row_key row = request_key r then updated_row db r row else row) (db_requests db)\<rparr>"
      "sr_Kind r \<in> set known_kinds" "sr_Phase r \<in> set known_phases"
proof -
  have known: "sr_Kind r \<in> set known_kinds" "sr_Phase r \<in> set known_phases"
    and own: "\<forall>row \<in> set (db_requests db). row_uid row = sr_UID r \<longrightarrow> row_key row = request_key r"
    using assms by (auto simp: UpsertRequest_def split: if_splits)
  show thesis
  proof (cases "find (\<lambda>row. row_key row = request_key r) (db_requests db)")
    case None
    then have "request_key r \<notin> row_key ` set (db_requests db)"
      by (simp add: find_by_key_None)
    moreover from this own have "sr_UID r \<notin> row_uid ` set (db_requests db)"
      by force
    ultimately show thesis
      using None assms known by (intro inserted) (auto simp: UpsertRequest_def split: if_splits)
  next
    case (Some old)
    from find_by_key_Some [OF this] Some assms own known show thesis
      by (intro updated [of old]) (auto simp: UpsertRequest_def split: if_splits)
  qed
qed

lemma UpsertRequest_ok:
  assumes "db_ok db" and "UpsertRequest db r = Some db'"
  shows "db_ok db'"
  using assms(2)
proof (cases rule: UpsertRequest_cases)
  case inserted
  with assms(1) show ?thesis
    by (auto simp: db_ok_def)
next
  case (updated old)
  let ?f = "\<lambda>row. if row_key row = request_key r then updated_row db r row else row"
  have keys: "map row_key (map ?f (db_requests db)) = map row_key (db_requests db)"
    by auto
  have only: "row = old" if "row \<in> set (db_requests db)" "row_key row = request_key r" for row
    using that updated(1,2) assms(1) by (auto simp: db_ok_def distinct_map inj_on_def)
  have inj: "inj_on row_uid (set (db_requests db))" and "distinct (db_requests db)"
    using assms(1) by (simp_all add: db_ok_def distinct_map)
  moreover have "inj_on (\<lambda>row. row_uid (?f row)) (set (db_requests db))"
  proof (rule inj_onI)
    fix x y
    assume mem: "x \<in> set (db_requests db)" "y \<in> set (db_requests db)" and eq: "row_uid (?f x) = row_uid (?f y)"
    show "x = y"
    proof (cases "row_key x = request_key r \<or> row_key y = request_key r")
      case True
      with mem eq updated(4) have "row_key x = request_key r" "row_key y = request_key r"
        by (auto split: if_splits)
      with mem only show ?thesis by blast
    next
      case False
      with mem eq inj show ?thesis by (simp add: inj_on_def)
    qed
  qed
  ultimately have uids: "distinct (map row_uid (map ?f (db_requests db)))"
    by (simp add: distinct_map comp_def)
  have refs: "sd_RequestUID d \<in> row_uid ` set (map ?f (db_requests db))" if "d \<in> set (db_decisions db)" for d
  proof -
    have "sd_RequestUID d \<in> row_uid ` set (db_requests db)"
      using that assms(1) by (simp add: db_ok_def)
    then obtain row where row: "row \<in> set (db_requests db)" "row_uid row = sd_RequestUID d"
      by force
    have "sd_RequestUID d = row_uid (?f row)"
    proof (cases "row_key row = request_key r")
      case True
      with row only have "row = old" by blast
      with row(2) that have "row_uid old \<in> sd_RequestUID ` set (db_decisions db)" by force
      with updated(3) \<open>row = old\<close> row(2) True show ?thesis by simp
    qed (simp add: row(2))
    then show ?thesis
      unfolding set_map image_image using row(1) by (rule image_eqI)
  qed
  have known: "\<forall>row \<in> set (map ?f (db_requests db)).
      sr_Kind (row_Request row) \<in> set known_kinds \<and> sr_Phase (row_Request row) \<in> set known_phases"
    using assms(1) updated(6,7) by (auto simp: db_ok_def updated_row_def)
  have kept: "db_decisions db' = db_decisions db" "db_requests db' = map ?f (db_requests db)"
    using updated(5) by simp_all
  from assms(1) have "distinct (map row_key (db_requests db))" "distinct (map sd_UID (db_decisions db))"
    "\<forall>d \<in> set (db_decisions db). sd_Outcome d \<in> set known_outcomes \<and> (sd_Outcome d = ''approved'' \<longrightarrow> sd_GrantedUntil d \<noteq> None)"
    by (simp_all add: db_ok_def)
  with uids refs known show ?thesis
    unfolding db_ok_def kept keys by (intro conjI ballI) blast+
qed

lemma DeleteRequest_ok: "db_ok db \<Longrightarrow> db_ok (DeleteRequest db namespace name)"
  by (fastforce simp: db_ok_def DeleteRequest_def Let_def distinct_map_filter)

lemma UpsertDecision_ok:
  assumes "db_ok db" and "UpsertDecision db d = Some db'"
  shows "db_ok db'"
proof (cases "find (\<lambda>e. sd_UID e = sd_UID d) (db_decisions db)")
  case None
  then have "sd_UID d \<notin> sd_UID ` set (db_decisions db)"
    by (simp add: find_by_key_None)
  moreover from None assms(2) have "sd_RequestUID d \<in> row_uid ` set (db_requests db)"
    by (force simp: UpsertDecision_def split: if_splits)
  ultimately show ?thesis
    using None assms by (auto simp: UpsertDecision_def db_ok_def split: if_splits)
next
  case (Some old)
  have "sd_UID \<circ> (\<lambda>e. if sd_UID e = sd_UID d then updated_decision d e else e) = sd_UID"
    by (simp add: updated_decision_def fun_eq_iff)
  with assms Some show ?thesis
    by (auto simp: UpsertDecision_def db_ok_def updated_decision_def split: if_splits)
qed

lemma UpsertDecision_requests: "UpsertDecision db d = Some db' \<Longrightarrow> db_requests db' = db_requests db"
  by (auto simp: UpsertDecision_def split: if_splits option.splits)

lemma Projector_Reconcile_ok: "db_ok db \<Longrightarrow> db_ok (fst (Projector_Reconcile enc now key got db))"
  by (auto simp: Projector_Reconcile_def bind_eq_Some_conv intro: DeleteRequest_ok UpsertRequest_ok
      split: sum.splits option.splits)

lemma decisionProjector_Reconcile_ok: "db_ok db \<Longrightarrow> db_ok (fst (decisionProjector_Reconcile enc now gotd gotr db))"
  by (auto simp: decisionProjector_Reconcile_def bind_eq_Some_conv intro: UpsertDecision_ok UpsertRequest_ok
      split: sum.splits option.splits)


text \<open>The phases, as they are stored and as they are sent.\<close>

lemma phaseOf_text:
  "phaseOf r = (case qr_Phase (qr_Status r) of NoRequestPhase \<Rightarrow> ''pending'' | RequestPending \<Rightarrow> ''pending''
     | RequestAwaitingDecision \<Rightarrow> ''awaiting_decision'' | RequestApproved \<Rightarrow> ''approved''
     | RequestRejected \<Rightarrow> ''rejected'' | RequestChangesRequested \<Rightarrow> ''changes_requested''
     | RequestApplied \<Rightarrow> ''applied'' | RequestExpired \<Rightarrow> ''expired'' | RequestWithdrawn \<Rightarrow> ''withdrawn'')"
proof -
  have "snake ''Pending'' = ''pending''" "snake ''AwaitingDecision'' = ''awaiting_decision''"
    "snake ''Approved'' = ''approved''" "snake ''Rejected'' = ''rejected''"
    "snake ''ChangesRequested'' = ''changes_requested''" "snake ''Applied'' = ''applied''"
    "snake ''Expired'' = ''expired''" "snake ''Withdrawn'' = ''withdrawn''"
    by code_simp+
  then show ?thesis
    by (simp add: phaseOf_def split: RequestPhase.splits)
qed

lemma phaseOf_known: "phaseOf r \<in> set known_phases"
  by (cases "qr_Phase (qr_Status r)") (simp_all add: phaseOf_text known_phases_def)

lemma phaseOf_open: "phaseOf r \<in> set open_phases \<longleftrightarrow>
   qr_Phase (qr_Status r) \<in> {NoRequestPhase, RequestPending, RequestAwaitingDecision, RequestChangesRequested}"
  by (cases "qr_Phase (qr_Status r)") (simp_all add: phaseOf_text open_phases_def)

lemma UpsertRequest_stored:
  assumes "UpsertRequest db r = Some db'"
  obtains row division created where "row \<in> set (db_requests db')"
    "row_Request row = r\<lparr>sr_Division := division, sr_CreatedAt := created\<rparr>" "row_uid row = sr_UID r"
  using assms
proof (cases rule: UpsertRequest_cases)
  case inserted
  show thesis
    by (rule that [of "\<lparr>row_Request = r, row_DivisionUID = division_uid db (sr_Division r)\<rparr>" "sr_CreatedAt r" "sr_Division r"])
      (simp_all add: inserted(3))
next
  case (updated old)
  show thesis
    by (rule that [of "updated_row db r old" "sr_CreatedAt (row_Request old)" "sr_Division (row_Request old)"])
      (use updated in \<open>auto simp: updated_row_def image_iff intro!: bexI [of _ old]\<close>)
qed

text \<open>After an upsert the uid finds the row.\<close>

lemma UpsertRequest_found:
  assumes "db_ok db" and "UpsertRequest db r = Some db'"
  obtains row division created where "find (\<lambda>y. row_uid y = sr_UID r) (db_requests db') = Some row"
    "row \<in> set (db_requests db')" "row_uid row = sr_UID r"
    "row_Request row = r\<lparr>sr_Division := division, sr_CreatedAt := created\<rparr>"
  using UpsertRequest_stored [OF assms(2)] UpsertRequest_ok [OF assms] find_by_key [of row_uid "db_requests db'"]
  unfolding db_ok_def by metis

text \<open>
  C18. A request that was projected can be read back by its uid with the phase and digest the
  cluster shows, and it is in the queue of open requests exactly when its phase is one in which
  a decision is still due.
\<close>
theorem projected_request_is_found:
  assumes "db_ok db" and "Projector_Reconcile enc now key (Inr r) db = (db', True)"
  shows "\<exists>stored. map_option fst (GetRequest db' (om_UID (qr_Meta r))) = Some stored \<and>
      sr_UID stored = om_UID (qr_Meta r) \<and> sr_Phase stored = phaseOf r \<and>
      sr_EvidenceDigest stored = qr_EvidenceDigest (qr_Status r) \<and>
      ((\<exists>listed \<in> set (ListRequests db' None [] True). sr_UID (fst listed) = om_UID (qr_Meta r)) \<longleftrightarrow>
       qr_Phase (qr_Status r) \<in> {NoRequestPhase, RequestPending, RequestAwaitingDecision, RequestChangesRequested})"
proof -
  obtain p where p: "projectRequest enc now r = Some p" "UpsertRequest db p = Some db'"
    using assms(2) by (auto simp: Projector_Reconcile_def bind_eq_Some_conv split: option.splits)
  from p(1) have fields: "sr_UID p = om_UID (qr_Meta r)" "sr_Phase p = phaseOf r" "sr_EvidenceDigest p = qr_EvidenceDigest (qr_Status r)"
    by (auto simp: projectRequest_def split: option.splits)
  from UpsertRequest_found [OF assms(1) p(2)] obtain row division created where
    found: "find (\<lambda>y. row_uid y = om_UID (qr_Meta r)) (db_requests db') = Some row"
    and in_db: "row \<in> set (db_requests db')" "row_uid row = om_UID (qr_Meta r)"
    and fields': "row_Request row = p\<lparr>sr_Division := division, sr_CreatedAt := created\<rparr>"
    using fields by metis
  then have row: "row \<in> set (db_requests db')" "row_uid row = om_UID (qr_Meta r)" "sr_Phase (row_Request row) = phaseOf r"
      "sr_EvidenceDigest (row_Request row) = qr_EvidenceDigest (qr_Status r)"
    using fields by simp_all
  from UpsertRequest_ok [OF assms(1) p(2)] have unique: "distinct (map row_uid (db_requests db'))"
    by (simp add: db_ok_def)
  have same: "x = row" if "x \<in> set (db_requests db')" "row_uid x = om_UID (qr_Meta r)" for x
    using that row unique by (auto simp: distinct_map inj_on_def)
  have uid: "sr_UID (row_Request x) = row_uid x" for x
    by (simp add: row_uid_def)
  have listed: "(\<exists>listed \<in> set (ListRequests db' None [] True). sr_UID (fst listed) = om_UID (qr_Meta r)) \<longleftrightarrow>
      phaseOf r \<in> set open_phases"
  proof -
    have "(\<exists>listed \<in> set (ListRequests db' None [] True). sr_UID (fst listed) = om_UID (qr_Meta r)) \<longleftrightarrow>
        (\<exists>x \<in> set (db_requests db'). sr_Phase (row_Request x) \<in> set open_phases \<and> row_uid x = om_UID (qr_Meta r))"
      by (auto simp: ListRequests_def selected_def shown_def uid)
    with row same show ?thesis
      by metis
  qed
  from found listed row show ?thesis
    by (auto simp: GetRequest_def shown_def uid phaseOf_open)
qed

text \<open>
  A quota request that is deleted and filed again under its name, before the deletion was
  projected, cannot be projected while a decision on the old one is stored: the new uid would
  leave the decision without its request, the database refuses the statement, and every look
  fails in the same way.
\<close>
theorem recreated_request_is_not_projected:
  assumes "db_ok db" and "old \<in> set (db_requests db)"
    and "row_key old = (om_Namespace (qr_Meta r), KindQuota, om_Name (qr_Meta r))"
    and "row_uid old \<noteq> om_UID (qr_Meta r)"
    and "d \<in> set (db_decisions db)" and "sd_RequestUID d = row_uid old"
  shows "Projector_Reconcile enc now key (Inr r) db = (db, False)"
proof -
  have "find (\<lambda>row. row_key row = row_key old) (db_requests db) = Some old"
    using assms(1,2) by (intro find_by_key) (simp add: db_ok_def)
  then have "UpsertRequest db p = None" if "request_key p = row_key old" "sr_UID p = om_UID (qr_Meta r)" for p
    using that assms(2-) by (auto simp: UpsertRequest_def)
  then show ?thesis
    using assms(3) by (auto simp: Projector_Reconcile_def projectRequest_def request_key_def KindQuota_def split: option.splits)
qed


section \<open>Examples\<close>

definition filed_request :: "string \<Rightarrow> RequestPhase \<Rightarrow> QuotaRequest" where
  "filed_request uid phase =
     \<lparr>qr_Meta = \<lparr>om_Name = ''quota-1'', om_Namespace = ''team-dev'', om_UID = uid, om_Generation = 1,
        om_CreationTimestamp = 5, om_DeletionTimestamp = None\<rparr>,
      qr_Spec = \<lparr>qr_Division = ''team'', qr_Target = zero_quota, qr_Reason = ''more load'',
        qr_RequestedBy = ''ada'', qr_IdempotencyKey = [], qr_Withdrawn = False\<rparr>,
      qr_Status = \<lparr>qr_Phase = phase, qr_Recommendation = None, qr_Preflight = None, qr_Simulation = None,
        qr_DecisionRef = [], qr_EvidenceDigest = ''aa'', qr_ObservedGeneration = 0, qr_Conditions = []\<rparr>\<rparr>"

definition filed_decision :: Decision where
  "filed_decision =
     \<lparr>dc_Meta = \<lparr>om_Name = ''decision-1'', om_Namespace = [], om_UID = ''d1'', om_Generation = 1,
        om_CreationTimestamp = 7, om_DeletionTimestamp = None\<rparr>,
      dc_Spec = \<lparr>dc_Request = \<lparr>ref_Kind = ''QuotaRequest'', rref_Name = ''quota-1'', rref_Namespace = ''team-dev'',
          rref_UID = ''r1''\<rparr>,
        dc_Outcome = OutcomeRejected, dc_Reason = ''fine'',
        dc_Evidence = \<lparr>ev_Recommendation = None, ev_Preflight = None, ev_Simulation = None, ev_Digest = ''aa'',
          ev_CapturedAt = 6\<rparr>,
        dc_DecidedBy = ''bob'', dc_GrantedUntil = None, dc_RevokedReason = ''late''\<rparr>,
      dc_Status = \<lparr>dc_Applied = False, dc_AppliedAt = None, dc_Expired = False, dc_Message = [],
        dc_ObservedGeneration = 0, dc_Conditions = []\<rparr>\<rparr>"

definition plain_encoders :: Encoders where
  "plain_encoders = \<lparr>enc_spec = (\<lambda>_. Some ''s''), enc_recommendation = (\<lambda>_. Some ''r''),
     enc_preflight = (\<lambda>_. Some ''p''), enc_evidence = (\<lambda>_. Some ''e'')\<rparr>"

definition no_rows :: RequestDB where
  "no_rows = \<lparr>db_requests = [], db_decisions = [], db_divisions = [(''v1'', ''team'')]\<rparr>"

definition decided_rows :: RequestDB where
  "decided_rows = fst (decisionProjector_Reconcile plain_encoders 9 (Inr filed_decision)
     (Inr (filed_request ''r1'' RequestRejected)) no_rows)"


definition filed_rows :: RequestDB where
  "filed_rows = fst (Projector_Reconcile plain_encoders 9 (''team-dev'', ''quota-1'')
     (Inr (filed_request ''r1'' RequestPending)) no_rows)"

theorem projected_request_is_found_witness:
  "\<exists>listed \<in> set (ListRequests filed_rows None [] True). sr_UID (fst listed) = ''r1''"
proof -
  have "snd (Projector_Reconcile plain_encoders 9 (''team-dev'', ''quota-1'') (Inr (filed_request ''r1'' RequestPending)) no_rows)"
    by code_simp
  then have "Projector_Reconcile plain_encoders 9 (''team-dev'', ''quota-1'') (Inr (filed_request ''r1'' RequestPending)) no_rows =
      (filed_rows, True)"
    by (simp add: filed_rows_def prod_eq_iff)
  moreover have "db_ok no_rows"
    by (simp add: db_ok_def no_rows_def)
  ultimately have "(\<exists>listed \<in> set (ListRequests filed_rows None [] True).
        sr_UID (fst listed) = om_UID (qr_Meta (filed_request ''r1'' RequestPending))) \<longleftrightarrow>
      qr_Phase (qr_Status (filed_request ''r1'' RequestPending)) \<in>
        {NoRequestPhase, RequestPending, RequestAwaitingDecision, RequestChangesRequested}"
    using projected_request_is_found by blast
  then show ?thesis
    by (simp add: filed_request_def)
qed

theorem recreated_request_is_not_projected_witness:
  "Projector_Reconcile plain_encoders 20 (''team-dev'', ''quota-1'') (Inr (filed_request ''r2'' RequestPending)) decided_rows =
     (decided_rows, False)"
proof -
  have "map row_uid (db_requests decided_rows) = [''r1'']"
    "map row_key (db_requests decided_rows) = [(''team-dev'', KindQuota, ''quota-1'')]"
    "map sd_RequestUID (db_decisions decided_rows) = [''r1'']"
    by code_simp+
  then obtain old d where "db_requests decided_rows = [old]" "row_uid old = ''r1''"
    "row_key old = (''team-dev'', KindQuota, ''quota-1'')" "db_decisions decided_rows = [d]" "sd_RequestUID d = ''r1''"
    by (auto simp: map_eq_Cons_conv)
  moreover have "db_ok decided_rows"
    unfolding decided_rows_def by (rule decisionProjector_Reconcile_ok) (simp add: db_ok_def no_rows_def)
  ultimately show ?thesis
    by (intro recreated_request_is_not_projected [of _ old _ d]) (simp_all add: filed_request_def)
qed

end
