(* ===== verification/RequestMessages.thy ===== *)
theory RequestMessages
  imports RequestController RequestStore
begin

text \<open>
  The messages the request and decision services answer with, and the conversions to them, from
  internal/requests/service.go, decisions.go and projector.go: protoPhase, protoOutcome,
  protoCompute, protoRecommendation, protoPreflight, protoRequestFromCR, protoRequest,
  protoSimulation, protoDecision and protoStoredDecision. A message is a record of the fields
  the conversion sets; an absent message or timestamp is None. Decoding stored json is an
  argument, as encoding is for the projector.
\<close>

datatype ProtoPhase = PHASE_PENDING | PHASE_AWAITING_DECISION | PHASE_APPROVED | PHASE_REJECTED
  | PHASE_CHANGES_REQUESTED | PHASE_APPLIED | PHASE_EXPIRED | PHASE_WITHDRAWN

datatype ProtoOutcome = OUTCOME_UNSPECIFIED | OUTCOME_APPROVED | OUTCOME_REJECTED | OUTCOME_CHANGES_REQUESTED

datatype Severity = SEVERITY_WARN | SEVERITY_BLOCK

definition protoPhase :: "string \<Rightarrow> ProtoPhase" where
  "protoPhase phase =
     (if phase = ''awaiting_decision'' then PHASE_AWAITING_DECISION
      else if phase = ''approved'' then PHASE_APPROVED
      else if phase = ''rejected'' then PHASE_REJECTED
      else if phase = ''changes_requested'' then PHASE_CHANGES_REQUESTED
      else if phase = ''applied'' then PHASE_APPLIED
      else if phase = ''expired'' then PHASE_EXPIRED
      else if phase = ''withdrawn'' then PHASE_WITHDRAWN
      else PHASE_PENDING)"

fun protoOutcome :: "Outcome \<Rightarrow> ProtoOutcome" where
  "protoOutcome OutcomeApproved = OUTCOME_APPROVED"
| "protoOutcome OutcomeRejected = OUTCOME_REJECTED"
| "protoOutcome OutcomeChangesRequested = OUTCOME_CHANGES_REQUESTED"

definition storedOutcome :: "string \<Rightarrow> ProtoOutcome" where
  "storedOutcome outcome =
     (if outcome = ''approved'' then OUTCOME_APPROVED
      else if outcome = ''rejected'' then OUTCOME_REJECTED
      else if outcome = ''changes_requested'' then OUTCOME_CHANGES_REQUESTED
      else OUTCOME_UNSPECIFIED)"

definition short_digest :: "string \<Rightarrow> string" where
  "short_digest digest = (if length digest \<le> 12 then digest else take 12 digest)"

section \<open>Amounts and evidence\<close>

record PCompute =
  pm_CpuMillicores :: int
  pm_MemoryBytes :: int
  pm_StorageBytes :: int
  pm_Pods :: int

definition protoCompute :: "Quota \<Rightarrow> PCompute" where
  "protoCompute q = \<lparr>pm_CpuMillicores = MilliValue (q_CPU q), pm_MemoryBytes = Value (q_Memory q),
     pm_StorageBytes = Value (q_Storage q), pm_Pods = q_Pods q\<rparr>"

text \<open>The getters of an absent message answer zero.\<close>

definition computeFromProto :: "PCompute option \<Rightarrow> RCompute" where
  "computeFromProto c =
     (case c of
        None \<Rightarrow> zero_rcompute
      | Some c \<Rightarrow> \<lparr>rc_CPUMillicores = pm_CpuMillicores c, rc_MemoryBytes = pm_MemoryBytes c,
                   rc_StorageBytes = pm_StorageBytes c, rc_Pods = pm_Pods c\<rparr>)"

record QuotaRecommendation =
  pq_Current :: PCompute
  pq_ObservedP95 :: PCompute
  pq_ObservedP99 :: PCompute
  pq_Proposed :: PCompute
  pq_HeadroomRatio :: rat
  pq_Window :: string
  pq_Basis :: string
  pq_ExhaustionAt :: "time option"

definition percent_ratio :: "int \<Rightarrow> rat" where
  "percent_ratio percent = fdiv (float_of_int percent) 100"

definition protoRecommendation :: "Recommendation option \<Rightarrow> QuotaRecommendation option" where
  "protoRecommendation r = map_option (\<lambda>r.
     \<lparr>pq_Current = protoCompute (rec_Current r), pq_ObservedP95 = protoCompute (rec_ObservedP95 r),
      pq_ObservedP99 = protoCompute (rec_ObservedP99 r), pq_Proposed = protoCompute (rec_Proposed r),
      pq_HeadroomRatio = percent_ratio (rec_HeadroomPercent r), pq_Window = rec_Window r, pq_Basis = rec_Basis r,
      pq_ExhaustionAt = rec_ExhaustionAt r\<rparr>) r"

record PolicyRejection =
  rj_Policy :: string
  rj_Rule :: string
  rj_Field :: string
  rj_Message :: string
  rj_Severity :: Severity

record PPreflight =
  pp_Admitted :: bool
  pp_QuotaUtilisationAfter :: rat
  pp_Rejections :: "PolicyRejection list"
  pp_EvaluatedAt :: "time option"

definition rejection_of :: "PreflightFinding \<Rightarrow> PolicyRejection" where
  "rejection_of f = \<lparr>rj_Policy = pf_Check f, rj_Rule = pf_Check f, rj_Field = pf_Field f, rj_Message = pf_Message f,
     rj_Severity = (if pf_Severity f = ''block'' then SEVERITY_BLOCK else SEVERITY_WARN)\<rparr>"

definition protoPreflight :: "PreflightResult option \<Rightarrow> PPreflight option" where
  "protoPreflight p = map_option (\<lambda>p.
     \<lparr>pp_Admitted = Admitted p, pp_QuotaUtilisationAfter = percent_ratio (ClusterCommitmentPercent p),
      pp_Rejections = map rejection_of (Findings p), pp_EvaluatedAt = EvaluatedAt p\<rparr>) p"

section \<open>Requests\<close>

record Decided =
  dcd_Uid :: string
  dcd_Decider :: string
  dcd_Outcome :: string
  dcd_Reason :: string
  dcd_DecidedAt :: time
  dcd_GrantedUntil :: "time option"

record ResourceRequest =
  rr_Uid :: string
  rr_Name :: string
  rr_Namespace :: string
  rr_Division :: string
  rr_Reason :: string
  rr_Phase :: ProtoPhase
  rr_Requester :: string
  rr_QuotaTarget :: PCompute
  rr_Recommendation :: "QuotaRecommendation option"
  rr_Preflight :: "PPreflight option"
  rr_EvidenceDigest :: string
  rr_CreatedAt :: time
  rr_Decided :: "Decided option"

definition protoRequestFromCR :: "QuotaRequest \<Rightarrow> ResourceRequest" where
  "protoRequestFromCR r =
     \<lparr>rr_Uid = om_UID (qr_Meta r), rr_Name = om_Name (qr_Meta r), rr_Namespace = om_Namespace (qr_Meta r),
      rr_Division = qr_Division (qr_Spec r), rr_Reason = qr_Reason (qr_Spec r), rr_Phase = protoPhase (phaseOf r),
      rr_Requester = qr_RequestedBy (qr_Spec r), rr_QuotaTarget = protoCompute (qr_Target (qr_Spec r)),
      rr_Recommendation = protoRecommendation (qr_Recommendation (qr_Status r)),
      rr_Preflight = protoPreflight (qr_Preflight (qr_Status r)),
      rr_EvidenceDigest = qr_EvidenceDigest (qr_Status r), rr_CreatedAt = om_CreationTimestamp (qr_Meta r),
      rr_Decided = None\<rparr>"

record Decoders =
  dec_spec :: "string \<Rightarrow> string + QuotaRequestSpec"
  dec_recommendation :: "string \<Rightarrow> string + Recommendation"
  dec_preflight :: "string \<Rightarrow> string + PreflightResult"

text \<open>A stored json field that may be absent: nothing, or the decoded value.\<close>

definition decoded :: "(string \<Rightarrow> string + 'a) \<Rightarrow> string \<Rightarrow> string \<Rightarrow> string + 'a option" where
  "decoded dec what raw =
     (if raw = [] \<or> raw = ''null'' then Inr None
      else case dec raw of Inl err \<Rightarrow> Inl (what @ '': '' @ err) | Inr x \<Rightarrow> Inr (Some x))"

definition decided_of :: "StoredDecision \<Rightarrow> Decided" where
  "decided_of d = \<lparr>dcd_Uid = sd_UID d, dcd_Decider = sd_Decider d, dcd_Outcome = sd_Outcome d, dcd_Reason = sd_Reason d,
     dcd_DecidedAt = sd_DecidedAt d, dcd_GrantedUntil = sd_GrantedUntil d\<rparr>"

definition protoRequest :: "Decoders \<Rightarrow> StoredRequest \<times> StoredDecision option \<Rightarrow> string + ResourceRequest" where
  "protoRequest dec stored =
     (let r = fst stored in
      case dec_spec dec (sr_Spec r) of
        Inl err \<Rightarrow> Inl (''decode stored spec of '' @ sr_UID r @ '': '' @ err)
      | Inr spec \<Rightarrow>
     (case decoded (dec_recommendation dec) (''decode stored recommendation of '' @ sr_UID r) (sr_Recommendation r) of
        Inl err \<Rightarrow> Inl err
      | Inr rcm \<Rightarrow>
     (case decoded (dec_preflight dec) (''decode stored preflight of '' @ sr_UID r) (sr_Preflight r) of
        Inl err \<Rightarrow> Inl err
      | Inr pre \<Rightarrow>
          Inr \<lparr>rr_Uid = sr_UID r, rr_Name = sr_Name r, rr_Namespace = sr_Namespace r, rr_Division = sr_Division r,
               rr_Reason = sr_Reason r, rr_Phase = protoPhase (sr_Phase r), rr_Requester = sr_Requester r,
               rr_QuotaTarget = protoCompute (qr_Target spec),
               rr_Recommendation = protoRecommendation rcm, rr_Preflight = protoPreflight pre,
               rr_EvidenceDigest = sr_EvidenceDigest r, rr_CreatedAt = sr_CreatedAt r,
               rr_Decided = map_option decided_of (snd stored)\<rparr>)))"

text \<open>The requests of a page: the first that cannot be decoded fails the page.\<close>

fun proto_requests :: "Decoders \<Rightarrow> (StoredRequest \<times> StoredDecision option) list \<Rightarrow> string + ResourceRequest list" where
  "proto_requests dec [] = Inr []"
| "proto_requests dec (r # rs) =
     (case protoRequest dec r of
        Inl err \<Rightarrow> Inl err
      | Inr x \<Rightarrow> (case proto_requests dec rs of Inl err \<Rightarrow> Inl err | Inr xs \<Rightarrow> Inr (x # xs)))"

section \<open>Decisions and simulations\<close>

record PDecision =
  pd_Uid :: string
  pd_RequestUid :: string
  pd_Decider :: string
  pd_Outcome :: ProtoOutcome
  pd_Reason :: string
  pd_DecidedAt :: time
  pd_Recommendation :: "QuotaRecommendation option"
  pd_Preflight :: "PPreflight option"
  pd_CapturedAt :: "time option"
  pd_GrantedUntil :: "time option"
  pd_RevokedAt :: "time option"
  pd_RevokedReason :: string

definition protoDecision :: "Decision \<Rightarrow> PDecision" where
  "protoDecision d =
     \<lparr>pd_Uid = om_UID (dc_Meta d), pd_RequestUid = rref_UID (dc_Request (dc_Spec d)), pd_Decider = dc_DecidedBy (dc_Spec d),
      pd_Outcome = protoOutcome (dc_Outcome (dc_Spec d)), pd_Reason = dc_Reason (dc_Spec d),
      pd_DecidedAt = om_CreationTimestamp (dc_Meta d),
      pd_Recommendation = protoRecommendation (ev_Recommendation (dc_Evidence (dc_Spec d))),
      pd_Preflight = protoPreflight (ev_Preflight (dc_Evidence (dc_Spec d))),
      pd_CapturedAt = Some (ev_CapturedAt (dc_Evidence (dc_Spec d))),
      pd_GrantedUntil = dc_GrantedUntil (dc_Spec d), pd_RevokedAt = None, pd_RevokedReason = dc_RevokedReason (dc_Spec d)\<rparr>"

definition protoStoredDecision :: "StoredDecision \<Rightarrow> PDecision" where
  "protoStoredDecision d =
     \<lparr>pd_Uid = sd_UID d, pd_RequestUid = sd_RequestUID d, pd_Decider = sd_Decider d,
      pd_Outcome = storedOutcome (sd_Outcome d), pd_Reason = sd_Reason d, pd_DecidedAt = sd_DecidedAt d,
      pd_Recommendation = None, pd_Preflight = None, pd_CapturedAt = None,
      pd_GrantedUntil = sd_GrantedUntil d, pd_RevokedAt = sd_RevokedAt d, pd_RevokedReason = sd_RevokedReason d\<rparr>"

record ImpactSimulation =
  is_QuotaBefore :: PCompute
  is_QuotaAfter :: PCompute
  is_CommitmentBefore :: rat
  is_CommitmentAfter :: rat
  is_Schedulable :: bool
  is_Verdict :: string
  is_NodesNoLongerFitting :: "string list"
  is_PodsAtRisk :: "SimPendingPod list"
  is_SimulatedAt :: "time option"

definition recommendedCurrent :: "QuotaRequest \<Rightarrow> Quota" where
  "recommendedCurrent r =
     (case qr_Recommendation (qr_Status r) of None \<Rightarrow> zero_quota | Some rec \<Rightarrow> rec_Current rec)"

definition typical_pod_at_risk :: "QuotaRequest \<Rightarrow> SimPendingPod" where
  "typical_pod_at_risk r =
     \<lparr>sp_Namespace = qr_Division (qr_Spec r), sp_Name = ''a pod of the division'' @ [CHR 0x27] @ ''s typical size'',
      sp_Reason = ''no node has room for it, even though the quota would allow it''\<rparr>"

definition protoSimulation :: "QuotaRequest \<Rightarrow> Simulation \<Rightarrow> ImpactSimulation" where
  "protoSimulation r s =
     \<lparr>is_QuotaBefore = protoCompute (recommendedCurrent r), is_QuotaAfter = protoCompute (qr_Target (qr_Spec r)),
      is_CommitmentBefore = percent_ratio (sim_CommitmentBeforePercent s),
      is_CommitmentAfter = percent_ratio (sim_CommitmentAfterPercent s),
      is_Schedulable = sim_Schedulable s, is_Verdict = sim_Verdict s,
      is_NodesNoLongerFitting = sim_NodesExhausted s,
      is_PodsAtRisk = sim_PendingNow s @ replicate (nat (sim_UnplacedPods s)) (typical_pod_at_risk r),
      is_SimulatedAt = sim_SimulatedAt s\<rparr>"

end
