(* ===== verification/RequestService.thy ===== *)
theory RequestService
  imports RequestMessages Identity
begin

text \<open>
  The request service, internal/requests/service.go: recommending and checking a quota, filing,
  listing, reading and withdrawing requests. A handler is a function of the caller in the
  context, the message, one reading of the clock and what the store and the API server answer;
  it returns the writes it got accepted and its answer, an error code with its text or a
  response. The page and freshness fields of a response, which carry no decision, are left out.
\<close>

datatype Code = CodeInvalidArgument | CodeNotFound | CodePermissionDenied | CodeFailedPrecondition | CodeAborted
  | CodeUnimplemented | CodeInternal | CodeUnavailable | CodeUnauthenticated

type_synonym 'a answer = "(Code \<times> string) + 'a"

definition defaultGrant :: duration where "defaultGrant = 90 * 24 * hour"

text \<open>What is sent to be created; the server adds a name, a uid and the status.\<close>

record RequestDraft =
  rq_GenerateName :: string
  rq_Namespace :: string
  rq_Labels :: "(string \<times> string) list"
  rq_Spec :: QuotaRequestSpec

datatype RequestWrite = CreatedRequest RequestDraft | PatchedRequest QuotaRequest

text \<open>
  The reader of the service, the client that acts as a caller, the store, and the parts that
  gather evidence. \<^verbatim>\<open>rs_get\<close> is the Get of the caller's client.
\<close>

record ServiceDeps =
  rs_division :: "string \<Rightarrow> api_error + Division"
  rs_list :: "string \<Rightarrow> api_error + QuotaRequest list"
  rs_as_caller :: "Actor \<Rightarrow> string option"
  rs_get :: "Actor \<Rightarrow> string \<times> string \<Rightarrow> api_error + QuotaRequest"
  rs_create :: "Actor \<Rightarrow> RequestDraft \<Rightarrow> api_error + QuotaRequest"
  rs_patch :: "Actor \<Rightarrow> QuotaRequest \<Rightarrow> api_error + QuotaRequest"
  rs_store :: "string + RequestDB"
  rs_decoders :: Decoders
  rs_evidence :: RequestDeps

definition caller :: "Actor option \<Rightarrow> Actor answer" where
  "caller ctx = (case FromContext ctx of
     None \<Rightarrow> Inl (CodeUnauthenticated, ''sign in at /auth/login'') | Some actor \<Rightarrow> Inr actor)"

definition division_named :: "ServiceDeps \<Rightarrow> string \<Rightarrow> Division answer" where
  "division_named deps name =
     (if name = [] then Inl (CodeInvalidArgument, ''name the division explicitly'')
      else case rs_division deps name of
        Inl _ \<Rightarrow> Inl (CodeNotFound, ''division '' @ name @ '' not found'')
      | Inr d \<Rightarrow> Inr d)"

definition byIdempotencyKey :: "ServiceDeps \<Rightarrow> string \<Rightarrow> string \<Rightarrow> QuotaRequest option answer" where
  "byIdempotencyKey deps namespace key =
     (if key = [] then Inr None
      else case rs_list deps namespace of
        Inl err \<Rightarrow> Inl (CodeInternal, error_text err)
      | Inr items \<Rightarrow> Inr (find (\<lambda>r. qr_IdempotencyKey (qr_Spec r) = key) items))"

text \<open>Reading a request of the store by its uid.\<close>

definition stored_request :: "ServiceDeps \<Rightarrow> string \<Rightarrow> (StoredRequest \<times> StoredDecision option) answer" where
  "stored_request deps uid =
     (case rs_store deps of
        Inl err \<Rightarrow> Inl (CodeInternal, err)
      | Inr db \<Rightarrow>
          (case RequestStore.GetRequest db uid of
             None \<Rightarrow> Inl (CodeNotFound, ''request '' @ uid @ '' not found'')
           | Some r \<Rightarrow> Inr r))"

definition only_division :: "string \<Rightarrow> string list option" where
  "only_division division = (if division = [] then None else Some [division])"

section \<open>Evidence on demand\<close>

definition RecommendQuota ::
  "ServiceDeps \<Rightarrow> time \<Rightarrow> Actor option \<Rightarrow> string \<Rightarrow> (QuotaRecommendation option \<times> time) answer" where
  "RecommendQuota deps now ctx name =
     (case caller ctx of Inl err \<Rightarrow> Inl err | Inr _ \<Rightarrow>
     (case division_named deps name of Inl err \<Rightarrow> Inl err | Inr division \<Rightarrow>
     (case rd_recommender (rs_evidence deps) of
        None \<Rightarrow> Inl (CodeUnavailable, ''no metrics source is configured, so no number can be proposed'')
      | Some (visit, recommender) \<Rightarrow>
          if \<not> Available recommender
          then Inl (CodeUnavailable, ''no metrics source is configured, so no number can be proposed'')
          else (let current = quotaOf (dv_Quota (dv_Spec division)) in
            case Recommend visit recommender now (dv_Namespaces (dv_Status division)) current of
              Inl err \<Rightarrow> Inl (if err_no_usage err \<or> err_unavailable err then CodeUnavailable else CodeInternal, err_text err)
            | Inr r \<Rightarrow> Inr (protoRecommendation (Some (toAPIRecommendation (rs_evidence deps) r current)), now)))))"

definition service_Preflight ::
  "ServiceDeps \<Rightarrow> time \<Rightarrow> Actor option \<Rightarrow> string \<Rightarrow> PCompute option \<Rightarrow> (PPreflight option \<times> time) answer" where
  "service_Preflight deps now ctx division target =
     (case caller ctx of Inl err \<Rightarrow> Inl err | Inr _ \<Rightarrow>
     (case rd_preflight (rs_evidence deps) of
        None \<Rightarrow> Inl (CodeUnavailable, ''no capacity source is configured'')
      | Some view \<Rightarrow>
          (case Evaluate view now division (computeFromProto target) of
             Inl err \<Rightarrow> Inl (CodeInternal, err)
           | Inr result \<Rightarrow> Inr (protoPreflight (Some result), now))))"

section \<open>Filing a request\<close>

record SubmitMessage =
  sm_IsQuota :: bool
  sm_Division :: string
  sm_Reason :: string
  sm_IdempotencyKey :: string
  sm_Target :: "PCompute option"

definition request_draft :: "ServiceDeps \<Rightarrow> Actor \<Rightarrow> Division \<Rightarrow> string \<Rightarrow> string \<Rightarrow> SubmitMessage \<Rightarrow> RequestDraft" where
  "request_draft deps actor division namespace reason msg =
     \<lparr>rq_GenerateName = ''quota-'', rq_Namespace = namespace,
      rq_Labels = [(''govern.marstack.io/division'', om_Name (dv_Meta division))],
      rq_Spec = \<lparr>qr_Division = om_Name (dv_Meta division),
        qr_Target = quotaFromCompute (rs_evidence deps) (computeFromProto (sm_Target msg)), qr_Reason = reason,
        qr_RequestedBy = ac_Subject actor, qr_IdempotencyKey = sm_IdempotencyKey msg, qr_Withdrawn = False\<rparr>\<rparr>"

definition SubmitRequest ::
  "ServiceDeps \<Rightarrow> Actor option \<Rightarrow> SubmitMessage \<Rightarrow> RequestWrite list \<times> ResourceRequest answer" where
  "SubmitRequest deps ctx msg =
     (case caller ctx of Inl err \<Rightarrow> ([], Inl err) | Inr actor \<Rightarrow>
     (if \<not> sm_IsQuota msg then ([], Inl (CodeUnimplemented, ''only quota requests are accepted today'')) else
     (case division_named deps (sm_Division msg) of Inl err \<Rightarrow> ([], Inl err) | Inr division \<Rightarrow>
     (case dv_Namespaces (dv_Status division) of
        [] \<Rightarrow> ([], Inl (CodeFailedPrecondition,
                ''division '' @ om_Name (dv_Meta division) @ '' has no namespace to file the request in yet''))
      | namespace # _ \<Rightarrow>
     (let reason = TrimSpace (sm_Reason msg) in
      if length reason < 10 then ([], Inl (CodeInvalidArgument, ''a request needs a reason of at least ten characters'')) else
     (case rs_as_caller deps actor of Some err \<Rightarrow> ([], Inl (CodeInternal, err)) | None \<Rightarrow>
     (case byIdempotencyKey deps namespace (sm_IdempotencyKey msg) of
        Inl err \<Rightarrow> ([], Inl err)
      | Inr (Some existing) \<Rightarrow> ([], Inr (protoRequestFromCR existing))
      | Inr None \<Rightarrow>
          (let draft = request_draft deps actor division namespace reason msg in
           case rs_create deps actor draft of
             Inl err \<Rightarrow> ([], Inl (CodePermissionDenied, ''create the request as '' @ Label actor @ '': '' @ error_text err))
           | Inr created \<Rightarrow> ([CreatedRequest draft], Inr (protoRequestFromCR created))))))))))"

section \<open>Reading and withdrawing\<close>

definition service_ListRequests :: "ServiceDeps \<Rightarrow> Actor option \<Rightarrow> string \<Rightarrow> ResourceRequest list answer" where
  "service_ListRequests deps ctx division =
     (case caller ctx of Inl err \<Rightarrow> Inl err | Inr _ \<Rightarrow>
     (case rs_store deps of
        Inl err \<Rightarrow> Inl (CodeInternal, err)
      | Inr db \<Rightarrow>
          (case proto_requests (rs_decoders deps) (RequestStore.ListRequests db (only_division division) [] False) of
             Inl err \<Rightarrow> Inl (CodeInternal, err)
           | Inr found \<Rightarrow> Inr found)))"

definition service_GetRequest :: "ServiceDeps \<Rightarrow> Actor option \<Rightarrow> string \<Rightarrow> ResourceRequest answer" where
  "service_GetRequest deps ctx uid =
     (case caller ctx of Inl err \<Rightarrow> Inl err | Inr _ \<Rightarrow>
     (case stored_request deps uid of
        Inl err \<Rightarrow> Inl err
      | Inr stored \<Rightarrow>
          (case protoRequest (rs_decoders deps) stored of
             Inl err \<Rightarrow> Inl (CodeInternal, err)
           | Inr r \<Rightarrow> Inr r)))"

definition WithdrawRequest ::
  "ServiceDeps \<Rightarrow> Actor option \<Rightarrow> string \<Rightarrow> RequestWrite list \<times> ResourceRequest answer" where
  "WithdrawRequest deps ctx uid =
     (case caller ctx of Inl err \<Rightarrow> ([], Inl err) | Inr actor \<Rightarrow>
     (case stored_request deps uid of Inl err \<Rightarrow> ([], Inl err) | Inr (stored, _) \<Rightarrow>
     (case rs_as_caller deps actor of Some err \<Rightarrow> ([], Inl (CodeInternal, err)) | None \<Rightarrow>
     (case rs_get deps actor (sr_Namespace stored, sr_Name stored) of
        Inl err \<Rightarrow> ([], Inl (CodePermissionDenied, error_text err))
      | Inr r \<Rightarrow>
          (let patched = r\<lparr>qr_Spec := (qr_Spec r)\<lparr>qr_Withdrawn := True\<rparr>\<rparr> in
           case rs_patch deps actor patched of
             Inl err \<Rightarrow> ([], Inl (CodePermissionDenied, ''withdraw as '' @ Label actor @ '': '' @ error_text err))
           | Inr answered \<Rightarrow> ([PatchedRequest patched], Inr (protoRequestFromCR answered)))))))"

section \<open>Properties\<close>

lemma caller_Inr: "caller ctx = Inr actor \<longleftrightarrow> ctx = Some actor \<and> ac_Subject actor \<noteq> []"
  by (auto simp: caller_def FromContext_def split: option.splits if_splits)

text \<open>
  C20. A request is filed only for a signed-in caller and in the name of that caller, into the
  first namespace of the division that was asked for, with a reason of ten bytes or more and for
  the target of the message; when the key of the message was used in that namespace before,
  nothing is written and the answer is the request of that key, whatever else was asked for.
  An error means that nothing was written.
\<close>
theorem request_is_filed_once_per_key:
  assumes "SubmitRequest deps ctx msg = (writes, answer)"
  shows "(case answer of
     Inl _ \<Rightarrow> writes = []
   | Inr response \<Rightarrow>
       \<exists>actor division namespace rest. ctx = Some actor \<and> ac_Subject actor \<noteq> [] \<and>
         rs_division deps (sm_Division msg) = Inr division \<and> dv_Namespaces (dv_Status division) = namespace # rest \<and>
         10 \<le> length (TrimSpace (sm_Reason msg)) \<and>
         (if sm_IdempotencyKey msg \<noteq> [] \<and>
             (\<exists>items. rs_list deps namespace = Inr items \<and> (\<exists>r \<in> set items. qr_IdempotencyKey (qr_Spec r) = sm_IdempotencyKey msg))
          then writes = [] \<and> (\<exists>items existing. rs_list deps namespace = Inr items \<and> existing \<in> set items \<and>
                 qr_IdempotencyKey (qr_Spec existing) = sm_IdempotencyKey msg \<and> response = protoRequestFromCR existing)
          else \<exists>draft created. writes = [CreatedRequest draft] \<and> rs_create deps actor draft = Inr created \<and>
                 response = protoRequestFromCR created \<and> rq_Namespace draft = namespace \<and>
                 qr_RequestedBy (rq_Spec draft) = ac_Subject actor \<and>
                 qr_Division (rq_Spec draft) = om_Name (dv_Meta division) \<and>
                 qr_Target (rq_Spec draft) = quotaFromCompute (rs_evidence deps) (computeFromProto (sm_Target msg)) \<and>
                 qr_IdempotencyKey (rq_Spec draft) = sm_IdempotencyKey msg \<and> \<not> qr_Withdrawn (rq_Spec draft)))"
proof (cases answer)
  case (Inl err)
  then show ?thesis
    using assms by (auto simp: SubmitRequest_def Let_def split: sum.splits list.splits option.splits if_splits)
next
  case (Inr response)
  obtain actor division namespace rest where start: "caller ctx = Inr actor" "division_named deps (sm_Division msg) = Inr division"
      "dv_Namespaces (dv_Status division) = namespace # rest" "10 \<le> length (TrimSpace (sm_Reason msg))"
    using assms Inr by (auto simp: SubmitRequest_def Let_def split: sum.splits list.splits option.splits if_splits)
  then have division: "rs_division deps (sm_Division msg) = Inr division" and actor: "ctx = Some actor" "ac_Subject actor \<noteq> []"
    by (auto simp: division_named_def caller_Inr split: if_splits sum.splits)
  let ?key = "sm_IdempotencyKey msg"
  consider (used) items existing where "?key \<noteq> []" "rs_list deps namespace = Inr items"
      "find (\<lambda>r. qr_IdempotencyKey (qr_Spec r) = ?key) items = Some existing" "writes = []"
      "response = protoRequestFromCR existing"
    | (fresh) draft created where "byIdempotencyKey deps namespace ?key = Inr None"
      "draft = request_draft deps actor division namespace (TrimSpace (sm_Reason msg)) msg"
      "writes = [CreatedRequest draft]" "rs_create deps actor draft = Inr created" "response = protoRequestFromCR created"
    using assms Inr start
    by (auto simp: SubmitRequest_def Let_def byIdempotencyKey_def split: sum.splits option.splits if_splits)
  then show ?thesis
  proof cases
    case used
    from find_by_key_Some [OF used(3)] used start division actor Inr show ?thesis
      by auto
  next
    case fresh
    then have "\<not> (?key \<noteq> [] \<and> (\<exists>items. rs_list deps namespace = Inr items \<and>
        (\<exists>r \<in> set items. qr_IdempotencyKey (qr_Spec r) = ?key)))"
      by (auto simp: byIdempotencyKey_def find_None_iff split: if_splits)
    with fresh start division actor Inr show ?thesis
      by (auto simp: request_draft_def)
  qed
qed



section \<open>Examples\<close>

definition example_caller :: Actor where
  "example_caller = \<lparr>ac_Subject = ''ada'', ac_Email = [], ac_Groups = [''dev''], ac_ActiveDivision = ''team'',
     ac_Mode = AuthModeOIDC, ac_ExpiresAt = 500\<rparr>"

definition plain_decoders :: Decoders where
  "plain_decoders = \<lparr>dec_spec = (\<lambda>_. Inr (qr_Spec (filed_request ''r1'' RequestPending))),
     dec_recommendation = (\<lambda>_. Inl ''none''), dec_preflight = (\<lambda>_. Inl ''none'')\<rparr>"

definition strict_encoders :: Encoders where
  "strict_encoders = \<lparr>enc_spec = (\<lambda>s. if s = qr_Spec (filed_request ''r1'' RequestPending) then Some ''s'' else None),
     enc_recommendation = (\<lambda>_. None), enc_preflight = (\<lambda>_. None), enc_evidence = (\<lambda>_. Some ''e'')\<rparr>"

definition example_service :: "RequestDB \<Rightarrow> QuotaRequest list \<Rightarrow> ServiceDeps" where
  "example_service db items =
     \<lparr>rs_division = (\<lambda>_. Inr example_division), rs_list = (\<lambda>_. Inr items), rs_as_caller = (\<lambda>_. None),
      rs_get = (\<lambda>_ _. Inr (filed_request ''r1'' RequestAwaitingDecision)),
      rs_create = (\<lambda>_ draft. Inr ((filed_request ''r9'' NoRequestPhase)\<lparr>qr_Spec := rq_Spec draft\<rparr>)),
      rs_patch = (\<lambda>_ r. Inr r), rs_store = Inr db, rs_decoders = plain_decoders, rs_evidence = example_request_deps\<rparr>"

definition example_submit :: SubmitMessage where
  "example_submit = \<lparr>sm_IsQuota = True, sm_Division = ''team'', sm_Reason = '' more load is coming '', sm_IdempotencyKey = ''k'',
     sm_Target = None\<rparr>"

lemma example_caller_known: "caller (Some example_caller) = Inr example_caller"
  by (simp add: caller_Inr example_caller_def)

lemma example_reason: "length (TrimSpace (sm_Reason example_submit)) = 19"
  by code_simp

theorem request_is_filed_once_per_key_witness:
  "\<exists>draft response. SubmitRequest (example_service no_rows []) (Some example_caller) example_submit =
     ([CreatedRequest draft], Inr response) \<and> qr_RequestedBy (rq_Spec draft) = ''ada''"
proof -
  let ?deps = "example_service no_rows []"
  have "division_named ?deps (sm_Division example_submit) = Inr example_division" "sm_IsQuota example_submit"
      "dv_Namespaces (dv_Status example_division) = [''payments-dev'']" "rs_as_caller ?deps example_caller = None"
      "byIdempotencyKey ?deps ''payments-dev'' (sm_IdempotencyKey example_submit) = Inr None"
    by (simp_all add: example_service_def division_named_def example_submit_def example_division_def byIdempotencyKey_def)
  then obtain draft response where run: "SubmitRequest ?deps (Some example_caller) example_submit = ([CreatedRequest draft], Inr response)"
    using example_caller_known example_reason
    by (simp add: SubmitRequest_def Let_def) (simp add: example_service_def)
  from request_is_filed_once_per_key [OF run] have "qr_RequestedBy (rq_Spec draft) = ac_Subject example_caller"
    by (auto split: if_splits)
  with run show ?thesis
    by (auto simp: example_caller_def)
qed


end
