(* ===== verification/DecisionService.thy ===== *)
theory DecisionService
  imports RequestService
begin

text \<open>
  The decision service, internal/requests/decisions.go: the queue, the simulation of a request,
  deciding, listing and reading decisions, and revoking a grant. As in the request service, a
  handler returns the writes the API server accepted and its answer.
\<close>

record DecisionDraft =
  df_GenerateName :: string
  df_Labels :: "(string \<times> string) list"
  df_Spec :: DecisionSpec

datatype DecisionWrite = CreatedDecision DecisionDraft | PatchedDecision Decision

text \<open>Besides the request service: reading requests and decisions as the service, and the caller's client.\<close>

record DecisionServiceDeps =
  ds_service :: ServiceDeps
  ds_read_request :: "string \<times> string \<Rightarrow> api_error + QuotaRequest"
  ds_read_decision :: "string \<Rightarrow> api_error + Decision"
  ds_create :: "Actor \<Rightarrow> DecisionDraft \<Rightarrow> api_error + Decision"
  ds_get :: "Actor \<Rightarrow> string \<Rightarrow> api_error + Decision"
  ds_patch :: "Actor \<Rightarrow> Decision \<Rightarrow> api_error + Decision"

definition ListQueue :: "DecisionServiceDeps \<Rightarrow> Actor option \<Rightarrow> string \<Rightarrow> ResourceRequest list answer" where
  "ListQueue deps ctx division =
     (case caller ctx of Inl err \<Rightarrow> Inl err | Inr _ \<Rightarrow>
     (case rs_store (ds_service deps) of
        Inl err \<Rightarrow> Inl (CodeInternal, err)
      | Inr db \<Rightarrow>
          (case proto_requests (rs_decoders (ds_service deps)) (RequestStore.ListRequests db (only_division division) [] True) of
             Inl err \<Rightarrow> Inl (CodeInternal, err)
           | Inr found \<Rightarrow> Inr found)))"

definition Simulate :: "DecisionServiceDeps \<Rightarrow> Actor option \<Rightarrow> string \<Rightarrow> ImpactSimulation answer" where
  "Simulate deps ctx uid =
     (case caller ctx of Inl err \<Rightarrow> Inl err | Inr _ \<Rightarrow>
     (case stored_request (ds_service deps) uid of Inl err \<Rightarrow> Inl err | Inr (stored, _) \<Rightarrow>
     (case ds_read_request deps (sr_Namespace stored, sr_Name stored) of
        Inl err \<Rightarrow> Inl (CodeNotFound, error_text err)
      | Inr request \<Rightarrow>
          (case qr_Simulation (qr_Status request) of
             None \<Rightarrow> Inl (CodeUnavailable, ''the cluster has not been simulated for this request yet'')
           | Some simulation \<Rightarrow> Inr (protoSimulation request simulation)))))"

section \<open>Deciding\<close>

fun outcomeFrom :: "ProtoOutcome \<Rightarrow> Outcome answer" where
  "outcomeFrom OUTCOME_APPROVED = Inr OutcomeApproved"
| "outcomeFrom OUTCOME_REJECTED = Inr OutcomeRejected"
| "outcomeFrom OUTCOME_CHANGES_REQUESTED = Inr OutcomeChangesRequested"
| "outcomeFrom OUTCOME_UNSPECIFIED = Inl (CodeInvalidArgument, ''name the outcome'')"

definition grantUntil :: "time \<Rightarrow> string \<Rightarrow> time answer" where
  "grantUntil now duration =
     (if duration = [] then Inr (now + defaultGrant)
      else case ParseDuration duration of
        None \<Rightarrow> Inl (CodeInvalidArgument,
                  ''grant duration '' @ [CHR 0x22] @ duration @ [CHR 0x22] @ '' is not a duration like 720h'')
      | Some parsed \<Rightarrow>
          if parsed \<le> 0 then Inl (CodeInvalidArgument, ''a grant has to last longer than zero'')
          else Inr (now + parsed))"

record DecideMessage =
  de_RequestUid :: string
  de_EvidenceDigest :: string
  de_Outcome :: ProtoOutcome
  de_Reason :: string
  de_GrantDuration :: string

definition decision_spec ::
  "time \<Rightarrow> Actor \<Rightarrow> QuotaRequest \<Rightarrow> DecideMessage \<Rightarrow> Outcome \<Rightarrow> time option \<Rightarrow> DecisionSpec" where
  "decision_spec now actor request msg outcome until =
     \<lparr>dc_Request = \<lparr>ref_Kind = KindQuota, rref_Name = om_Name (qr_Meta request),
        rref_Namespace = om_Namespace (qr_Meta request), rref_UID = om_UID (qr_Meta request)\<rparr>,
      dc_Outcome = outcome, dc_Reason = de_Reason msg,
      dc_Evidence = \<lparr>ev_Recommendation = qr_Recommendation (qr_Status request), ev_Preflight = qr_Preflight (qr_Status request),
        ev_Simulation = qr_Simulation (qr_Status request), ev_Digest = qr_EvidenceDigest (qr_Status request),
        ev_CapturedAt = now\<rparr>,
      dc_DecidedBy = ac_Subject actor, dc_GrantedUntil = until, dc_RevokedReason = []\<rparr>"

text \<open>How long an approval lasts; other outcomes grant nothing.\<close>

definition granted :: "time \<Rightarrow> Outcome \<Rightarrow> string \<Rightarrow> time option answer" where
  "granted now outcome duration =
     (if outcome = OutcomeApproved
      then (case grantUntil now duration of Inl err \<Rightarrow> Inl err | Inr until \<Rightarrow> Inr (Some until))
      else Inr None)"

definition changed_evidence_text :: "string \<Rightarrow> string \<Rightarrow> string" where
  "changed_evidence_text seen carried =
     ''the evidence changed since you read it: you saw '' @ [CHR 0x22] @ short_digest seen @ [CHR 0x22] @
     '', the request now carries '' @ [CHR 0x22] @ short_digest carried @ [CHR 0x22]"

definition not_open_text :: "QuotaRequest \<Rightarrow> string" where
  "not_open_text request = ''request '' @ om_Name (qr_Meta request) @ '' is '' @ phaseOf request @ '' and cannot be decided again''"

definition Decide ::
  "DecisionServiceDeps \<Rightarrow> time \<Rightarrow> Actor option \<Rightarrow> DecideMessage \<Rightarrow> DecisionWrite list \<times> PDecision answer" where
  "Decide deps now ctx msg =
     (case caller ctx of Inl err \<Rightarrow> ([], Inl err) | Inr actor \<Rightarrow>
     (case stored_request (ds_service deps) (de_RequestUid msg) of Inl err \<Rightarrow> ([], Inl err) | Inr (stored, _) \<Rightarrow>
     (case rs_as_caller (ds_service deps) actor of Some err \<Rightarrow> ([], Inl (CodeInternal, err)) | None \<Rightarrow>
     (case rs_get (ds_service deps) actor (sr_Namespace stored, sr_Name stored) of
        Inl err \<Rightarrow> ([], Inl (CodePermissionDenied, error_text err))
      | Inr request \<Rightarrow>
     (if \<not> Open request then ([], Inl (CodeFailedPrecondition, not_open_text request))
      else if qr_EvidenceDigest (qr_Status request) = []
      then ([], Inl (CodeFailedPrecondition, ''the request has no evidence yet, so there is nothing to decide against''))
      else if de_EvidenceDigest msg \<noteq> qr_EvidenceDigest (qr_Status request)
      then ([], Inl (CodeAborted, changed_evidence_text (de_EvidenceDigest msg) (qr_EvidenceDigest (qr_Status request))))
      else
     (case outcomeFrom (de_Outcome msg) of Inl err \<Rightarrow> ([], Inl err) | Inr outcome \<Rightarrow>
     (case granted now outcome (de_GrantDuration msg) of Inl err \<Rightarrow> ([], Inl err) | Inr until \<Rightarrow>
     (let draft = \<lparr>df_GenerateName = ''decision-'',
                   df_Labels = [(''govern.marstack.io/division'', qr_Division (qr_Spec request))],
                   df_Spec = decision_spec now actor request msg outcome until\<rparr>
      in case ds_create deps actor draft of
           Inl err \<Rightarrow> ([], Inl (CodePermissionDenied, ''record the decision as '' @ Label actor @ '': '' @ error_text err))
         | Inr created \<Rightarrow> ([CreatedDecision draft], Inr (protoDecision created))))))))))"

section \<open>Reading and revoking\<close>

definition ListDecisions :: "DecisionServiceDeps \<Rightarrow> Actor option \<Rightarrow> string \<Rightarrow> PDecision list answer" where
  "ListDecisions deps ctx division =
     (case caller ctx of Inl err \<Rightarrow> Inl err | Inr _ \<Rightarrow>
     (case rs_store (ds_service deps) of
        Inl err \<Rightarrow> Inl (CodeInternal, err)
      | Inr db \<Rightarrow>
          Inr (map protoStoredDecision
                 (List.map_filter snd (RequestStore.ListRequests db (only_division division) [] False)))))"

definition decision_not_found :: "string \<Rightarrow> string" where
  "decision_not_found name = ''decision '' @ name @ '' not found''"

definition GetDecision :: "DecisionServiceDeps \<Rightarrow> Actor option \<Rightarrow> string \<Rightarrow> PDecision answer" where
  "GetDecision deps ctx name =
     (case caller ctx of Inl err \<Rightarrow> Inl err | Inr _ \<Rightarrow>
     (case ds_read_decision deps name of
        Inl _ \<Rightarrow> Inl (CodeNotFound, decision_not_found name)
      | Inr d \<Rightarrow> Inr (protoDecision d)))"

definition revoked :: "time \<Rightarrow> string \<Rightarrow> Decision \<Rightarrow> Decision" where
  "revoked now reason d = d\<lparr>dc_Spec := (dc_Spec d)\<lparr>dc_RevokedReason := reason, dc_GrantedUntil := Some now\<rparr>\<rparr>"

definition Revoke ::
  "DecisionServiceDeps \<Rightarrow> time \<Rightarrow> Actor option \<Rightarrow> string \<Rightarrow> string \<Rightarrow> DecisionWrite list \<times> PDecision answer" where
  "Revoke deps now ctx name reason =
     (case caller ctx of Inl err \<Rightarrow> ([], Inl err) | Inr actor \<Rightarrow>
     (if reason = [] then ([], Inl (CodeInvalidArgument, ''say why the grant is being revoked'')) else
     (case rs_as_caller (ds_service deps) actor of Some err \<Rightarrow> ([], Inl (CodeInternal, err)) | None \<Rightarrow>
     (case ds_get deps actor name of
        Inl _ \<Rightarrow> ([], Inl (CodeNotFound, decision_not_found name))
      | Inr d \<Rightarrow>
          (case ds_patch deps actor (revoked now reason d) of
             Inl err \<Rightarrow> ([], Inl (CodePermissionDenied, ''revoke as '' @ Label actor @ '': '' @ error_text err))
           | Inr answered \<Rightarrow> ([PatchedDecision (revoked now reason d)], Inr (protoDecision answered)))))))"

section \<open>Properties\<close>

lemma grantUntil_later: "grantUntil now duration = Inr until \<Longrightarrow> now < until"
  by (auto simp: grantUntil_def defaultGrant_def hour_def split: if_splits option.splits)

lemma Decide_cases:
  assumes "Decide deps now ctx msg = (writes, answer)" and "writes \<noteq> [] \<or> (\<exists>response. answer = Inr response)"
  obtains actor stored latest request outcome until draft created where
    "ctx = Some actor" "ac_Subject actor \<noteq> []"
    "stored_request (ds_service deps) (de_RequestUid msg) = Inr (stored, latest)"
    "rs_get (ds_service deps) actor (sr_Namespace stored, sr_Name stored) = Inr request"
    "Open request" "qr_EvidenceDigest (qr_Status request) \<noteq> []"
    "de_EvidenceDigest msg = qr_EvidenceDigest (qr_Status request)"
    "outcomeFrom (de_Outcome msg) = Inr outcome" "granted now outcome (de_GrantDuration msg) = Inr until"
    "draft = \<lparr>df_GenerateName = ''decision-'',
                   df_Labels = [(''govern.marstack.io/division'', qr_Division (qr_Spec request))],
                   df_Spec = decision_spec now actor request msg outcome until\<rparr>"
    "ds_create deps actor draft = Inr created" "writes = [CreatedDecision draft]" "answer = Inr (protoDecision created)"
proof -
  obtain actor where actor: "caller ctx = Inr actor"
    using assms by (cases "caller ctx") (auto simp: Decide_def)
  with assms obtain stored latest where stored: "stored_request (ds_service deps) (de_RequestUid msg) = Inr (stored, latest)"
    by (cases "stored_request (ds_service deps) (de_RequestUid msg)") (auto simp: Decide_def)
  with assms actor have own: "rs_as_caller (ds_service deps) actor = None"
    by (cases "rs_as_caller (ds_service deps) actor") (auto simp: Decide_def)
  with assms actor stored obtain request where request: "rs_get (ds_service deps) actor (sr_Namespace stored, sr_Name stored) = Inr request"
    by (cases "rs_get (ds_service deps) actor (sr_Namespace stored, sr_Name stored)") (auto simp: Decide_def)
  have guards: "Open request" "qr_EvidenceDigest (qr_Status request) \<noteq> []"
      "de_EvidenceDigest msg = qr_EvidenceDigest (qr_Status request)"
    using assms actor stored own request by (auto simp: Decide_def split: if_splits)
  with assms actor stored own request obtain outcome where outcome: "outcomeFrom (de_Outcome msg) = Inr outcome"
    by (cases "outcomeFrom (de_Outcome msg)") (auto simp: Decide_def)
  with assms actor stored own request guards obtain until where until: "granted now outcome (de_GrantDuration msg) = Inr until"
    by (cases "granted now outcome (de_GrantDuration msg)") (auto simp: Decide_def)
  let ?draft = "\<lparr>df_GenerateName = ''decision-'',
                   df_Labels = [(''govern.marstack.io/division'', qr_Division (qr_Spec request))],
                   df_Spec = decision_spec now actor request msg outcome until\<rparr>"
  obtain created where "ds_create deps actor ?draft = Inr created" "writes = [CreatedDecision ?draft]"
      "answer = Inr (protoDecision created)"
    using assms actor stored own request guards outcome until
    by (cases "ds_create deps actor ?draft") (auto simp: Decide_def)
  with that actor stored request guards outcome until show thesis
    by (auto simp: caller_Inr)
qed

text \<open>
  C1. A decision is recorded only by a signed-in caller and only on a request that is open, has
  evidence, and carries the very digest the approver read; it names that request by uid, keeps a
  copy of its evidence and digest, and names the caller as the decider. An approval ends strictly
  after the moment of deciding, every other outcome grants nothing. A refusal writes nothing.
\<close>
theorem decision_binds_the_evidence_it_saw:
  assumes "Decide deps now ctx msg = (writes, answer)"
  shows "(case answer of Inl _ \<Rightarrow> writes = [] | Inr _ \<Rightarrow>
    \<exists>actor stored latest request draft. ctx = Some actor \<and> ac_Subject actor \<noteq> [] \<and>
      stored_request (ds_service deps) (de_RequestUid msg) = Inr (stored, latest) \<and>
      rs_get (ds_service deps) actor (sr_Namespace stored, sr_Name stored) = Inr request \<and>
      Open request \<and> de_EvidenceDigest msg = qr_EvidenceDigest (qr_Status request) \<and> de_EvidenceDigest msg \<noteq> [] \<and>
      writes = [CreatedDecision draft] \<and> dc_DecidedBy (df_Spec draft) = ac_Subject actor \<and>
      rref_UID (dc_Request (df_Spec draft)) = om_UID (qr_Meta request) \<and>
      ev_Digest (dc_Evidence (df_Spec draft)) = qr_EvidenceDigest (qr_Status request) \<and>
      ev_Recommendation (dc_Evidence (df_Spec draft)) = qr_Recommendation (qr_Status request) \<and>
      ev_Preflight (dc_Evidence (df_Spec draft)) = qr_Preflight (qr_Status request) \<and>
      ev_Simulation (dc_Evidence (df_Spec draft)) = qr_Simulation (qr_Status request) \<and>
      protoOutcome (dc_Outcome (df_Spec draft)) = de_Outcome msg \<and>
      (case dc_GrantedUntil (df_Spec draft) of
         None \<Rightarrow> dc_Outcome (df_Spec draft) \<noteq> OutcomeApproved
       | Some until \<Rightarrow> dc_Outcome (df_Spec draft) = OutcomeApproved \<and> now < until))"
proof (cases answer)
  case (Inl err)
  then have "writes = []"
    using Decide_cases [OF assms] by (metis Inl_Inr_False)
  with Inl show ?thesis by simp
next
  case (Inr response)
  with assms have ok: "writes \<noteq> [] \<or> (\<exists>response. answer = Inr response)" by blast
  from Decide_cases [OF assms ok] obtain actor stored latest request outcome until draft created where d:
    "ctx = Some actor" "ac_Subject actor \<noteq> []"
    "stored_request (ds_service deps) (de_RequestUid msg) = Inr (stored, latest)"
    "rs_get (ds_service deps) actor (sr_Namespace stored, sr_Name stored) = Inr request"
    "Open request" "qr_EvidenceDigest (qr_Status request) \<noteq> []"
    "de_EvidenceDigest msg = qr_EvidenceDigest (qr_Status request)"
    "outcomeFrom (de_Outcome msg) = Inr outcome" "granted now outcome (de_GrantDuration msg) = Inr until"
    "draft = \<lparr>df_GenerateName = ''decision-'',
                   df_Labels = [(''govern.marstack.io/division'', qr_Division (qr_Spec request))],
                   df_Spec = decision_spec now actor request msg outcome until\<rparr>"
    "writes = [CreatedDecision draft]"
    by metis
  have "protoOutcome outcome = de_Outcome msg"
    using d(8) by (cases "de_Outcome msg") auto
  moreover have "case until of None \<Rightarrow> outcome \<noteq> OutcomeApproved | Some u \<Rightarrow> outcome = OutcomeApproved \<and> now < u"
    using d(9) grantUntil_later by (auto simp: granted_def split: if_splits sum.splits)
  moreover have "df_Spec draft = decision_spec now actor request msg outcome until"
    by (simp add: d(10))
  ultimately show ?thesis
    unfolding Inr sum.case using d(1-7,11)
    by (intro exI [of _ actor] exI [of _ stored] exI [of _ latest] exI [of _ request] exI [of _ draft])
      (simp add: decision_spec_def split: option.splits)
qed

text \<open>
  C21. Revoking a grant needs a reason and a decision that is found under the given text as its
  name; it ends the grant at once, so that at every later moment an approval has lapsed, and it
  changes nothing else of the decision. Without a reason nothing is written.
\<close>
theorem revocation_ends_the_grant:
  assumes "Revoke deps now ctx name reason = (writes, answer)"
  shows "(case answer of Inl _ \<Rightarrow> writes = [] | Inr _ \<Rightarrow>
    reason \<noteq> [] \<and> (\<exists>actor d d'. ctx = Some actor \<and> ac_Subject actor \<noteq> [] \<and> ds_get deps actor name = Inr d \<and>
      writes = [PatchedDecision d'] \<and> dc_RevokedReason (dc_Spec d') = reason \<and> dc_GrantedUntil (dc_Spec d') = Some now \<and>
      d' = d\<lparr>dc_Spec := (dc_Spec d)\<lparr>dc_RevokedReason := reason, dc_GrantedUntil := Some now\<rparr>\<rparr> \<and>
      (dc_Outcome (dc_Spec d) = OutcomeApproved \<longrightarrow> (\<forall>later > now. Lapsed d' later))))"
proof -
  obtain a where "caller ctx = a" by blast
  with assms show ?thesis
    by (cases a) (auto simp: Revoke_def revoked_def Lapsed_def caller_Inr split: if_splits option.splits sum.splits)
qed

text \<open>
  The uid that the API shows is looked up as a name: when the reader finds decisions by their
  names and none is named like the uid, asking for the uid of a decision finds nothing.
\<close>

lemma uid_does_not_find_the_decision:
  assumes "caller ctx = Inr actor" and "\<forall>name d. ds_read_decision deps name = Inr d \<longrightarrow> om_Name (dc_Meta d) = name"
    and "\<forall>d'. ds_read_decision deps (om_Name (dc_Meta d')) = Inr d' \<longrightarrow> om_Name (dc_Meta d') \<noteq> om_UID (dc_Meta d)"
  shows "GetDecision deps ctx (pd_Uid (protoDecision d)) = Inl (CodeNotFound, decision_not_found (om_UID (dc_Meta d)))"
proof (cases "ds_read_decision deps (om_UID (dc_Meta d))")
  case (Inl err)
  with assms(1) show ?thesis
    by (simp add: GetDecision_def protoDecision_def)
next
  case (Inr d')
  with assms(2,3) show ?thesis
    by metis
qed

section \<open>Examples\<close>

definition example_decisions :: DecisionServiceDeps where
  "example_decisions =
     \<lparr>ds_service = example_service filed_rows [], ds_read_request = (\<lambda>_. Inl (NotFound ''no'')),
      ds_read_decision = (\<lambda>_. Inr filed_decision),
      ds_create = (\<lambda>_ draft. Inr (filed_decision\<lparr>dc_Spec := df_Spec draft\<rparr>)), ds_get = (\<lambda>_ _. Inr filed_decision),
      ds_patch = (\<lambda>_ d. Inr d)\<rparr>"

definition example_decide :: DecideMessage where
  "example_decide = \<lparr>de_RequestUid = ''r1'', de_EvidenceDigest = ''aa'', de_Outcome = OUTCOME_REJECTED, de_Reason = ''no'',
     de_GrantDuration = []\<rparr>"

lemma example_stored: "\<exists>stored latest. stored_request (example_service filed_rows []) ''r1'' = Inr (stored, latest)"
proof -
  have "RequestStore.GetRequest filed_rows ''r1'' \<noteq> None"
    by code_simp
  then show ?thesis
    by (auto simp: stored_request_def example_service_def)
qed

theorem decision_binds_the_evidence_it_saw_witness:
  "\<exists>draft response. Decide example_decisions 50 (Some example_caller) example_decide = ([CreatedDecision draft], Inr response) \<and>
     dc_DecidedBy (df_Spec draft) = ''ada'' \<and> ev_Digest (dc_Evidence (df_Spec draft)) = ''aa''"
proof -
  let ?request = "filed_request ''r1'' RequestAwaitingDecision"
  obtain stored latest where "stored_request (example_service filed_rows []) (de_RequestUid example_decide) = Inr (stored, latest)"
    using example_stored by (auto simp: example_decide_def)
  moreover have "Open ?request" "qr_EvidenceDigest (qr_Status ?request) = ''aa''" "de_EvidenceDigest example_decide = ''aa''"
      "outcomeFrom (de_Outcome example_decide) = Inr OutcomeRejected"
    by (simp_all add: filed_request_def Open.simps example_decide_def)
  ultimately obtain draft response where run:
    "Decide example_decisions 50 (Some example_caller) example_decide = ([CreatedDecision draft], Inr response)"
    using example_caller_known
    by (auto simp: Decide_def granted_def example_decisions_def example_service_def)
  from decision_binds_the_evidence_it_saw [OF run] have "dc_DecidedBy (df_Spec draft) = ac_Subject example_caller"
      "ev_Digest (dc_Evidence (df_Spec draft)) = de_EvidenceDigest example_decide"
    by auto
  with run show ?thesis
    by (auto simp: example_caller_def example_decide_def)
qed

theorem revocation_ends_the_grant_witness:
  "\<exists>d response. Revoke example_decisions 50 (Some example_caller) ''decision-1'' ''too much'' = ([PatchedDecision d], Inr response) \<and>
     dc_GrantedUntil (dc_Spec d) = Some 50"
proof -
  obtain d response where run:
    "Revoke example_decisions 50 (Some example_caller) ''decision-1'' ''too much'' = ([PatchedDecision d], Inr response)"
    using example_caller_known by (simp add: Revoke_def example_decisions_def example_service_def)
  from revocation_ends_the_grant [OF run] run show ?thesis
    by auto
qed

end
