(* ===== verification/Tenancy.thy ===== *)
theory Tenancy
  imports Conditions KubeCluster
begin

text \<open>
  The controller of divisions, internal/tenancy/reconciler.go and capsule.go: a namespace per
  environment with its limits, quota, default-deny policy and role bindings, or one global quota
  when Capsule is installed. A call of Reconcile is a function of the division it reads, the
  cluster and the clock, and returns the cluster, the status it wrote (none when it wrote none)
  and an error. Which client calls fail, the listing of role bindings, the library's
  SetControllerReference and the text form of quantities are the record \<^verbatim>\<open>TenancyDeps\<close>.
\<close>

record TenancyDeps =
  tn_faults :: faults
  tn_update_fault :: "DivisionStatus \<Rightarrow> api_error option"
  tn_set_ref :: "Division \<Rightarrow> KNamespace \<Rightarrow> string + KNamespace"
  tn_listing :: "Cluster \<Rightarrow> string \<Rightarrow> string list"
  tn_new_quantity :: "int \<Rightarrow> Quantity"
  tn_show_quantity :: "Quantity \<Rightarrow> string"
  tn_parse_quantity :: "string \<Rightarrow> Quantity option"
  tn_capsule :: bool

definition LimitRangeName :: string where "LimitRangeName = ''govern-defaults''"
definition QuotaBackendResourceQuota :: string where "QuotaBackendResourceQuota = ''resourcequota''"
definition QuotaBackendCapsule :: string where "QuotaBackendCapsule = ''capsule''"
definition globalQuotaName :: string where "globalQuotaName = ''govern-division-quota''"

fun clusterRoleForRole :: "Role \<Rightarrow> string option" where
  "clusterRoleForRole RoleViewer = Some ''view''"
| "clusterRoleForRole RoleOperator = Some ''edit''"
| "clusterRoleForRole RoleAdmin = Some ''admin''"
| "clusterRoleForRole RoleApprover = None"

fun role_text :: "Role \<Rightarrow> string" where
  "role_text RoleViewer = ''viewer''"
| "role_text RoleOperator = ''operator''"
| "role_text RoleAdmin = ''admin''"
| "role_text RoleApprover = ''approver''"

definition roleBindingName :: "Role \<Rightarrow> string" where
  "roleBindingName role = ''govern-'' @ role_text role"

section \<open>Helpers\<close>

definition group_subject :: "string \<Rightarrow> Subject" where
  "group_subject g = \<lparr>sj_APIGroup = ''rbac.authorization.k8s.io'', sj_Kind = ''Group'', sj_Name = g\<rparr>"

definition appendSubject :: "Subject list \<Rightarrow> string \<Rightarrow> Subject list" where
  "appendSubject subjects g = (if group_subject g \<in> set subjects then subjects else subjects @ [group_subject g])"

definition markManaged :: "Division \<Rightarrow> (string \<rightharpoonup> string) \<Rightarrow> (string \<rightharpoonup> string)" where
  "markManaged division labels = labels(LabelManagedBy \<mapsto> ManagedBy, LabelDivision \<mapsto> om_Name (dv_Meta division))"

definition addQuantity :: "string \<Rightarrow> Quantity \<Rightarrow> (string \<times> Quantity) list \<Rightarrow> (string \<times> Quantity) list" where
  "addQuantity name quantity list = (if QuantityIsZero quantity then list else list @ [(name, quantity)])"

text \<open>A condition that is there as it should be stays; otherwise the first of its type is replaced.\<close>

definition dv_setCondition :: "time \<Rightarrow> string \<Rightarrow> string \<Rightarrow> string \<Rightarrow> string \<Rightarrow> DivisionStatus \<Rightarrow> DivisionStatus" where
  "dv_setCondition now t state reason message status =
     (if list_ex (\<lambda>c. cond_Type c = t \<and> cond_Status c = state \<and> cond_Reason c = reason \<and> cond_Message c = message)
           (dv_Conditions status)
      then status
      else status\<lparr>dv_Conditions := setCondition now t state reason message (dv_Conditions status)\<rparr>)"

fun same_division_conditions :: "Condition list \<Rightarrow> Condition list \<Rightarrow> bool" where
  "same_division_conditions [] [] = True"
| "same_division_conditions (a # as) (b # bs) =
     (cond_Type a = cond_Type b \<and> cond_Status a = cond_Status b \<and> cond_Reason a = cond_Reason b \<and>
      cond_Message a = cond_Message b \<and> same_division_conditions as bs)"
| "same_division_conditions _ _ = False"

definition equalStatus :: "DivisionStatus \<Rightarrow> DivisionStatus \<Rightarrow> bool" where
  "equalStatus current next_one \<longleftrightarrow>
     dv_Phase current = dv_Phase next_one \<and> dv_ObservedGeneration current = dv_ObservedGeneration next_one \<and>
     QuotaBackend current = QuotaBackend next_one \<and> dv_Namespaces current = dv_Namespaces next_one \<and>
     same_division_conditions (dv_Conditions current) (dv_Conditions next_one)"

definition dv_writeStatus ::
  "TenancyDeps \<Rightarrow> Division \<Rightarrow> DivisionStatus \<Rightarrow> DivisionStatus option \<times> string option" where
  "dv_writeStatus deps division status =
     (if equalStatus (dv_Status division) status then (None, None)
      else case tn_update_fault deps status of
        None \<Rightarrow> (Some status, None)
      | Some err \<Rightarrow> (None, Some (''update status of division '' @ om_Name (dv_Meta division) @ '': '' @ error_text err)))"

definition markPhase ::
  "TenancyDeps \<Rightarrow> Division \<Rightarrow> DivisionPhase \<Rightarrow> DivisionStatus option \<times> string option" where
  "markPhase deps division phase =
     dv_writeStatus deps division
       ((dv_Status division)\<lparr>dv_Phase := phase, dv_ObservedGeneration := om_Generation (dv_Meta division)\<rparr>)"

definition deleteIfPresent :: "api_error option \<Rightarrow> ('k \<rightharpoonup> 'o) \<Rightarrow> 'k \<Rightarrow> string \<Rightarrow> ('k \<rightharpoonup> 'o) \<times> string option" where
  "deleteIfPresent fault m k name =
     (case kube_delete fault m k of
        (m, Some err) \<Rightarrow> (m, if is_not_found err then None else Some (''delete '' @ name @ '': '' @ error_text err))
      | (m, None) \<Rightarrow> (m, None))"

section \<open>One namespace\<close>

definition tn_labels :: "Division \<Rightarrow> string \<Rightarrow> (string \<rightharpoonup> string) \<Rightarrow> (string \<rightharpoonup> string)" where
  "tn_labels division environment labels =
     labels(LabelDivision \<mapsto> om_Name (dv_Meta division), LabelEnvironment \<mapsto> environment, LabelManagedBy \<mapsto> ManagedBy)"

definition tn_ensureNamespace ::
  "TenancyDeps \<Rightarrow> Division \<Rightarrow> string \<Rightarrow> string \<Rightarrow> Cluster \<Rightarrow> Cluster \<times> string option" where
  "tn_ensureNamespace deps division environment name c =
     (case create_or_update (tn_faults deps c (OpGet KindNamespace ([], name)))
             (tn_faults deps c (OpWrite KindNamespace ([], name))) (Namespaces c) name fresh_namespace
             (\<lambda>ns. tn_set_ref deps division (ns\<lparr>ns_Labels := tn_labels division environment (ns_Labels ns)\<rparr>)) of
        (m, None) \<Rightarrow> (c\<lparr>Namespaces := m\<rparr>, None)
      | (m, Some err) \<Rightarrow> (c, Some (''namespace '' @ name @ '': '' @ err)))"

definition default_requests :: "Division \<Rightarrow> (string \<times> Quantity) list" where
  "default_requests division =
     addQuantity ''memory'' (DefaultRequestMemory (dv_Limits (dv_Spec division)))
       (addQuantity ''cpu'' (DefaultRequestCPU (dv_Limits (dv_Spec division))) [])"

definition maximums :: "Division \<Rightarrow> (string \<times> Quantity) list" where
  "maximums division =
     addQuantity ''memory'' (MaxMemoryPerPod (dv_Limits (dv_Spec division)))
       (addQuantity ''cpu'' (MaxCPUPerPod (dv_Limits (dv_Spec division))) [])"

definition tn_ensureLimitRange :: "TenancyDeps \<Rightarrow> Division \<Rightarrow> string \<Rightarrow> Cluster \<Rightarrow> Cluster \<times> string option" where
  "tn_ensureLimitRange deps division namespace c =
     (let k = (namespace, LimitRangeName) in
      if default_requests division = [] \<and> maximums division = [] then
        (case deleteIfPresent (tn_faults deps c (OpDelete KindLimitRange k)) (LimitRanges c) k LimitRangeName of
           (m, err) \<Rightarrow> (c\<lparr>LimitRanges := m\<rparr>, err))
      else
        (case create_or_update (tn_faults deps c (OpGet KindLimitRange k)) (tn_faults deps c (OpWrite KindLimitRange k))
                (LimitRanges c) k fresh_limit_range
                (\<lambda>r. Inr (r\<lparr>lr_DefaultRequest := map_of (default_requests division), lr_Max := map_of (maximums division),
                            lr_Labels := markManaged division (lr_Labels r)\<rparr>)) of
           (m, None) \<Rightarrow> (c\<lparr>LimitRanges := m\<rparr>, None)
         | (m, Some err) \<Rightarrow> (c, Some (''limit range in '' @ namespace @ '': '' @ err))))"

definition tn_ensureResourceQuota :: "TenancyDeps \<Rightarrow> Division \<Rightarrow> string \<Rightarrow> Cluster \<Rightarrow> Cluster \<times> string option" where
  "tn_ensureResourceQuota deps division namespace c =
     (let k = (namespace, ResourceQuotaName) in
      case create_or_update (tn_faults deps c (OpGet KindQuota k)) (tn_faults deps c (OpWrite KindQuota k))
             (ResourceQuotas c) k fresh_quota
             (\<lambda>q. Inr (q\<lparr>rq_Hard := quota_hard (tn_new_quantity deps) (dv_Quota (dv_Spec division)),
                         rq_Labels := markManaged division (rq_Labels q)\<rparr>)) of
        (m, None) \<Rightarrow> (c\<lparr>ResourceQuotas := m\<rparr>, None)
      | (m, Some err) \<Rightarrow> (c, Some (''resource quota in '' @ namespace @ '': '' @ err)))"

definition tn_ensureDefaultDeny :: "TenancyDeps \<Rightarrow> string \<Rightarrow> Cluster \<Rightarrow> Cluster \<times> string option" where
  "tn_ensureDefaultDeny deps namespace c =
     (let k = (namespace, DefaultDenyPolicyName) in
      case create_or_update (tn_faults deps c (OpGet KindPolicy k)) (tn_faults deps c (OpWrite KindPolicy k))
             (NetworkPolicies c) k fresh_policy
             (\<lambda>p. Inr (p\<lparr>np_PolicyTypes := [''Ingress'', ''Egress''],
                         np_Labels := (np_Labels p)(LabelManagedBy \<mapsto> ManagedBy)\<rparr>)) of
        (m, None) \<Rightarrow> (c\<lparr>NetworkPolicies := m\<rparr>, None)
      | (m, Some err) \<Rightarrow> (c, Some (''default deny policy in '' @ namespace @ '': '' @ err)))"

section \<open>Role bindings\<close>

definition bound :: "Division \<Rightarrow> string \<Rightarrow> string \<Rightarrow> KRoleBinding \<Rightarrow> KRoleBinding" where
  "bound division clusterRole g b =
     b\<lparr>rb_RoleRef := clusterRole, rb_Subjects := appendSubject (rb_Subjects b) g,
       rb_Labels := markManaged division (rb_Labels b)\<rparr>"

text \<open>The grants in order, stopping at the first error; the names that are wanted so far.\<close>

fun bind_grants ::
  "TenancyDeps \<Rightarrow> Division \<Rightarrow> string \<Rightarrow> Grant list \<Rightarrow> string list \<Rightarrow> Cluster \<Rightarrow> Cluster \<times> (string + string list)" where
  "bind_grants deps division namespace [] wanted c = (c, Inr wanted)"
| "bind_grants deps division namespace (grant # grants) wanted c =
     (case clusterRoleForRole (grant_Role grant) of
        None \<Rightarrow> bind_grants deps division namespace grants wanted c
      | Some clusterRole \<Rightarrow>
          (let name = roleBindingName (grant_Role grant); k = (namespace, name) in
           case create_or_update (tn_faults deps c (OpGet KindBinding k)) (tn_faults deps c (OpWrite KindBinding k))
                  (RoleBindings c) k fresh_binding (\<lambda>b. Inr (bound division clusterRole (grant_Group grant) b)) of
             (m, None) \<Rightarrow> bind_grants deps division namespace grants (name # wanted) (c\<lparr>RoleBindings := m\<rparr>)
           | (m, Some err) \<Rightarrow> (c, Inl (''role binding '' @ name @ '' in '' @ namespace @ '': '' @ err))))"

definition is_managed :: "Division \<Rightarrow> KRoleBinding \<Rightarrow> bool" where
  "is_managed division b \<longleftrightarrow>
     rb_Labels b LabelManagedBy = Some ManagedBy \<and> rb_Labels b LabelDivision = Some (om_Name (dv_Meta division))"

fun prune_each ::
  "TenancyDeps \<Rightarrow> string \<Rightarrow> string list \<Rightarrow> string list \<Rightarrow> Cluster \<Rightarrow> Cluster \<times> string option" where
  "prune_each deps namespace wanted [] c = (c, None)"
| "prune_each deps namespace wanted (name # names) c =
     (if name \<in> set wanted then prune_each deps namespace wanted names c
      else (case kube_delete (tn_faults deps c (OpDelete KindBinding (namespace, name))) (RoleBindings c) (namespace, name) of
              (m, Some err) \<Rightarrow>
                if is_not_found err then prune_each deps namespace wanted names (c\<lparr>RoleBindings := m\<rparr>)
                else (c, Some (''revoke role binding '' @ name @ '' in '' @ namespace @ '': '' @ error_text err))
            | (m, None) \<Rightarrow> prune_each deps namespace wanted names (c\<lparr>RoleBindings := m\<rparr>)))"

text \<open>The role bindings of a namespace that carry the labels of the division.\<close>

definition managed_names :: "TenancyDeps \<Rightarrow> Division \<Rightarrow> string \<Rightarrow> Cluster \<Rightarrow> string list" where
  "managed_names deps division namespace c =
     filter (\<lambda>name. case RoleBindings c (namespace, name) of None \<Rightarrow> False | Some b \<Rightarrow> is_managed division b)
       (tn_listing deps c namespace)"

definition pruneRoleBindings ::
  "TenancyDeps \<Rightarrow> Division \<Rightarrow> string \<Rightarrow> string list \<Rightarrow> Cluster \<Rightarrow> Cluster \<times> string option" where
  "pruneRoleBindings deps division namespace wanted c =
     (case tn_faults deps c (OpList KindBinding namespace) of
        Some err \<Rightarrow> (c, Some (''list role bindings in '' @ namespace @ '': '' @ error_text err))
      | None \<Rightarrow> prune_each deps namespace wanted (managed_names deps division namespace c) c)"

definition tn_ensureRoleBindings :: "TenancyDeps \<Rightarrow> Division \<Rightarrow> string \<Rightarrow> Cluster \<Rightarrow> Cluster \<times> string option" where
  "tn_ensureRoleBindings deps division namespace c =
     (case bind_grants deps division namespace (Access (dv_Spec division)) [] c of
        (c, Inl err) \<Rightarrow> (c, Some err)
      | (c, Inr wanted) \<Rightarrow> pruneRoleBindings deps division namespace wanted c)"

section \<open>The quota across namespaces\<close>

definition hardLimits :: "TenancyDeps \<Rightarrow> Quota \<Rightarrow> (string \<rightharpoonup> string)" where
  "hardLimits deps q =
     (let hard = [''requests.cpu'' \<mapsto> tn_show_quantity deps (q_CPU q), ''requests.memory'' \<mapsto> tn_show_quantity deps (q_Memory q)];
          hard = (if \<not> QuantityIsZero (q_Storage q) then hard(''requests.storage'' \<mapsto> tn_show_quantity deps (q_Storage q)) else hard)
      in if q_Pods q > 0 then hard(''pods'' \<mapsto> show_int (q_Pods q)) else hard)"

definition global_name :: "Division \<Rightarrow> string" where
  "global_name division = globalQuotaName @ ''-'' @ om_Name (dv_Meta division)"

definition fresh_global_quota :: KGlobalQuota where
  "fresh_global_quota = \<lparr>gq_Selector = [], gq_Hard = Map.empty, gq_Labels = Map.empty, gq_NamespaceCount = Inr 0,
     gq_TotalHard = Inr [], gq_TotalUsed = Inr []\<rparr>"

definition ensureGlobalQuota :: "TenancyDeps \<Rightarrow> Division \<Rightarrow> Cluster \<Rightarrow> Cluster \<times> string option" where
  "ensureGlobalQuota deps division c =
     (let name = global_name division; k = ([], name); dname = om_Name (dv_Meta division) in
      case kube_get (tn_faults deps c (OpGet KindGlobalQuota k)) (GlobalQuotas c) name of
        Inl err \<Rightarrow>
          if \<not> is_not_found err then (c, Some (''read the global quota for '' @ dname @ '': '' @ error_text err))
          else (case tn_faults deps c (OpWrite KindGlobalQuota k) of
             Some err \<Rightarrow> (c, Some (''create the global quota for '' @ dname @ '': '' @ error_text err))
           | None \<Rightarrow> (c\<lparr>GlobalQuotas := (GlobalQuotas c)(name \<mapsto>
               fresh_global_quota\<lparr>gq_Selector := dname, gq_Hard := hardLimits deps (dv_Quota (dv_Spec division)),
                 gq_Labels := [LabelManagedBy \<mapsto> ManagedBy, LabelDivision \<mapsto> dname]\<rparr>)\<rparr>, None))
      | Inr q \<Rightarrow>
          (case tn_faults deps c (OpWrite KindGlobalQuota k) of
             Some err \<Rightarrow> (c, Some (''update the global quota for '' @ dname @ '': '' @ error_text err))
           | None \<Rightarrow> (c\<lparr>GlobalQuotas := (GlobalQuotas c)(name \<mapsto>
               q\<lparr>gq_Selector := dname, gq_Hard := hardLimits deps (dv_Quota (dv_Spec division)),
                 gq_Labels := [LabelManagedBy \<mapsto> ManagedBy, LabelDivision \<mapsto> dname]\<rparr>)\<rparr>, None)))"

fun dropNamespaceQuotas :: "TenancyDeps \<Rightarrow> string list \<Rightarrow> Cluster \<Rightarrow> Cluster \<times> string option" where
  "dropNamespaceQuotas deps [] c = (c, None)"
| "dropNamespaceQuotas deps (namespace # rest) c =
     (let k = (namespace, ResourceQuotaName) in
      case deleteIfPresent (tn_faults deps c (OpDelete KindQuota k)) (ResourceQuotas c) k ResourceQuotaName of
        (m, Some err) \<Rightarrow> (c\<lparr>ResourceQuotas := m\<rparr>, Some (''remove the per-namespace quota in '' @ namespace @ '': '' @ err))
      | (m, None) \<Rightarrow> dropNamespaceQuotas deps rest (c\<lparr>ResourceQuotas := m\<rparr>))"

text \<open>What the status of the global quota says: its count, and ceilings and use that are quantities.\<close>

definition resourceList :: "TenancyDeps \<Rightarrow> string + (string \<times> string) list \<Rightarrow> (string \<times> Quantity) list option" where
  "resourceList deps field =
     (case field of
        Inl _ \<Rightarrow> None
      | Inr entries \<Rightarrow>
          if list_ex (\<lambda>(name, v). tn_parse_quantity deps v = None) entries then None
          else Some (map (\<lambda>(name, v). (name, the (tn_parse_quantity deps v))) entries))"

definition globalQuota ::
  "TenancyDeps \<Rightarrow> Division \<Rightarrow> Cluster \<Rightarrow> (int \<times> (string \<times> Quantity) list \<times> (string \<times> Quantity) list) option" where
  "globalQuota deps division c =
     (case kube_get (tn_faults deps c (OpGet KindGlobalQuota ([], global_name division))) (GlobalQuotas c) (global_name division) of
        Inl _ \<Rightarrow> None
      | Inr q \<Rightarrow>
          (case (gq_NamespaceCount q, resourceList deps (gq_TotalHard q), resourceList deps (gq_TotalUsed q)) of
             (Inr count, Some hard, Some used) \<Rightarrow> Some (count, hard, used)
           | _ \<Rightarrow> None))"

definition cpu_of :: "(string \<times> Quantity) list \<Rightarrow> Quantity" where
  "cpu_of list = quantity_or_zero (map_of list ''requests.cpu'')"

definition globalQuotaMessage :: "TenancyDeps \<Rightarrow> Division \<Rightarrow> Cluster \<Rightarrow> string" where
  "globalQuotaMessage deps division c =
     (case globalQuota deps division c of
        None \<Rightarrow> ''the division total is enforced by Capsule across its namespaces''
      | Some (count, hard, used) \<Rightarrow>
          if count = 0 then ''Capsule holds the division total, but has not yet counted any namespace into it''
          else ''Capsule enforces the division total across '' @ show_int count @ '' namespaces; '' @
               tn_show_quantity deps (cpu_of used) @ '' of '' @ tn_show_quantity deps (cpu_of hard) @ '' cpu is committed'')"

section \<open>Reconcile\<close>

text \<open>What the loop over the environments has done so far: cluster, status, and what is still ready.\<close>

record Progress =
  pg_cluster :: Cluster
  pg_status :: DivisionStatus
  pg_namespacesReady :: bool
  pg_isolationReady :: bool
  pg_accessReady :: bool
  pg_quotaReady :: bool

definition note_quota :: "time \<Rightarrow> string \<Rightarrow> Cluster \<times> string option \<Rightarrow> Progress \<Rightarrow> Progress" where
  "note_quota now reason result p =
     (case result of
        (c, None) \<Rightarrow> p\<lparr>pg_cluster := c\<rparr>
      | (c, Some err) \<Rightarrow> p\<lparr>pg_cluster := c, pg_quotaReady := False,
          pg_status := dv_setCondition now ''QuotaReady'' ''False'' reason err (pg_status p)\<rparr>)"

definition note_isolation :: "time \<Rightarrow> Cluster \<times> string option \<Rightarrow> Progress \<Rightarrow> Progress" where
  "note_isolation now result p =
     (case result of
        (c, None) \<Rightarrow> p\<lparr>pg_cluster := c\<rparr>
      | (c, Some err) \<Rightarrow> p\<lparr>pg_cluster := c, pg_isolationReady := False,
          pg_status := dv_setCondition now ''IsolationReady'' ''False'' ''NetworkPolicyFailed'' err (pg_status p)\<rparr>)"

definition note_access :: "time \<Rightarrow> Cluster \<times> string option \<Rightarrow> Progress \<Rightarrow> Progress" where
  "note_access now result p =
     (case result of
        (c, None) \<Rightarrow> p\<lparr>pg_cluster := c\<rparr>
      | (c, Some err) \<Rightarrow> p\<lparr>pg_cluster := c, pg_accessReady := False,
          pg_status := dv_setCondition now ''AccessReady'' ''False'' ''RoleBindingFailed'' err (pg_status p)\<rparr>)"

text \<open>What goes into a namespace once it is there.\<close>

definition furnish :: "TenancyDeps \<Rightarrow> time \<Rightarrow> Division \<Rightarrow> string \<Rightarrow> Progress \<Rightarrow> Progress" where
  "furnish deps now division name p =
     (let p = note_quota now ''LimitRangeFailed'' (tn_ensureLimitRange deps division name (pg_cluster p)) p;
          p = (if tn_capsule deps then p
               else note_quota now ''ResourceQuotaFailed'' (tn_ensureResourceQuota deps division name (pg_cluster p)) p);
          p = (if IsolationEnabled division then note_isolation now (tn_ensureDefaultDeny deps name (pg_cluster p)) p else p)
      in note_access now (tn_ensureRoleBindings deps division name (pg_cluster p)) p)"

definition tn_environment :: "TenancyDeps \<Rightarrow> time \<Rightarrow> Division \<Rightarrow> string \<Rightarrow> Progress \<Rightarrow> Progress" where
  "tn_environment deps now division environment p =
     (let name = NamespaceFor division environment in
      case tn_ensureNamespace deps division environment name (pg_cluster p) of
        (c, Some err) \<Rightarrow> p\<lparr>pg_cluster := c, pg_namespacesReady := False,
          pg_status := dv_setCondition now ''NamespacesReady'' ''False'' ''NamespaceFailed'' err (pg_status p)\<rparr>
      | (c, None) \<Rightarrow>
          furnish deps now division name
            (p\<lparr>pg_cluster := c, pg_status := (pg_status p)\<lparr>dv_Namespaces := dv_Namespaces (pg_status p) @ [name]\<rparr>\<rparr>))"

definition tn_environments :: "TenancyDeps \<Rightarrow> time \<Rightarrow> Division \<Rightarrow> string list \<Rightarrow> Progress \<Rightarrow> Progress" where
  "tn_environments deps now division = fold (tn_environment deps now division)"

definition across_namespaces :: "TenancyDeps \<Rightarrow> time \<Rightarrow> Division \<Rightarrow> Progress \<Rightarrow> Progress" where
  "across_namespaces deps now division p =
     (if \<not> tn_capsule deps then p
      else case ensureGlobalQuota deps division (pg_cluster p) of
        (c, Some err) \<Rightarrow> note_quota now ''GlobalQuotaFailed'' (c, Some err) p
      | (c, None) \<Rightarrow> note_quota now ''StaleQuotaLeft'' (dropNamespaceQuotas deps (dv_Namespaces (pg_status p)) c) p)"

text \<open>The conditions of what is ready, and the phase.\<close>

definition isolation_reason :: "Division \<Rightarrow> string \<times> string" where
  "isolation_reason division =
     (if IsolationEnabled division
      then (''DefaultDeny'', ''every namespace denies ingress and egress until a peering is approved'')
      else (''Disabled'', ''the division opted out of default-deny isolation''))"

definition per_namespace_text :: string where
  "per_namespace_text = ''the quota is enforced in each namespace; a cross-namespace total needs a tenant quota backend''"

definition conclude :: "TenancyDeps \<Rightarrow> time \<Rightarrow> Division \<Rightarrow> Progress \<Rightarrow> DivisionStatus" where
  "conclude deps now division p =
     (let s = pg_status p;
          s = (if pg_namespacesReady p
               then dv_setCondition now ''NamespacesReady'' ''True'' ''Provisioned''
                      (show_nat (length (dv_Namespaces s)) @ '' namespaces reconciled'') s else s);
          s = (if pg_isolationReady p
               then dv_setCondition now ''IsolationReady'' ''True'' (fst (isolation_reason division))
                      (snd (isolation_reason division)) s else s);
          s = (if pg_accessReady p
               then dv_setCondition now ''AccessReady'' ''True'' ''Bound''
                      (show_nat (length (Access (dv_Spec division))) @ '' group claims bound to namespace roles'') s else s);
          s = (if pg_quotaReady p
               then (if tn_capsule deps
                     then dv_setCondition now ''QuotaReady'' ''True'' ''AcrossNamespaces''
                            (globalQuotaMessage deps division (pg_cluster p)) s
                     else dv_setCondition now ''QuotaReady'' ''True'' ''PerNamespace'' per_namespace_text s) else s)
      in s\<lparr>dv_Phase := (if pg_namespacesReady p \<and> pg_isolationReady p \<and> pg_accessReady p \<and> pg_quotaReady p
                         then DivisionActive else DivisionPending)\<rparr>)"

definition start_progress :: "TenancyDeps \<Rightarrow> Division \<Rightarrow> Cluster \<Rightarrow> Progress" where
  "start_progress deps division c =
     \<lparr>pg_cluster = c,
      pg_status = (dv_Status division)\<lparr>dv_Namespaces := [], dv_ObservedGeneration := om_Generation (dv_Meta division),
        QuotaBackend := (if tn_capsule deps then QuotaBackendCapsule else QuotaBackendResourceQuota)\<rparr>,
      pg_namespacesReady = True, pg_isolationReady = True, pg_accessReady = True, pg_quotaReady = True\<rparr>"

definition run_division :: "TenancyDeps \<Rightarrow> time \<Rightarrow> Division \<Rightarrow> Cluster \<Rightarrow> Progress" where
  "run_division deps now division c =
     across_namespaces deps now division
       (tn_environments deps now division (Environments (dv_Spec division)) (start_progress deps division c))"

definition division_Reconcile ::
  "TenancyDeps \<Rightarrow> time \<Rightarrow> (api_error + Division) \<Rightarrow> Cluster \<Rightarrow> Cluster \<times> DivisionStatus option \<times> string option" where
  "division_Reconcile deps now got c =
     (case got of
        Inl err \<Rightarrow> (c, None, if is_not_found err then None else Some (error_text err))
      | Inr division \<Rightarrow>
          if om_DeletionTimestamp (dv_Meta division) \<noteq> None then (c, markPhase deps division DivisionTerminating)
          else if Suspended (dv_Spec division) then (c, markPhase deps division DivisionSuspended)
          else (let p = run_division deps now division c
                in (pg_cluster p, dv_writeStatus deps division (conclude deps now division p))))"

section \<open>What a reconcile leaves alone\<close>

text \<open>Two clusters that agree outside the given namespaces and the given global quotas.\<close>

definition unchanged_outside :: "string set \<Rightarrow> string set \<Rightarrow> Cluster \<Rightarrow> Cluster \<Rightarrow> bool" where
  "unchanged_outside own globals c c' \<longleftrightarrow>
     (\<forall>n. n \<notin> own \<longrightarrow> Namespaces c' n = Namespaces c n \<and>
        (\<forall>k. ResourceQuotas c' (n, k) = ResourceQuotas c (n, k) \<and> LimitRanges c' (n, k) = LimitRanges c (n, k) \<and>
             NetworkPolicies c' (n, k) = NetworkPolicies c (n, k) \<and> RoleBindings c' (n, k) = RoleBindings c (n, k))) \<and>
     (\<forall>n. n \<notin> globals \<longrightarrow> GlobalQuotas c' n = GlobalQuotas c n)"

named_theorems frame \<open>operations that stay within their namespace\<close>

lemma unchanged_outside_refl [simp, frame]: "unchanged_outside own globals c c"
  by (simp add: unchanged_outside_def)

lemma unchanged_outside_trans: "unchanged_outside own globals a b \<Longrightarrow> unchanged_outside own globals b c \<Longrightarrow> unchanged_outside own globals a c"
  by (simp add: unchanged_outside_def)

lemma unchanged_outside_mono: "unchanged_outside own globals a b \<Longrightarrow> own \<subseteq> own' \<Longrightarrow> globals \<subseteq> globals' \<Longrightarrow> unchanged_outside own' globals' a b"
  unfolding unchanged_outside_def by blast

lemma tn_ensureNamespace_frame [frame]:
  "tn_ensureNamespace deps division environment name c = (c', err) \<Longrightarrow> unchanged_outside {name} {} c c'"
  by (auto simp: tn_ensureNamespace_def unchanged_outside_def dest: create_or_update_other split: prod.splits option.splits)

lemma deleteIfPresent_other: "deleteIfPresent fault m k name = (m', err) \<Longrightarrow> k' \<noteq> k \<Longrightarrow> m' k' = m k'"
  by (auto simp: deleteIfPresent_def dest: kube_delete_other split: prod.splits option.splits)

lemma tn_ensureLimitRange_frame [frame]:
  "tn_ensureLimitRange deps division name c = (c', err) \<Longrightarrow> unchanged_outside {name} {} c c'"
  by (auto simp: tn_ensureLimitRange_def Let_def unchanged_outside_def dest: create_or_update_other deleteIfPresent_other
      split: prod.splits option.splits if_splits)

lemma tn_ensureResourceQuota_frame [frame]:
  "tn_ensureResourceQuota deps division name c = (c', err) \<Longrightarrow> unchanged_outside {name} {} c c'"
  by (auto simp: tn_ensureResourceQuota_def Let_def unchanged_outside_def dest: create_or_update_other split: prod.splits option.splits)

lemma tn_ensureDefaultDeny_frame [frame]:
  "tn_ensureDefaultDeny deps name c = (c', err) \<Longrightarrow> unchanged_outside {name} {} c c'"
  by (auto simp: tn_ensureDefaultDeny_def Let_def unchanged_outside_def dest: create_or_update_other split: prod.splits option.splits)

lemma bind_grants_frame:
  "bind_grants deps division name grants wanted c = (c', r) \<Longrightarrow> unchanged_outside {name} {} c c'"
proof (induction deps division name grants wanted c rule: bind_grants.induct)
  case (2 deps division name grant grants wanted c)
  show ?case
  proof (cases "clusterRoleForRole (grant_Role grant)")
    case None
    with 2 show ?thesis by simp
  next
    case (Some role)
    let ?k = "(name, roleBindingName (grant_Role grant))"
    obtain m err where m: "create_or_update (tn_faults deps c (OpGet KindBinding ?k)) (tn_faults deps c (OpWrite KindBinding ?k))
        (RoleBindings c) ?k fresh_binding (\<lambda>b. Inr (bound division role (grant_Group grant) b)) = (m, err)"
      by fastforce
    have here: "unchanged_outside {name} {} c (c\<lparr>RoleBindings := m\<rparr>)"
      using create_or_update_other [OF m] by (auto simp: unchanged_outside_def)
    show ?thesis
    proof (cases err)
      case None
      with 2 Some m here show ?thesis
        by (auto simp: Let_def intro: unchanged_outside_trans)
    next
      case (Some e)
      with 2(3) m \<open>clusterRoleForRole (grant_Role grant) = Some role\<close> show ?thesis
        by (simp add: Let_def)
    qed
  qed
qed simp

lemma prune_each_frame: "prune_each deps name wanted names c = (c', err) \<Longrightarrow> unchanged_outside {name} {} c c'"
proof (induction names arbitrary: c)
  case (Cons n names)
  obtain m e where m: "kube_delete (tn_faults deps c (OpDelete KindBinding (name, n))) (RoleBindings c) (name, n) = (m, e)"
    by fastforce
  have "unchanged_outside {name} {} c (c\<lparr>RoleBindings := m\<rparr>)"
    using kube_delete_other [OF m] by (auto simp: unchanged_outside_def)
  with Cons m show ?case
    by (auto split: if_splits option.splits intro: unchanged_outside_trans)
qed simp

lemma tn_ensureRoleBindings_frame [frame]:
  "tn_ensureRoleBindings deps division name c = (c', err) \<Longrightarrow> unchanged_outside {name} {} c c'"
  by (auto simp: tn_ensureRoleBindings_def pruneRoleBindings_def split: prod.splits sum.splits option.splits
      dest: bind_grants_frame prune_each_frame intro: unchanged_outside_trans)

lemma note_cluster [simp]:
  "pg_cluster (note_quota now reason result p) = fst result"
  "pg_cluster (note_isolation now result p) = fst result"
  "pg_cluster (note_access now result p) = fst result"
  by (auto simp: note_quota_def note_isolation_def note_access_def split: prod.splits option.splits)

lemma frame_fst: "(\<And>c' err. f c = (c', err) \<Longrightarrow> unchanged_outside own globals c c') \<Longrightarrow> unchanged_outside own globals c (fst (f c))"
  by (metis prod.collapse)

lemma furnish_frame: "unchanged_outside {name} {} (pg_cluster p) (pg_cluster (furnish deps now division name p))"
proof -
  note step = frame_fst [where own = "{name}" and globals = "{}"]
  have "unchanged_outside {name} {} c (fst (tn_ensureLimitRange deps division name c))"
      "unchanged_outside {name} {} c (fst (tn_ensureResourceQuota deps division name c))"
      "unchanged_outside {name} {} c (fst (tn_ensureDefaultDeny deps name c))"
      "unchanged_outside {name} {} c (fst (tn_ensureRoleBindings deps division name c))" for c
    by (rule step, erule frame)+
  then show ?thesis
    by (simp add: furnish_def Let_def) (meson unchanged_outside_trans)
qed

lemma tn_environment_frame:
  "unchanged_outside {NamespaceFor division environment} {} (pg_cluster p) (pg_cluster (tn_environment deps now division environment p))"
proof -
  let ?name = "NamespaceFor division environment"
  obtain c err where c: "tn_ensureNamespace deps division environment ?name (pg_cluster p) = (c, err)" by fastforce
  have "unchanged_outside {?name} {} (pg_cluster p) c"
    using c by (rule tn_ensureNamespace_frame)
  then show ?thesis
    using c furnish_frame [of ?name "p\<lparr>pg_cluster := c, pg_status := (pg_status p)\<lparr>dv_Namespaces := dv_Namespaces (pg_status p) @ [?name]\<rparr>\<rparr>" deps now division]
    by (auto simp: tn_environment_def Let_def split: option.splits intro: unchanged_outside_trans)
qed

lemma tn_environments_frame:
  "unchanged_outside (NamespaceFor division ` set environments) {} (pg_cluster p)
     (pg_cluster (tn_environments deps now division environments p))"
proof (induction environments arbitrary: p)
  case (Cons environment environments)
  have "unchanged_outside (NamespaceFor division ` set (environment # environments)) {} (pg_cluster p)
      (pg_cluster (tn_environment deps now division environment p))"
    by (rule unchanged_outside_mono [OF tn_environment_frame]) auto
  moreover have "unchanged_outside (NamespaceFor division ` set (environment # environments)) {}
      (pg_cluster (tn_environment deps now division environment p))
      (pg_cluster (tn_environments deps now division environments (tn_environment deps now division environment p)))"
    by (rule unchanged_outside_mono [OF Cons.IH]) auto
  ultimately show ?case
    unfolding tn_environments_def fold_simps comp_apply by (rule unchanged_outside_trans)
qed (simp add: tn_environments_def)


lemma ensureGlobalQuota_frame [frame]:
  "ensureGlobalQuota deps division c = (c', err) \<Longrightarrow> unchanged_outside {} {global_name division} c c'"
  by (auto simp: ensureGlobalQuota_def Let_def unchanged_outside_def split: sum.splits option.splits if_splits)

lemma dropNamespaceQuotas_frame:
  "dropNamespaceQuotas deps names c = (c', err) \<Longrightarrow> unchanged_outside (set names) {} c c'"
proof (induction names arbitrary: c)
  case (Cons n names)
  let ?k = "(n, ResourceQuotaName)"
  obtain m e where m: "deleteIfPresent (tn_faults deps c (OpDelete KindQuota ?k)) (ResourceQuotas c) ?k ResourceQuotaName = (m, e)"
    by fastforce
  have here: "unchanged_outside (set (n # names)) {} c (c\<lparr>ResourceQuotas := m\<rparr>)"
    using deleteIfPresent_other [OF m] by (auto simp: unchanged_outside_def)
  show ?case
  proof (cases e)
    case None
    with Cons.prems m have "dropNamespaceQuotas deps names (c\<lparr>ResourceQuotas := m\<rparr>) = (c', err)"
      by (simp add: Let_def)
    from unchanged_outside_mono [OF Cons.IH [OF this]] here show ?thesis
      by (meson unchanged_outside_trans order_refl set_subset_Cons)
  qed (use Cons.prems m here in \<open>auto simp: Let_def\<close>)
qed simp

definition own_namespaces :: "Division \<Rightarrow> string set" where
  "own_namespaces division = NamespaceFor division ` set (Environments (dv_Spec division))"

lemma note_status [simp]:
  "dv_Namespaces (pg_status (note_quota now reason result p)) = dv_Namespaces (pg_status p)"
  "dv_Namespaces (pg_status (note_isolation now result p)) = dv_Namespaces (pg_status p)"
  "dv_Namespaces (pg_status (note_access now result p)) = dv_Namespaces (pg_status p)"
  by (auto simp: note_quota_def note_isolation_def note_access_def dv_setCondition_def split: prod.splits option.splits)

lemma furnish_namespaces [simp]: "dv_Namespaces (pg_status (furnish deps now division name p)) = dv_Namespaces (pg_status p)"
  by (simp add: furnish_def Let_def)

lemma tn_environments_namespaces:
  "set (dv_Namespaces (pg_status (tn_environments deps now division environments p))) \<subseteq>
     set (dv_Namespaces (pg_status p)) \<union> NamespaceFor division ` set environments"
proof (induction environments arbitrary: p)
  case (Cons environment environments)
  have "set (dv_Namespaces (pg_status (tn_environment deps now division environment p))) \<subseteq>
      set (dv_Namespaces (pg_status p)) \<union> {NamespaceFor division environment}"
    by (auto simp: tn_environment_def Let_def dv_setCondition_def split: prod.splits option.splits)
  with Cons.IH [of "tn_environment deps now division environment p"] show ?case
    unfolding tn_environments_def fold_simps comp_apply by auto
qed (simp add: tn_environments_def)

lemma run_division_frame:
  "unchanged_outside (own_namespaces division) {global_name division} c (pg_cluster (run_division deps now division c))"
proof -
  let ?p = "tn_environments deps now division (Environments (dv_Spec division)) (start_progress deps division c)"
  let ?own = "own_namespaces division" and ?g = "{global_name division}"
  have environments: "unchanged_outside ?own ?g c (pg_cluster ?p)"
    using tn_environments_frame [of division "Environments (dv_Spec division)" "start_progress deps division c" deps now]
    by (auto simp: own_namespaces_def start_progress_def intro: unchanged_outside_mono)
  have names: "set (dv_Namespaces (pg_status ?p)) \<subseteq> ?own"
    using tn_environments_namespaces [of deps now division "Environments (dv_Spec division)" "start_progress deps division c"]
    by (simp add: own_namespaces_def start_progress_def)
  obtain c1 e1 where g: "ensureGlobalQuota deps division (pg_cluster ?p) = (c1, e1)" by fastforce
  obtain c2 e2 where d: "dropNamespaceQuotas deps (dv_Namespaces (pg_status ?p)) c1 = (c2, e2)" by fastforce
  have "unchanged_outside ?own ?g (pg_cluster ?p) c1"
    by (rule unchanged_outside_mono [OF ensureGlobalQuota_frame [OF g]]) auto
  moreover have "unchanged_outside ?own ?g c1 c2"
    by (rule unchanged_outside_mono [OF dropNamespaceQuotas_frame [OF d]]) (use names in auto)
  ultimately show ?thesis
    using environments g d
    by (auto simp: run_division_def across_namespaces_def split: option.splits intro: unchanged_outside_trans)
qed



section \<open>Access\<close>

text \<open>A role binding that lists a subject.\<close>

definition lists :: "(key \<rightharpoonup> KRoleBinding) \<Rightarrow> key \<Rightarrow> Subject \<Rightarrow> bool" where
  "lists bindings k s \<longleftrightarrow> (case bindings k of None \<Rightarrow> False | Some b \<Rightarrow> s \<in> set (rb_Subjects b))"

lemma binding_keeps_subjects:
  assumes "create_or_update g w (RoleBindings c) k' fresh_binding (\<lambda>b. Inr (bound division role gr b)) = (m, err)"
    and "lists (RoleBindings c) k s"
  shows "lists m k s"
  using assms by (cases "k = k'")
    (auto simp: lists_def create_or_update_def kube_get_def kube_write_def bound_def appendSubject_def split: option.splits sum.splits if_splits)

text \<open>The binding names of the roles that a list of grants maps to a cluster role.\<close>

fun granted_names :: "Grant list \<Rightarrow> string set" where
  "granted_names [] = {}"
| "granted_names (g # gs) =
     (if clusterRoleForRole (grant_Role g) = None then {} else {roleBindingName (grant_Role g)}) \<union> granted_names gs"

lemma granted_names_mem:
  "grant \<in> set gs \<Longrightarrow> clusterRoleForRole (grant_Role grant) \<noteq> None \<Longrightarrow> roleBindingName (grant_Role grant) \<in> granted_names gs"
  by (induction gs) auto

lemma bind_grants_wanted:
  "bind_grants deps division name grants wanted c = (c', Inr w) \<Longrightarrow> set w = set wanted \<union> granted_names grants"
  by (induction deps division name grants wanted c rule: bind_grants.induct)
    (auto simp: Let_def split: option.splits prod.splits)

lemma bind_grants_keeps:
  "bind_grants deps division name grants wanted c = (c', r) \<Longrightarrow> lists (RoleBindings c) k s \<Longrightarrow> lists (RoleBindings c') k s"
proof (induction grants arbitrary: wanted c)
  case (Cons grant grants)
  show ?case
  proof (cases "clusterRoleForRole (grant_Role grant)")
    case None
    with Cons show ?thesis by auto
  next
    case role: (Some role)
    let ?k = "(name, roleBindingName (grant_Role grant))"
    obtain m err where m: "create_or_update (tn_faults deps c (OpGet KindBinding ?k)) (tn_faults deps c (OpWrite KindBinding ?k))
        (RoleBindings c) ?k fresh_binding (\<lambda>b. Inr (bound division role (grant_Group grant) b)) = (m, err)"
      by fastforce
    have "lists m k s"
      by (rule binding_keeps_subjects [OF m Cons.prems(2)])
    with Cons m role show ?thesis
      by (auto simp: Let_def split: option.splits)
  qed
qed simp

lemma prune_each_keeps:
  "prune_each deps name wanted names c = (c', err) \<Longrightarrow> snd k \<in> set wanted \<or> fst k \<noteq> name \<Longrightarrow> lists (RoleBindings c') k s = lists (RoleBindings c) k s"
proof (induction names arbitrary: c)
  case (Cons n names)
  show ?case
  proof (cases "n \<in> set wanted")
    case False
    obtain m e where m: "kube_delete (tn_faults deps c (OpDelete KindBinding (name, n))) (RoleBindings c) (name, n) = (m, e)"
      by fastforce
    have "k \<noteq> (name, n)"
      using False Cons.prems(2) by auto
    with kube_delete_other [OF m] have "lists m k s = lists (RoleBindings c) k s"
      by (simp add: lists_def)
    with Cons m False show ?thesis
      by (auto split: option.splits if_splits)
  qed (use Cons in simp)
qed simp

lemma tn_ensureRoleBindings_keeps:
  assumes "tn_ensureRoleBindings deps division name c = (c', err)" and "lists (RoleBindings c) (n, roleBindingName role) s"
    and "\<exists>grant \<in> set (Access (dv_Spec division)). grant_Role grant = role" and "clusterRoleForRole role \<noteq> None"
  shows "lists (RoleBindings c') (n, roleBindingName role) s"
proof -
  obtain c1 r where g: "bind_grants deps division name (Access (dv_Spec division)) [] c = (c1, r)" by fastforce
  note kept = bind_grants_keeps [OF g assms(2)]
  show ?thesis
  proof (cases r)
    case (Inr w)
    with bind_grants_wanted g assms(3,4) have "roleBindingName role \<in> set w"
      by (auto intro: granted_names_mem)
    with prune_each_keeps [of deps name w "managed_names deps division name c1" c1 c' err "(n, roleBindingName role)" s]
      kept g Inr assms(1) show ?thesis
      by (simp add: tn_ensureRoleBindings_def pruneRoleBindings_def split: option.splits)
  qed (use g kept assms(1) in \<open>auto simp: tn_ensureRoleBindings_def\<close>)
qed

lemma other_operations_keep_bindings:
  "RoleBindings (fst (tn_ensureNamespace deps division environment name c)) = RoleBindings c"
  "RoleBindings (fst (tn_ensureLimitRange deps division name c)) = RoleBindings c"
  "RoleBindings (fst (tn_ensureResourceQuota deps division name c)) = RoleBindings c"
  "RoleBindings (fst (tn_ensureDefaultDeny deps name c)) = RoleBindings c"
  "RoleBindings (fst (ensureGlobalQuota deps division c)) = RoleBindings c"
  by (auto simp: tn_ensureNamespace_def tn_ensureLimitRange_def tn_ensureResourceQuota_def tn_ensureDefaultDeny_def
      ensureGlobalQuota_def Let_def split: prod.splits option.splits sum.splits)

lemma dropNamespaceQuotas_bindings: "RoleBindings (fst (dropNamespaceQuotas deps names c)) = RoleBindings c"
  by (induction names arbitrary: c) (auto simp: Let_def split: prod.splits option.splits)

lemma tn_environment_keeps:
  assumes "lists (RoleBindings (pg_cluster p)) (n, roleBindingName role) s"
    and "\<exists>grant \<in> set (Access (dv_Spec division)). grant_Role grant = role" and "clusterRoleForRole role \<noteq> None"
  shows "lists (RoleBindings (pg_cluster (tn_environment deps now division environment p))) (n, roleBindingName role) s"
proof -
  let ?name = "NamespaceFor division environment"
  have furnished: "lists (RoleBindings (pg_cluster (furnish deps now division ?name q))) (n, roleBindingName role) s"
    if "lists (RoleBindings (pg_cluster q)) (n, roleBindingName role) s" for q
  proof -
    have "lists (RoleBindings (fst (tn_ensureRoleBindings deps division ?name c))) (n, roleBindingName role) s"
      if "lists (RoleBindings c) (n, roleBindingName role) s" for c
      using tn_ensureRoleBindings_keeps [OF _ that assms(2,3)] by (metis prod.collapse)
    with that show ?thesis
      by (auto simp: furnish_def Let_def other_operations_keep_bindings)
  qed
  show ?thesis
    using assms(1) furnished other_operations_keep_bindings(1) [of deps division environment ?name "pg_cluster p"]
    by (auto simp: tn_environment_def Let_def split: prod.splits option.splits)
qed

text \<open>
  A group that is taken out of a division's grants keeps its access as long as another group
  still holds the same role: whatever fails or succeeds, a reconcile leaves every subject in the
  binding of a role that is still granted.
\<close>
theorem removed_group_keeps_its_access:
  assumes "lists (RoleBindings c) (n, roleBindingName role) s"
    and "\<exists>grant \<in> set (Access (dv_Spec division)). grant_Role grant = role" and "clusterRoleForRole role \<noteq> None"
  shows "lists (RoleBindings (fst (division_Reconcile deps now (Inr division) c))) (n, roleBindingName role) s"
proof -
  have "lists (RoleBindings (pg_cluster (tn_environments deps now division environments p))) (n, roleBindingName role) s"
    if "lists (RoleBindings (pg_cluster p)) (n, roleBindingName role) s" for environments p
    using that
  proof (induction environments arbitrary: p)
    case (Cons e es)
    from Cons.IH [OF tn_environment_keeps [OF Cons.prems assms(2,3)]] show ?case
      by (simp add: tn_environments_def)
  qed (simp add: tn_environments_def)
  from this [of "start_progress deps division c"] assms(1)
  have environments: "lists (RoleBindings (pg_cluster (tn_environments deps now division (Environments (dv_Spec division)) (start_progress deps division c))))
      (n, roleBindingName role) s"
    by (simp add: start_progress_def)
  have "RoleBindings (pg_cluster (across_namespaces deps now division p)) = RoleBindings (pg_cluster p)" for p
    using other_operations_keep_bindings(5) [of deps division "pg_cluster p"]
    by (auto simp: across_namespaces_def dropNamespaceQuotas_bindings split: prod.splits option.splits)
  with environments assms(1) show ?thesis
    by (auto simp: division_Reconcile_def Let_def run_division_def)
qed


section \<open>What an active division has\<close>

text \<open>
  What the model relies on: an owner reference leaves the labels, a listing shows every binding
  that is there under one of the names that occur, and a failing delete says "not found" only of
  an object that is not there.
\<close>

definition tenancy_laws :: "TenancyDeps \<Rightarrow> string list \<Rightarrow> bool" where
  "tenancy_laws deps names \<longleftrightarrow>
     (\<forall>d ns ns'. tn_set_ref deps d ns = Inr ns' \<longrightarrow> ns_Labels ns' = ns_Labels ns) \<and>
     (\<forall>c n. \<forall>name \<in> set names. RoleBindings c (n, name) \<noteq> None \<longrightarrow> name \<in> set (tn_listing deps c n)) \<and>
     (\<forall>c kind k err. tn_faults deps c (OpDelete kind k) = Some err \<longrightarrow> \<not> is_not_found err)"

definition has_access :: "(key \<rightharpoonup> KRoleBinding) \<Rightarrow> key \<Rightarrow> string \<Rightarrow> Subject \<Rightarrow> bool" where
  "has_access bindings k role s \<longleftrightarrow> (\<exists>b. bindings k = Some b \<and> rb_RoleRef b = role \<and> s \<in> set (rb_Subjects b))"

definition accessible :: "string list \<Rightarrow> Division \<Rightarrow> string \<Rightarrow> (key \<rightharpoonup> KRoleBinding) \<Rightarrow> bool" where
  "accessible occurring division name bindings \<longleftrightarrow>
     (\<forall>grant \<in> set (Access (dv_Spec division)). \<forall>role. clusterRoleForRole (grant_Role grant) = Some role \<longrightarrow>
        has_access bindings (name, roleBindingName (grant_Role grant)) role (group_subject (grant_Group grant))) \<and>
     (\<forall>n \<in> set occurring. \<forall>b. bindings (name, n) = Some b \<and> is_managed division b \<longrightarrow> n \<in> granted_names (Access (dv_Spec division)))"

definition limited :: "Division \<Rightarrow> KLimitRange option \<Rightarrow> bool" where
  "limited division r \<longleftrightarrow>
     (if default_requests division = [] \<and> maximums division = [] then r = None
      else \<exists>l. r = Some l \<and> lr_DefaultRequest l = map_of (default_requests division) \<and> lr_Max l = map_of (maximums division))"

text \<open>Everything the division asks for in a namespace.\<close>

definition furnished :: "string list \<Rightarrow> TenancyDeps \<Rightarrow> Division \<Rightarrow> string \<Rightarrow> Cluster \<Rightarrow> bool" where
  "furnished occurring deps division environment c \<longleftrightarrow>
     (let name = NamespaceFor division environment in
      (\<exists>ns. Namespaces c name = Some ns \<and> ns_Labels ns LabelDivision = Some (om_Name (dv_Meta division)) \<and>
            ns_Labels ns LabelEnvironment = Some environment \<and> ns_Labels ns LabelManagedBy = Some ManagedBy) \<and>
      limited division (LimitRanges c (name, LimitRangeName)) \<and>
      (\<not> tn_capsule deps \<longrightarrow> (\<exists>q. ResourceQuotas c (name, ResourceQuotaName) = Some q \<and>
         rq_Hard q = quota_hard (tn_new_quantity deps) (dv_Quota (dv_Spec division)))) \<and>
      (IsolationEnabled division \<longrightarrow> (\<exists>p. NetworkPolicies c (name, DefaultDenyPolicyName) = Some p \<and>
         np_PolicyTypes p = [''Ingress'', ''Egress''])) \<and>
      accessible occurring division name (RoleBindings c))"

lemma roleBindingName_inject: "roleBindingName a = roleBindingName b \<Longrightarrow> a = b"
  by (cases a; cases b) (auto simp: roleBindingName_def)

lemma binding_keeps_access:
  assumes "create_or_update g w bindings k' fresh_binding (\<lambda>b. Inr (bound division role' gr b)) = (m, err)"
    and "has_access bindings k role s" and "k = k' \<Longrightarrow> role' = role"
  shows "has_access m k role s"
  using assms by (cases "k = k'")
    (auto simp: has_access_def create_or_update_def kube_get_def kube_write_def bound_def appendSubject_def
      split: option.splits sum.splits if_splits)

lemma binding_gives_access:
  assumes "create_or_update g w bindings k fresh_binding (\<lambda>b. Inr (bound division role gr b)) = (m, None)"
  shows "has_access m k role (group_subject gr)"
  using create_or_update_ok [OF assms] by (auto simp: has_access_def bound_def appendSubject_def)

lemma bind_grants_keeps_access:
  assumes "bind_grants deps division name grants wanted c = (c', r)"
    and "has_access (RoleBindings c) (name, roleBindingName ro) role s" and "clusterRoleForRole ro = Some role"
  shows "has_access (RoleBindings c') (name, roleBindingName ro) role s"
  using assms
proof (induction grants arbitrary: wanted c)
  case (Cons grant grants)
  show ?case
  proof (cases "clusterRoleForRole (grant_Role grant)")
    case None
    with Cons show ?thesis by auto
  next
    case role: (Some role')
    let ?k = "(name, roleBindingName (grant_Role grant))"
    obtain m err where m: "create_or_update (tn_faults deps c (OpGet KindBinding ?k)) (tn_faults deps c (OpWrite KindBinding ?k))
        (RoleBindings c) ?k fresh_binding (\<lambda>b. Inr (bound division role' (grant_Group grant) b)) = (m, err)"
      by fastforce
    have "has_access m (name, roleBindingName ro) role s"
      by (rule binding_keeps_access [OF m Cons.prems(2)]) (use role Cons.prems(3) roleBindingName_inject in fastforce)
    with Cons m role show ?thesis
      by (auto simp: Let_def split: option.splits)
  qed
qed simp

lemma bind_grants_gives_access:
  assumes "bind_grants deps division name grants wanted c = (c', Inr w)"
    and "grant \<in> set grants" and "clusterRoleForRole (grant_Role grant) = Some role"
  shows "has_access (RoleBindings c') (name, roleBindingName (grant_Role grant)) role (group_subject (grant_Group grant))"
  using assms
proof (induction grants arbitrary: wanted c)
  case (Cons g grants)
  show ?case
  proof (cases "clusterRoleForRole (grant_Role g)")
    case None
    with Cons show ?thesis by auto
  next
    case role: (Some role')
    let ?k = "(name, roleBindingName (grant_Role g))"
    obtain m err where m: "create_or_update (tn_faults deps c (OpGet KindBinding ?k)) (tn_faults deps c (OpWrite KindBinding ?k))
        (RoleBindings c) ?k fresh_binding (\<lambda>b. Inr (bound division role' (grant_Group g) b)) = (m, err)"
      by fastforce
    then have ok: "err = None" and rest: "bind_grants deps division name grants (roleBindingName (grant_Role g) # wanted)
        (c\<lparr>RoleBindings := m\<rparr>) = (c', Inr w)"
      using Cons.prems(1) role by (auto simp: Let_def split: option.splits)
    show ?thesis
    proof (cases "grant = g")
      case True
      with binding_gives_access [OF m [unfolded ok]] role Cons.prems(3) bind_grants_keeps_access [OF rest] show ?thesis
        by simp
    next
      case False
      with Cons.IH [OF rest _ Cons.prems(3)] Cons.prems(2) show ?thesis
        by simp
    qed
  qed
qed simp

lemma prune_each_effect:
  "prune_each deps name wanted names c = (c', None) \<Longrightarrow> tenancy_laws deps occurring \<Longrightarrow>
     (\<forall>n. RoleBindings c' (name, n) = (if n \<in> set names - set wanted then None else RoleBindings c (name, n)))"
proof (induction names arbitrary: c)
  case (Cons n names)
  show ?case
  proof (cases "n \<in> set wanted")
    case True
    with Cons show ?thesis by auto
  next
    case False
    obtain m e where m: "kube_delete (tn_faults deps c (OpDelete KindBinding (name, n))) (RoleBindings c) (name, n) = (m, e)"
      by fastforce
    have rest: "prune_each deps name wanted names (c\<lparr>RoleBindings := m\<rparr>) = (c', None)"
      using Cons.prems m False by (auto split: option.splits if_splits)
    have "m (name, n) = None" "\<And>k. k \<noteq> (name, n) \<Longrightarrow> m k = RoleBindings c k"
      using m Cons.prems False by (auto simp: kube_delete_def tenancy_laws_def split: option.splits if_splits)
    moreover from this have "m (name, n') = RoleBindings c (name, n')" if "n' \<in> set wanted" for n'
      using that False by (cases "n' = n") auto
    ultimately show ?thesis
      using Cons.IH [OF rest Cons.prems(2)] False by auto
  qed
qed simp

lemma tn_ensureRoleBindings_accessible:
  assumes "tenancy_laws deps occurring" and "tn_ensureRoleBindings deps division name c = (c', None)"
  shows "accessible occurring division name (RoleBindings c')"
proof -
  obtain c1 w where g: "bind_grants deps division name (Access (dv_Spec division)) [] c = (c1, Inr w)"
    and p: "prune_each deps name w (managed_names deps division name c1) c1 = (c', None)"
    using assms(2) by (auto simp: tn_ensureRoleBindings_def pruneRoleBindings_def split: prod.splits sum.splits option.splits)
  have w: "set w = granted_names (Access (dv_Spec division))"
    using bind_grants_wanted [OF g] by simp
  note effect = prune_each_effect [OF p assms(1), rule_format]
  have complete: "n \<in> set (managed_names deps division name c1)"
    if "RoleBindings c1 (name, n) = Some b" "is_managed division b" "n \<in> set occurring" for n b
    using that assms(1) by (simp add: managed_names_def tenancy_laws_def)
  have "has_access (RoleBindings c') (name, roleBindingName (grant_Role grant)) role (group_subject (grant_Group grant))"
    if "grant \<in> set (Access (dv_Spec division))" "clusterRoleForRole (grant_Role grant) = Some role" for grant role
    using bind_grants_gives_access [OF g that] granted_names_mem [OF that(1)] that(2) w
    by (simp add: has_access_def effect)
  moreover have "n \<in> set w" if "RoleBindings c' (name, n) = Some b" "is_managed division b" "n \<in> set occurring" for n b
    using that complete [of n b] by (auto simp: effect split: if_splits)
  ultimately show ?thesis
    unfolding accessible_def w by blast
qed


text \<open>Each operation changes one kind of object.\<close>

lemma tn_ensureNamespace_kind:
  "tn_ensureNamespace deps division environment name c = (c', err) \<Longrightarrow>
     LimitRanges c' = LimitRanges c \<and> ResourceQuotas c' = ResourceQuotas c \<and> NetworkPolicies c' = NetworkPolicies c \<and>
     RoleBindings c' = RoleBindings c"
  by (auto simp: tn_ensureNamespace_def split: prod.splits option.splits)

lemma tn_ensureLimitRange_kind:
  "tn_ensureLimitRange deps division name c = (c', err) \<Longrightarrow>
     Namespaces c' = Namespaces c \<and> ResourceQuotas c' = ResourceQuotas c \<and> NetworkPolicies c' = NetworkPolicies c \<and>
     RoleBindings c' = RoleBindings c"
  by (auto simp: tn_ensureLimitRange_def Let_def split: prod.splits option.splits if_splits)

lemma tn_ensureResourceQuota_kind:
  "tn_ensureResourceQuota deps division name c = (c', err) \<Longrightarrow>
     Namespaces c' = Namespaces c \<and> LimitRanges c' = LimitRanges c \<and> NetworkPolicies c' = NetworkPolicies c \<and>
     RoleBindings c' = RoleBindings c"
  by (auto simp: tn_ensureResourceQuota_def Let_def split: prod.splits option.splits)

lemma tn_ensureDefaultDeny_kind:
  "tn_ensureDefaultDeny deps name c = (c', err) \<Longrightarrow>
     Namespaces c' = Namespaces c \<and> LimitRanges c' = LimitRanges c \<and> ResourceQuotas c' = ResourceQuotas c \<and>
     RoleBindings c' = RoleBindings c"
  by (auto simp: tn_ensureDefaultDeny_def Let_def split: prod.splits option.splits)

lemma bind_grants_kind:
  "bind_grants deps division name grants wanted c = (c', r) \<Longrightarrow>
     Namespaces c' = Namespaces c \<and> LimitRanges c' = LimitRanges c \<and> ResourceQuotas c' = ResourceQuotas c \<and>
     NetworkPolicies c' = NetworkPolicies c"
  by (induction grants arbitrary: wanted c) (fastforce simp: Let_def split: option.splits prod.splits)+

lemma prune_each_kind:
  "prune_each deps name wanted names c = (c', err) \<Longrightarrow>
     Namespaces c' = Namespaces c \<and> LimitRanges c' = LimitRanges c \<and> ResourceQuotas c' = ResourceQuotas c \<and>
     NetworkPolicies c' = NetworkPolicies c"
  by (induction names arbitrary: c) (fastforce split: option.splits prod.splits if_splits)+

lemma tn_ensureRoleBindings_kind:
  "tn_ensureRoleBindings deps division name c = (c', err) \<Longrightarrow>
     Namespaces c' = Namespaces c \<and> LimitRanges c' = LimitRanges c \<and> ResourceQuotas c' = ResourceQuotas c \<and>
     NetworkPolicies c' = NetworkPolicies c"
  by (auto simp: tn_ensureRoleBindings_def pruneRoleBindings_def dest!: bind_grants_kind prune_each_kind
      split: prod.splits sum.splits option.splits)

text \<open>What a successful operation leaves in its namespace.\<close>

lemma tn_ensureNamespace_done:
  assumes "tenancy_laws deps occurring" and "tn_ensureNamespace deps division environment name c = (c', None)"
  shows "\<exists>ns. Namespaces c' name = Some ns \<and> ns_Labels ns LabelDivision = Some (om_Name (dv_Meta division)) \<and>
     ns_Labels ns LabelEnvironment = Some environment \<and> ns_Labels ns LabelManagedBy = Some ManagedBy"
proof -
  obtain m where m: "create_or_update (tn_faults deps c (OpGet KindNamespace ([], name)))
      (tn_faults deps c (OpWrite KindNamespace ([], name))) (Namespaces c) name fresh_namespace
      (\<lambda>ns. tn_set_ref deps division (ns\<lparr>ns_Labels := tn_labels division environment (ns_Labels ns)\<rparr>)) = (m, None)"
      "c' = c\<lparr>Namespaces := m\<rparr>"
    using assms(2) by (auto simp: tn_ensureNamespace_def split: prod.splits option.splits)
  from create_or_update_ok [OF m(1)] obtain ns ns' where
    "tn_set_ref deps division (ns\<lparr>ns_Labels := tn_labels division environment (ns_Labels ns)\<rparr>) = Inr ns'" "m name = Some ns'"
    by auto
  with assms(1) m(2) show ?thesis
    by (fastforce simp: tenancy_laws_def tn_labels_def LabelDivision_def LabelEnvironment_def LabelManagedBy_def)
qed

lemma tn_ensureLimitRange_done:
  assumes "tenancy_laws deps occurring" and "tn_ensureLimitRange deps division name c = (c', None)"
  shows "limited division (LimitRanges c' (name, LimitRangeName))"
  using assms
  by (auto simp: tn_ensureLimitRange_def limited_def Let_def deleteIfPresent_def kube_delete_def tenancy_laws_def
      split: prod.splits option.splits if_splits dest!: create_or_update_ok)

lemma tn_ensureResourceQuota_done:
  "tn_ensureResourceQuota deps division name c = (c', None) \<Longrightarrow> \<exists>q. ResourceQuotas c' (name, ResourceQuotaName) = Some q \<and>
     rq_Hard q = quota_hard (tn_new_quantity deps) (dv_Quota (dv_Spec division))"
  by (auto simp: tn_ensureResourceQuota_def Let_def split: prod.splits option.splits dest!: create_or_update_ok)

lemma tn_ensureDefaultDeny_done:
  "tn_ensureDefaultDeny deps name c = (c', None) \<Longrightarrow> \<exists>p. NetworkPolicies c' (name, DefaultDenyPolicyName) = Some p \<and>
     np_PolicyTypes p = [''Ingress'', ''Egress'']"
  by (auto simp: tn_ensureDefaultDeny_def Let_def split: prod.splits option.splits dest!: create_or_update_ok)

definition all_ready :: "Progress \<Rightarrow> bool" where
  "all_ready p \<longleftrightarrow> pg_namespacesReady p \<and> pg_isolationReady p \<and> pg_accessReady p \<and> pg_quotaReady p"

lemma all_ready_note [simp]:
  "all_ready (note_quota now reason result p) \<longleftrightarrow> all_ready p \<and> snd result = None"
  "all_ready (note_isolation now result p) \<longleftrightarrow> all_ready p \<and> snd result = None"
  "all_ready (note_access now result p) \<longleftrightarrow> all_ready p \<and> snd result = None"
  by (auto simp: all_ready_def note_quota_def note_isolation_def note_access_def split: prod.splits option.splits)


lemma furnish_done:
  assumes "tenancy_laws deps occurring" and "all_ready (furnish deps now division name p)"
  shows "all_ready p \<and> Namespaces (pg_cluster (furnish deps now division name p)) = Namespaces (pg_cluster p) \<and>
    limited division (LimitRanges (pg_cluster (furnish deps now division name p)) (name, LimitRangeName)) \<and>
    (\<not> tn_capsule deps \<longrightarrow> (\<exists>q. ResourceQuotas (pg_cluster (furnish deps now division name p)) (name, ResourceQuotaName) = Some q \<and>
       rq_Hard q = quota_hard (tn_new_quantity deps) (dv_Quota (dv_Spec division)))) \<and>
    (IsolationEnabled division \<longrightarrow> (\<exists>r. NetworkPolicies (pg_cluster (furnish deps now division name p)) (name, DefaultDenyPolicyName) = Some r \<and>
       np_PolicyTypes r = [''Ingress'', ''Egress''])) \<and>
    accessible occurring division name (RoleBindings (pg_cluster (furnish deps now division name p)))"
proof -
  obtain c1 e1 where 1: "tn_ensureLimitRange deps division name (pg_cluster p) = (c1, e1)" by fastforce
  obtain c2 e2 where 2: "(if tn_capsule deps then (c1, None) else tn_ensureResourceQuota deps division name c1) = (c2, e2)" by fastforce
  obtain c3 e3 where 3: "(if IsolationEnabled division then tn_ensureDefaultDeny deps name c2 else (c2, None)) = (c3, e3)" by fastforce
  obtain c4 e4 where 4: "tn_ensureRoleBindings deps division name c3 = (c4, e4)" by fastforce
  have result: "pg_cluster (furnish deps now division name p) = c4"
    using 1 2 3 4 by (simp add: furnish_def Let_def split: if_splits)
  have ready: "all_ready p \<and> e1 = None \<and> e2 = None \<and> e3 = None \<and> e4 = None"
    using assms(2) 1 2 3 4 by (simp add: furnish_def Let_def split: if_splits)
  show ?thesis
    unfolding result
    using ready tn_ensureLimitRange_done [OF assms(1)] tn_ensureResourceQuota_done tn_ensureDefaultDeny_done
      tn_ensureRoleBindings_accessible [OF assms(1)] 1 2 3 4
      tn_ensureLimitRange_kind [OF 1] tn_ensureRoleBindings_kind [OF 4]
      tn_ensureResourceQuota_kind [of deps division name c1 c2 e2] tn_ensureDefaultDeny_kind [of deps name c2 c3 e3]
    by (auto split: if_splits)
qed

lemma tn_environment_done:
  assumes "tenancy_laws deps occurring" and "all_ready (tn_environment deps now division environment p)"
  shows "all_ready p \<and> furnished occurring deps division environment (pg_cluster (tn_environment deps now division environment p))"
proof -
  let ?name = "NamespaceFor division environment"
  obtain c err where c: "tn_ensureNamespace deps division environment ?name (pg_cluster p) = (c, err)" by fastforce
  have ok: "err = None"
    using assms(2) c by (cases err) (auto simp: tn_environment_def Let_def all_ready_def)
  let ?q = "p\<lparr>pg_cluster := c, pg_status := (pg_status p)\<lparr>dv_Namespaces := dv_Namespaces (pg_status p) @ [?name]\<rparr>\<rparr>"
  have step: "tn_environment deps now division environment p = furnish deps now division ?name ?q"
    using c ok by (simp add: tn_environment_def Let_def)
  have "all_ready ?q = all_ready p"
    by (simp add: all_ready_def)
  with furnish_done [OF assms(1) assms(2) [unfolded step]] tn_ensureNamespace_done [OF assms(1) c [unfolded ok]] show ?thesis
    by (simp add: step furnished_def Let_def)
qed

lemma NamespaceFor_inject [simp]: "NamespaceFor d a = NamespaceFor d b \<longleftrightarrow> a = b"
  by (simp add: NamespaceFor_def)

lemma furnished_frame:
  "furnished occurring deps division environment c \<Longrightarrow> unchanged_outside own globals c c' \<Longrightarrow> NamespaceFor division environment \<notin> own \<Longrightarrow>
     furnished occurring deps division environment c'"
  by (simp add: furnished_def unchanged_outside_def Let_def accessible_def has_access_def)

lemma tn_environments_done:
  "tenancy_laws deps occurring \<Longrightarrow> all_ready (tn_environments deps now division environments p) \<Longrightarrow>
     all_ready p \<and> (\<forall>e \<in> set environments. furnished occurring deps division e (pg_cluster (tn_environments deps now division environments p)))"
proof (induction environments rule: rev_induct)
  case (snoc e es)
  let ?p = "tn_environments deps now division es p"
  have step: "tn_environments deps now division (es @ [e]) p = tn_environment deps now division e ?p"
    by (simp add: tn_environments_def)
  from tn_environment_done [OF snoc.prems(1) snoc.prems(2) [unfolded step]]
  have here: "all_ready ?p" "furnished occurring deps division e (pg_cluster (tn_environment deps now division e ?p))" by simp_all
  have "furnished occurring deps division e' (pg_cluster (tn_environment deps now division e ?p))" if "e' \<in> set es" for e'
  proof (cases "e' = e")
    case False
    then show ?thesis
      using furnished_frame [OF _ tn_environment_frame] snoc.IH [OF snoc.prems(1) here(1)] that by simp
  qed (simp add: here(2))
  with here snoc.IH [OF snoc.prems(1) here(1)] show ?case
    by (auto simp: step)
qed (simp add: tn_environments_def)


lemma dropNamespaceQuotas_kind:
  "dropNamespaceQuotas deps names c = (c', err) \<Longrightarrow>
     Namespaces c' = Namespaces c \<and> LimitRanges c' = LimitRanges c \<and> NetworkPolicies c' = NetworkPolicies c \<and>
     RoleBindings c' = RoleBindings c \<and> GlobalQuotas c' = GlobalQuotas c \<and>
     (\<forall>k. ResourceQuotas c k = None \<longrightarrow> ResourceQuotas c' k = None)"
  by (induction names arbitrary: c)
    (fastforce simp: Let_def deleteIfPresent_def kube_delete_def split: option.splits prod.splits if_splits)+

lemma dropNamespaceQuotas_done:
  "dropNamespaceQuotas deps names c = (c', None) \<Longrightarrow> tenancy_laws deps occurring \<Longrightarrow>
     \<forall>n \<in> set names. ResourceQuotas c' (n, ResourceQuotaName) = None"
proof (induction names arbitrary: c)
  case (Cons n names)
  obtain m where m: "deleteIfPresent (tn_faults deps c (OpDelete KindQuota (n, ResourceQuotaName))) (ResourceQuotas c)
      (n, ResourceQuotaName) ResourceQuotaName = (m, None)"
    and rest: "dropNamespaceQuotas deps names (c\<lparr>ResourceQuotas := m\<rparr>) = (c', None)"
    using Cons.prems(1) by (auto simp: Let_def split: prod.splits option.splits)
  have "m (n, ResourceQuotaName) = None"
    using m Cons.prems(2) by (auto simp: deleteIfPresent_def kube_delete_def tenancy_laws_def split: prod.splits option.splits if_splits)
  with dropNamespaceQuotas_kind [OF rest] Cons.IH [OF rest Cons.prems(2)] show ?case
    by simp
qed simp

lemma ensureGlobalQuota_done:
  "ensureGlobalQuota deps division c = (c', None) \<Longrightarrow>
     Namespaces c' = Namespaces c \<and> LimitRanges c' = LimitRanges c \<and> NetworkPolicies c' = NetworkPolicies c \<and>
     RoleBindings c' = RoleBindings c \<and>
     (\<exists>q. GlobalQuotas c' (global_name division) = Some q \<and> gq_Selector q = om_Name (dv_Meta division) \<and>
        gq_Hard q = hardLimits deps (dv_Quota (dv_Spec division)))"
  by (auto simp: ensureGlobalQuota_def Let_def split: sum.splits option.splits if_splits)

definition held_globally :: "TenancyDeps \<Rightarrow> Division \<Rightarrow> Cluster \<Rightarrow> bool" where
  "held_globally deps division c \<longleftrightarrow>
     (\<exists>q. GlobalQuotas c (global_name division) = Some q \<and> gq_Selector q = om_Name (dv_Meta division) \<and>
        gq_Hard q = hardLimits deps (dv_Quota (dv_Spec division))) \<and>
     (\<forall>n \<in> own_namespaces division. ResourceQuotas c (n, ResourceQuotaName) = None)"

lemma tn_environments_listed:
  "all_ready (tn_environments deps now division environments p) \<Longrightarrow> tenancy_laws deps occurring \<Longrightarrow>
     dv_Namespaces (pg_status (tn_environments deps now division environments p)) =
       dv_Namespaces (pg_status p) @ map (NamespaceFor division) environments"
proof (induction environments rule: rev_induct)
  case (snoc e es)
  let ?p = "tn_environments deps now division es p"
  have step: "tn_environments deps now division (es @ [e]) p = tn_environment deps now division e ?p"
    by (simp add: tn_environments_def)
  have "all_ready ?p"
    using tn_environment_done [OF snoc.prems(2)] snoc.prems(1) step by simp
  moreover have "dv_Namespaces (pg_status (tn_environment deps now division e ?p)) = dv_Namespaces (pg_status ?p) @ [NamespaceFor division e]"
    using snoc.prems(1) by (auto simp: step tn_environment_def Let_def all_ready_def split: prod.splits option.splits)
  ultimately show ?case
    using snoc.IH snoc.prems(2) by (simp add: step)
qed (simp add: tn_environments_def)

lemma run_division_done:
  assumes "tenancy_laws deps occurring" and "all_ready (run_division deps now division c)"
  shows "dv_Namespaces (pg_status (run_division deps now division c)) = map (NamespaceFor division) (Environments (dv_Spec division)) \<and>
    (\<forall>e \<in> set (Environments (dv_Spec division)). furnished occurring deps division e (pg_cluster (run_division deps now division c))) \<and>
    (tn_capsule deps \<longrightarrow> held_globally deps division (pg_cluster (run_division deps now division c)))"
proof -
  let ?p = "tn_environments deps now division (Environments (dv_Spec division)) (start_progress deps division c)"
  have ready: "all_ready ?p"
    using assms(2) by (auto simp: run_division_def across_namespaces_def all_ready_def note_quota_def split: if_splits prod.splits option.splits)
  note environments = tn_environments_done [OF assms(1) ready] and listed = tn_environments_listed [OF ready assms(1)]
  show ?thesis
  proof (cases "tn_capsule deps")
    case False
    with environments listed show ?thesis
      by (simp add: run_division_def across_namespaces_def start_progress_def)
  next
    case True
    obtain c1 e1 where g: "ensureGlobalQuota deps division (pg_cluster ?p) = (c1, e1)" by fastforce
    obtain c2 e2 where d: "dropNamespaceQuotas deps (dv_Namespaces (pg_status ?p)) c1 = (c2, e2)" by fastforce
    have ok: "e1 = None" "e2 = None"
      using assms(2) True g d by (auto simp: run_division_def across_namespaces_def split: option.splits)
    have result: "run_division deps now division c = note_quota now ''StaleQuotaLeft'' (c2, None) ?p"
      using True g d ok by (simp add: run_division_def across_namespaces_def)
    note global = ensureGlobalQuota_done [OF g [unfolded ok(1)]] and kind = dropNamespaceQuotas_kind [OF d]
      and dropped = dropNamespaceQuotas_done [OF d [unfolded ok(2)] assms(1)]
    have "held_globally deps division c2"
      using global kind dropped listed by (auto simp: held_globally_def own_namespaces_def start_progress_def)
    moreover have "furnished occurring deps division e c2" if "e \<in> set (Environments (dv_Spec division))" for e
      using environments that global kind True by (auto simp: furnished_def Let_def)
    ultimately show ?thesis
      using listed result by (simp add: start_progress_def)
  qed
qed

lemma dv_setCondition_namespaces [simp]:
  "dv_Namespaces (dv_setCondition now t state reason message s) = dv_Namespaces s"
  by (simp add: dv_setCondition_def)

lemma conclude_simps:
  "dv_Namespaces (conclude deps now division p) = dv_Namespaces (pg_status p)"
  "dv_Phase (conclude deps now division p) = (if all_ready p then DivisionActive else DivisionPending)"
  by (simp_all add: conclude_def Let_def all_ready_def)

text \<open>
  C4. A division is reported active only when everything it asks for is in the cluster: whatever
  may have failed on the way, each of its environments has a namespace with its labels, the
  limits, the quota, the default-deny policy unless it opted out, a binding of every granted
  group to the cluster role of its role, and no other binding managed for it among the names
  that occur; with Capsule the
  division total is held globally and no per-namespace quota is left.
\<close>
theorem active_division_is_provisioned:
  assumes "tenancy_laws deps occurring" and "division_Reconcile deps now (Inr division) c = (c', Some status, err)"
    and "dv_Phase status = DivisionActive"
  shows "dv_Namespaces status = map (NamespaceFor division) (Environments (dv_Spec division)) \<and>
    (\<forall>e \<in> set (Environments (dv_Spec division)). furnished occurring deps division e c') \<and>
    (tn_capsule deps \<longrightarrow> held_globally deps division c')"
proof -
  let ?p = "run_division deps now division c"
  have "c' = pg_cluster ?p" "status = conclude deps now division ?p"
    using assms(2,3) by (auto simp: division_Reconcile_def Let_def markPhase_def dv_writeStatus_def split: if_splits option.splits)
  moreover from this assms(3) have "all_ready ?p"
    by (simp add: conclude_simps split: if_splits)
  ultimately show ?thesis
    using run_division_done [OF assms(1)] by (simp add: conclude_simps)
qed


section \<open>When nothing fails\<close>

definition nothing_fails :: "TenancyDeps \<Rightarrow> bool" where
  "nothing_fails deps \<longleftrightarrow> (\<forall>c operation. tn_faults deps c operation = None) \<and>
     (\<forall>status. tn_update_fault deps status = None) \<and> (\<forall>d ns. \<exists>ns'. tn_set_ref deps d ns = Inr ns')"

lemma create_or_update_succeeds:
  assumes "\<And>obj. \<exists>obj'. mutate obj = Inr obj'"
  shows "snd (create_or_update None None m k fresh mutate) = None"
proof (cases "m k")
  case None
  with assms [of fresh] show ?thesis
    by (auto simp: create_or_update_def kube_get_def kube_write_def)
next
  case (Some x)
  with assms [of x] show ?thesis
    by (auto simp: create_or_update_def kube_get_def kube_write_def)
qed

lemma kube_delete_no_fault: "kube_delete None m k = (m', Some err) \<Longrightarrow> is_not_found err"
  by (auto simp: kube_delete_def split: if_splits)

lemma operations_succeed:
  assumes "nothing_fails deps"
  shows "snd (tn_ensureNamespace deps division environment name c) = None"
    and "snd (tn_ensureLimitRange deps division name c) = None"
    and "snd (tn_ensureResourceQuota deps division name c) = None"
    and "snd (tn_ensureDefaultDeny deps name c) = None"
    and "snd (ensureGlobalQuota deps division c) = None"
    and "snd (dropNamespaceQuotas deps names c) = None"
proof -
  have no: "tn_faults deps c operation = None" for c operation
    using assms by (simp add: nothing_fails_def)
  have ref: "\<exists>ns'. tn_set_ref deps d ns = Inr ns'" for d ns
    using assms by (simp add: nothing_fails_def)
  have deleted: "snd (deleteIfPresent None m k n) = None" for m :: "key \<rightharpoonup> 'o" and k n
    by (auto simp: deleteIfPresent_def dest: kube_delete_no_fault split: prod.splits option.splits)
  have ok: "(case create_or_update None None m k fresh mutate of (m, None) \<Rightarrow> f m | (m, Some e) \<Rightarrow> g m e) =
      f (fst (create_or_update None None m k fresh mutate))" if "\<And>obj. \<exists>obj'. mutate obj = Inr obj'"
    for m :: "'k \<rightharpoonup> 'o" and k fresh mutate and f :: "('k \<rightharpoonup> 'o) \<Rightarrow> Cluster \<times> string option" and g
    using create_or_update_succeeds [of mutate m k fresh] that by (auto split: prod.splits option.splits)
  show "snd (tn_ensureNamespace deps division environment name c) = None"
    by (simp add: tn_ensureNamespace_def no ok ref)
  show "snd (tn_ensureLimitRange deps division name c) = None"
    by (simp add: tn_ensureLimitRange_def Let_def no ok split: prod.splits) (metis deleted snd_conv)
  show "snd (tn_ensureResourceQuota deps division name c) = None"
    by (simp add: tn_ensureResourceQuota_def Let_def no ok)
  show "snd (tn_ensureDefaultDeny deps name c) = None"
    by (simp add: tn_ensureDefaultDeny_def Let_def no ok)
  show "snd (ensureGlobalQuota deps division c) = None"
    by (auto simp: ensureGlobalQuota_def Let_def no kube_get_def split: option.splits)
  show "snd (dropNamespaceQuotas deps names c) = None"
  proof (induction names arbitrary: c)
    case (Cons n names)
    then show ?case
      using deleted [of "ResourceQuotas c" "(n, ResourceQuotaName)" ResourceQuotaName]
      by (auto simp: Let_def no split: prod.splits option.splits)
  qed simp
qed

lemma bind_grants_succeeds: "nothing_fails deps \<Longrightarrow> \<exists>c' w. bind_grants deps division name grants wanted c = (c', Inr w)"
proof (induction grants arbitrary: wanted c)
  case (Cons g grants)
  show ?case
  proof (cases "clusterRoleForRole (grant_Role g)")
    case (Some role)
    let ?k = "(name, roleBindingName (grant_Role g))"
    obtain m where "create_or_update None None (RoleBindings c) ?k fresh_binding (\<lambda>b. Inr (bound division role (grant_Group g) b)) = (m, None)"
      using create_or_update_succeeds [of "\<lambda>b. Inr (bound division role (grant_Group g) b)" "RoleBindings c" ?k fresh_binding]
      by (metis prod.collapse)
    with Cons Some show ?thesis
      by (simp add: Let_def nothing_fails_def)
  qed (use Cons in simp)
qed simp

lemma prune_each_succeeds: "nothing_fails deps \<Longrightarrow> snd (prune_each deps name wanted names c) = None"
  by (induction names arbitrary: c) (auto simp: nothing_fails_def dest: kube_delete_no_fault split: prod.splits option.splits)

lemma tn_ensureRoleBindings_succeeds: "nothing_fails deps \<Longrightarrow> snd (tn_ensureRoleBindings deps division name c) = None"
proof -
  assume deps: "nothing_fails deps"
  from bind_grants_succeeds [OF deps] obtain c' w where "bind_grants deps division name (Access (dv_Spec division)) [] c = (c', Inr w)"
    by blast
  with prune_each_succeeds [OF deps] deps show ?thesis
    by (simp add: tn_ensureRoleBindings_def pruneRoleBindings_def nothing_fails_def)
qed

lemma tn_environments_succeed:
  assumes "nothing_fails deps"
  shows "all_ready p \<Longrightarrow> all_ready (tn_environments deps now division environments p)"
proof (induction environments arbitrary: p)
  case (Cons e es)
  have "all_ready (furnish deps now division name q) = all_ready q" for name q
    using operations_succeed [OF assms] tn_ensureRoleBindings_succeeds [OF assms] by (simp add: furnish_def Let_def)
  then have "all_ready (tn_environment deps now division e p)"
    using Cons.prems operations_succeed(1) [OF assms, of division e "NamespaceFor division e" "pg_cluster p"]
    by (auto simp: tn_environment_def Let_def all_ready_def split: prod.splits option.splits)
  with Cons.IH show ?case
    by (simp add: tn_environments_def)
qed (simp add: tn_environments_def)

text \<open>
  C6. When no call fails, one reconcile makes a division active, unless it is being deleted or is
  suspended: it returns without an error and the status of the division, written or already
  there, has the phase active.
\<close>
theorem division_becomes_active:
  assumes "nothing_fails deps" and "om_DeletionTimestamp (dv_Meta division) = None" and "\<not> Suspended (dv_Spec division)"
    and "division_Reconcile deps now (Inr division) c = (c', written, err)"
  shows "err = None \<and> dv_Phase (case written of None \<Rightarrow> dv_Status division | Some status \<Rightarrow> status) = DivisionActive"
proof -
  have globally: "all_ready (across_namespaces deps now division p) = all_ready p" for p
  proof -
    obtain c1 where "ensureGlobalQuota deps division (pg_cluster p) = (c1, None)"
      using operations_succeed(5) [OF assms(1)] by (metis prod.collapse)
    then show ?thesis
      using operations_succeed(6) [OF assms(1)] by (simp add: across_namespaces_def)
  qed
  have "all_ready (start_progress deps division c)"
    by (simp add: all_ready_def start_progress_def)
  then have "all_ready (run_division deps now division c)"
    using tn_environments_succeed [OF assms(1)] globally by (simp add: run_division_def)
  then have phase: "dv_Phase (conclude deps now division (run_division deps now division c)) = DivisionActive"
    by (simp add: conclude_simps)
  have "tn_update_fault deps status = None" for status
    using assms(1) by (simp add: nothing_fails_def)
  with assms(2-4) phase show ?thesis
    by (auto simp: division_Reconcile_def Let_def dv_writeStatus_def equalStatus_def split: if_splits)
qed


section \<open>Examples\<close>

definition example_tenancy :: TenancyDeps where
  "example_tenancy = \<lparr>tn_faults = no_faults, tn_update_fault = (\<lambda>_. None), tn_set_ref = (\<lambda>_ ns. Inr ns),
     tn_listing = (\<lambda>c n. filter (\<lambda>name. RoleBindings c (n, name) \<noteq> None) [''govern-viewer'', ''govern-operator'', ''govern-admin'']),
     tn_new_quantity = (\<lambda>n. zero_quantity\<lparr>Value := n\<rparr>), tn_show_quantity = (\<lambda>q. show_int (Value q)),
     tn_parse_quantity = (\<lambda>_. None), tn_capsule = False\<rparr>"

definition tenant :: "Grant list \<Rightarrow> Division" where
  "tenant access =
     \<lparr>dv_Meta = \<lparr>om_Name = ''team'', om_Namespace = [], om_UID = ''v1'', om_Generation = 1,
        om_CreationTimestamp = 5, om_DeletionTimestamp = None\<rparr>,
      dv_Spec = \<lparr>DisplayName = ''Team'', Environments = [''dev''], dv_Quota = zero_quota,
        dv_Limits = \<lparr>DefaultRequestCPU = zero_quantity, DefaultRequestMemory = zero_quantity,
          MaxCPUPerPod = zero_quantity, MaxMemoryPerPod = zero_quantity\<rparr>,
        Access = access, DefaultDeny = None, Suspended = False\<rparr>,
      dv_Status = \<lparr>dv_Phase = NoDivisionPhase, dv_Namespaces = [], QuotaBackend = [],
        dv_ObservedGeneration = 0, dv_Conditions = []\<rparr>\<rparr>"

definition viewer :: "string \<Rightarrow> Grant" where
  "viewer g = \<lparr>grant_Role = RoleViewer, grant_Group = g\<rparr>"


definition two_readers :: Cluster where
  "two_readers = empty_cluster\<lparr>RoleBindings := [(''team-dev'', ''govern-viewer'') \<mapsto>
     fresh_binding\<lparr>rb_Subjects := [group_subject ''left'', group_subject ''stays'']\<rparr>]\<rparr>"

theorem removed_group_keeps_its_access_witness:
  "lists (RoleBindings (fst (division_Reconcile example_tenancy 9 (Inr (tenant [viewer ''stays''])) two_readers)))
     (''team-dev'', ''govern-viewer'') (group_subject ''left'')"
proof -
  have "lists (RoleBindings two_readers) (''team-dev'', roleBindingName RoleViewer) (group_subject ''left'')"
    by (simp add: lists_def two_readers_def roleBindingName_def)
  then have "lists (RoleBindings (fst (division_Reconcile example_tenancy 9 (Inr (tenant [viewer ''stays''])) two_readers)))
     (''team-dev'', roleBindingName RoleViewer) (group_subject ''left'')"
    by (rule removed_group_keeps_its_access) (simp_all add: tenant_def viewer_def)
  then show ?thesis
    by (simp add: roleBindingName_def)
qed

theorem division_becomes_active_witness:
  "\<exists>c' written err. division_Reconcile example_tenancy 9 (Inr (tenant [viewer ''readers''])) empty_cluster = (c', written, err) \<and>
     err = None \<and> dv_Phase (the written) = DivisionActive"
proof -
  obtain c' written err where run:
    "division_Reconcile example_tenancy 9 (Inr (tenant [viewer ''readers''])) empty_cluster = (c', written, err)"
    by (metis prod_cases3)
  have "nothing_fails example_tenancy" "om_DeletionTimestamp (dv_Meta (tenant [viewer ''readers''])) = None"
      "\<not> Suspended (dv_Spec (tenant [viewer ''readers'']))"
    by (simp_all add: nothing_fails_def example_tenancy_def no_faults_def tenant_def)
  from division_becomes_active [OF this run] run show ?thesis
    by (cases written) (auto simp: tenant_def)
qed


theorem active_division_is_provisioned_witness:
  "\<exists>c' status. division_Reconcile example_tenancy 9 (Inr (tenant [viewer ''readers''])) empty_cluster = (c', Some status, None) \<and>
     dv_Phase status = DivisionActive \<and>
     furnished [''govern-viewer'', ''govern-operator'', ''govern-admin''] example_tenancy (tenant [viewer ''readers'']) ''dev'' c'"
proof -
  let ?d = "tenant [viewer ''readers'']"
  have "map_option dv_Phase (fst (snd (division_Reconcile example_tenancy 9 (Inr ?d) empty_cluster))) = Some DivisionActive"
    "snd (snd (division_Reconcile example_tenancy 9 (Inr ?d) empty_cluster)) = None"
    by code_simp+
  then obtain c' status where run: "division_Reconcile example_tenancy 9 (Inr ?d) empty_cluster = (c', Some status, None)"
    "dv_Phase status = DivisionActive"
    by (cases "division_Reconcile example_tenancy 9 (Inr ?d) empty_cluster") auto
  have "tenancy_laws example_tenancy [''govern-viewer'', ''govern-operator'', ''govern-admin'']"
    by (simp add: tenancy_laws_def example_tenancy_def no_faults_def)
  from active_division_is_provisioned [OF this run] run show ?thesis
    by (simp add: tenant_def)
qed

end
