(* ===== verification/Workloads.thy ===== *)
theory Workloads
  imports GovernApi KubeObjects
begin

text \<open>
  Workloads, internal/kube/workload.go and watcher.go: what a deployment, a stateful set or a daemon
  set is read as, its health, and the events the watcher emits for what its informers report. The
  informers and the channel are not modelled: a notice is handled by the registration of its kind.
\<close>

datatype Health = HealthHealthy | HealthProgressing | HealthDegraded | HealthUnknown

fun health_text :: "Health \<Rightarrow> string" where
  "health_text HealthHealthy = ''healthy''"
| "health_text HealthProgressing = ''progressing''"
| "health_text HealthDegraded = ''degraded''"
| "health_text HealthUnknown = ''unknown''"

text \<open>The objects of the apps/v1 group, as far as a workload is read from them.\<close>

record KContainer =
  kc_Name :: string
  kc_Image :: string
  kc_RequestCPU :: "Quantity option"
  kc_LimitCPU :: "Quantity option"
  kc_RequestMemory :: "Quantity option"
  kc_LimitMemory :: "Quantity option"

record KWorkloadMeta =
  km_UID :: string
  km_Namespace :: string
  km_Name :: string
  km_Labels :: "string \<rightharpoonup> string"
  km_Generation :: int
  km_CreationTimestamp :: time
  km_ResourceVersion :: string

record KDeployment =
  kd_Meta :: KWorkloadMeta
  kd_Replicas :: "int option"
  kd_Containers :: "KContainer list"
  kd_ReadyReplicas :: int
  kd_ObservedGeneration :: int
  kd_Conditions :: "(string \<times> string \<times> string) list"

record KStatefulSet =
  ks_Meta :: KWorkloadMeta
  ks_Replicas :: "int option"
  ks_Containers :: "KContainer list"
  ks_ReadyReplicas :: int
  ks_ObservedGeneration :: int

record KDaemonSet =
  ke_Meta :: KWorkloadMeta
  ke_Containers :: "KContainer list"
  ke_DesiredNumberScheduled :: int
  ke_NumberReady :: int
  ke_ObservedGeneration :: int

section \<open>A workload\<close>

record Container =
  cn_Name :: string
  cn_Image :: string
  CPURequestMillicores :: int
  CPULimitMillicores :: int
  MemoryRequestBytes :: int
  MemoryLimitBytes :: int

record Workload =
  wk_UID :: string
  wk_Namespace :: string
  wk_Name :: string
  wk_Kind :: string
  wk_APIVersion :: string
  wk_Division :: string
  wk_ReplicasDesired :: int
  wk_ReplicasReady :: int
  wk_Health :: Health
  wk_Containers :: "Container list"
  wk_CreatedAt :: time
  wk_ResourceVersion :: string

definition PrimaryImage :: "Workload \<Rightarrow> string" where
  "PrimaryImage w = (case wk_Containers w of [] \<Rightarrow> [] | c # _ \<Rightarrow> cn_Image c)"

definition label_at :: "(string \<rightharpoonup> string) \<Rightarrow> string \<Rightarrow> string" where
  "label_at labels key = (case labels key of None \<Rightarrow> [] | Some v \<Rightarrow> v)"

definition divisionOf :: "KWorkloadMeta \<Rightarrow> string" where
  "divisionOf m = (let division = label_at (km_Labels m) ''govern.marstack.io/division''
     in if division \<noteq> [] then division else label_at (km_Labels m) ''capsule.clastix.io/tenant'')"

definition containersOf :: "KContainer list \<Rightarrow> Container list" where
  "containersOf = map (\<lambda>c. \<lparr>cn_Name = kc_Name c, cn_Image = kc_Image c,
     CPURequestMillicores = MilliValue (quantity_or_zero (kc_RequestCPU c)),
     CPULimitMillicores = MilliValue (quantity_or_zero (kc_LimitCPU c)),
     MemoryRequestBytes = Value (quantity_or_zero (kc_RequestMemory c)),
     MemoryLimitBytes = Value (quantity_or_zero (kc_LimitMemory c))\<rparr>)"

definition replicaHealth :: "int \<Rightarrow> int \<Rightarrow> int \<Rightarrow> int \<Rightarrow> Health" where
  "replicaHealth ready desired observedGeneration generation =
     (if observedGeneration < generation then HealthProgressing
      else if desired = 0 then HealthHealthy
      else if ready = desired then HealthHealthy
      else if ready = 0 then HealthDegraded
      else HealthProgressing)"

fun failing_condition :: "(string \<times> string \<times> string) list \<Rightarrow> bool" where
  "failing_condition [] = False"
| "failing_condition ((t, status, reason) # cs) =
     (if t = ''Progressing'' \<and> status = ''False'' \<and> reason = ''ProgressDeadlineExceeded'' then True
      else if t = ''ReplicaFailure'' \<and> status = ''True'' then True
      else failing_condition cs)"

definition deploymentHealth :: "KDeployment \<Rightarrow> int \<Rightarrow> Health" where
  "deploymentHealth d desired =
     (if failing_condition (kd_Conditions d) then HealthDegraded
      else replicaHealth (kd_ReadyReplicas d) desired (kd_ObservedGeneration d) (km_Generation (kd_Meta d)))"

definition workload_of :: "KWorkloadMeta \<Rightarrow> string \<Rightarrow> int \<Rightarrow> int \<Rightarrow> Health \<Rightarrow> KContainer list \<Rightarrow> Workload" where
  "workload_of m kind desired ready_replicas health containers =
     \<lparr>wk_UID = km_UID m, wk_Namespace = km_Namespace m, wk_Name = km_Name m, wk_Kind = kind, wk_APIVersion = ''apps/v1'',
      wk_Division = divisionOf m, wk_ReplicasDesired = desired, wk_ReplicasReady = ready_replicas, wk_Health = health,
      wk_Containers = containersOf containers, wk_CreatedAt = km_CreationTimestamp m, wk_ResourceVersion = km_ResourceVersion m\<rparr>"

definition WorkloadFromDeployment :: "KDeployment \<Rightarrow> Workload" where
  "WorkloadFromDeployment d =
     (let desired = (case kd_Replicas d of None \<Rightarrow> 1 | Some n \<Rightarrow> n)
      in workload_of (kd_Meta d) ''Deployment'' desired (kd_ReadyReplicas d) (deploymentHealth d desired) (kd_Containers d))"

definition WorkloadFromStatefulSet :: "KStatefulSet \<Rightarrow> Workload" where
  "WorkloadFromStatefulSet s =
     (let desired = (case ks_Replicas s of None \<Rightarrow> 1 | Some n \<Rightarrow> n)
      in workload_of (ks_Meta s) ''StatefulSet'' desired (ks_ReadyReplicas s)
           (replicaHealth (ks_ReadyReplicas s) desired (ks_ObservedGeneration s) (km_Generation (ks_Meta s))) (ks_Containers s))"

definition WorkloadFromDaemonSet :: "KDaemonSet \<Rightarrow> Workload" where
  "WorkloadFromDaemonSet d =
     (let desired = ke_DesiredNumberScheduled d
      in workload_of (ke_Meta d) ''DaemonSet'' desired (ke_NumberReady d)
           (replicaHealth (ke_NumberReady d) desired (ke_ObservedGeneration d) (km_Generation (ke_Meta d))) (ke_Containers d))"

section \<open>Events of the watcher\<close>

datatype EventType = EventAdded | EventUpdated | EventRemoved

record WorkloadEvent =
  we_Type :: EventType
  we_Workload :: Workload
  we_At :: time

text \<open>
  What an informer hands to its handlers: an object of one of the watched kinds, a tombstone of a
  deleted one, or something else.
\<close>

datatype Object = Deployment KDeployment | StatefulSet KStatefulSet | DaemonSet KDaemonSet | OtherObject

datatype Notice = Added Object | Changed Object | Deleted Object | DeletedFinalStateUnknown Object

fun convertDeployment :: "Object \<Rightarrow> Workload option" where
  "convertDeployment (Deployment d) = Some (WorkloadFromDeployment d)"
| "convertDeployment _ = None"

fun convertStatefulSet :: "Object \<Rightarrow> Workload option" where
  "convertStatefulSet (StatefulSet s) = Some (WorkloadFromStatefulSet s)"
| "convertStatefulSet _ = None"

fun convertDaemonSet :: "Object \<Rightarrow> Workload option" where
  "convertDaemonSet (DaemonSet d) = Some (WorkloadFromDaemonSet d)"
| "convertDaemonSet _ = None"

definition emit :: "time \<Rightarrow> EventType \<Rightarrow> (Object \<Rightarrow> Workload option) \<Rightarrow> Object \<Rightarrow> WorkloadEvent list" where
  "emit now eventType convert obj =
     (case convert obj of
        None \<Rightarrow> [] | Some w \<Rightarrow> [\<lparr>we_Type = eventType, we_Workload = w, we_At = now\<rparr>])"

fun handle_notice :: "time \<Rightarrow> (Object \<Rightarrow> Workload option) \<Rightarrow> Notice \<Rightarrow> WorkloadEvent list" where
  "handle_notice now convert (Added obj) = emit now EventAdded convert obj"
| "handle_notice now convert (Changed obj) = emit now EventUpdated convert obj"
| "handle_notice now convert (Deleted obj) = emit now EventRemoved convert obj"
| "handle_notice now convert (DeletedFinalStateUnknown obj) = emit now EventRemoved convert obj"

section \<open>What the health says\<close>

text \<open>
  The health of a deployment: healthy when its last generation was observed and exactly the
  wanted replicas are ready, or none are wanted; degraded when a condition reports a failed rollout
  or replica, or nothing is ready although something is wanted; otherwise progressing.
\<close>
theorem deployment_health_is_decided_in_order:
  "let desired = (case kd_Replicas d of None \<Rightarrow> 1 | Some n \<Rightarrow> n);
       failing = list_ex (\<lambda>(t, status, reason). t = ''Progressing'' \<and> status = ''False'' \<and> reason = ''ProgressDeadlineExceeded'' \<or>
                                       t = ''ReplicaFailure'' \<and> status = ''True'') (kd_Conditions d);
       observed = (km_Generation (kd_Meta d) \<le> kd_ObservedGeneration d); health = wk_Health (WorkloadFromDeployment d) in
   (health = HealthHealthy) = (\<not> failing \<and> observed \<and> (desired = 0 \<or> kd_ReadyReplicas d = desired)) \<and>
   (health = HealthDegraded) = (failing \<or> observed \<and> desired \<noteq> 0 \<and> kd_ReadyReplicas d = 0) \<and>
   health \<noteq> HealthUnknown"
proof -
  have "failing_condition cs = list_ex (\<lambda>(t, status, reason). t = ''Progressing'' \<and> status = ''False'' \<and> reason = ''ProgressDeadlineExceeded'' \<or>
                                       t = ''ReplicaFailure'' \<and> status = ''True'') cs" for cs
    by (induction cs rule: failing_condition.induct) auto
  then show ?thesis
    by (auto simp: Let_def WorkloadFromDeployment_def workload_of_def deploymentHealth_def replicaHealth_def)
qed

end
