(* ===== verification/Catalog.thy ===== *)
theory Catalog
  imports Workloads GoStrings RequestStore Lease "HOL-Library.Product_Lexorder" "HOL-Library.List_Lexorder" "HOL-Library.Char_ord"
begin

text \<open>
The catalogue of workloads: internal/catalog/store.go (the tables workloads, workload_containers and
  projection_sources with their keys, every statement of the store) and internal/catalog/projector.go.
  A transaction that fails leaves the tables as they were. Text is ordered by a parameter, the
  collation of the database, an injection into a linear order; the projector compares versions byte
  by byte, as Go does. The text of a constraint violation is the argument \<^verbatim>\<open>duplicate\<close>; sums of
  requests are taken to fit 64 bits, and ILIKE folds the case of ASCII letters. Columns the program
  never reads or writes are left out. The locale \<^verbatim>\<open>workload_table\<close> is what readers of the catalogue
  rely on.
\<close>

section \<open>The tables\<close>

record WorkloadRow =
  wr_uid :: string
  wr_division_name :: "string option"
  wr_namespace :: string
  wr_name :: string
  wr_kind :: string
  wr_api_version :: string
  wr_image_ref :: "string option"
  wr_replicas_desired :: "int option"
  wr_replicas_ready :: "int option"
  wr_health :: string
  wr_created_at :: time
  wr_resource_version :: string
  wr_observed_at :: time

record ContainerRow =
  cr_workload_uid :: string
  cr_container :: string
  cr_cpu_request_millicores :: int
  cr_cpu_limit_millicores :: int
  cr_memory_request_bytes :: int
  cr_memory_limit_bytes :: int
  cr_observed_at :: time

record SourceRow =
  ps_source :: string
  ps_cursor :: "string option"
  ps_last_event_at :: "time option"
  ps_last_synced_at :: time
  ps_healthy :: bool
  ps_last_error :: "string option"

record CatalogDB =
  cat_workloads :: "WorkloadRow list"
  cat_containers :: "ContainerRow list"
  cat_sources :: "SourceRow list"

definition SourceKubernetes :: string where "SourceKubernetes = ''kubernetes''"

definition nullif :: "string \<Rightarrow> string option" where
  "nullif s = (if s = [] then None else Some s)"

definition row_place :: "WorkloadRow \<Rightarrow> string \<times> string \<times> string" where
  "row_place r = (wr_namespace r, wr_kind r, wr_name r)"

definition place_of :: "Workload \<Rightarrow> string \<times> string \<times> string" where
  "place_of w = (wk_Namespace w, wk_Kind w, wk_Name w)"

section \<open>Writing workloads\<close>

definition row_of :: "time \<Rightarrow> Workload \<Rightarrow> WorkloadRow" where
  "row_of now w =
     \<lparr>wr_uid = wk_UID w, wr_division_name = nullif (wk_Division w), wr_namespace = wk_Namespace w, wr_name = wk_Name w,
      wr_kind = wk_Kind w, wr_api_version = wk_APIVersion w, wr_image_ref = nullif (PrimaryImage w),
      wr_replicas_desired = Some (wk_ReplicasDesired w), wr_replicas_ready = Some (wk_ReplicasReady w),
      wr_health = health_text (wk_Health w), wr_created_at = wk_CreatedAt w,
      wr_resource_version = wk_ResourceVersion w, wr_observed_at = now\<rparr>"

text \<open>DELETE FROM workloads; the containers follow their workload.\<close>

definition delete_workloads :: "(WorkloadRow \<Rightarrow> bool) \<Rightarrow> CatalogDB \<Rightarrow> CatalogDB" where
  "delete_workloads gone db =
     (let uids = map wr_uid (filter gone (cat_workloads db))
      in db\<lparr>cat_workloads := filter (\<lambda>r. \<not> gone r) (cat_workloads db),
            cat_containers := filter (\<lambda>c. cr_workload_uid c \<notin> set uids) (cat_containers db)\<rparr>)"

text \<open>INSERT with ON CONFLICT (uid) DO UPDATE, which keeps the time of creation.\<close>

definition upsert_row :: "WorkloadRow \<Rightarrow> WorkloadRow list \<Rightarrow> WorkloadRow list" where
  "upsert_row new rows =
     (if wr_uid new \<in> set (map wr_uid rows)
      then map (\<lambda>r. if wr_uid r = wr_uid new then new\<lparr>wr_created_at := wr_created_at r\<rparr> else r) rows
      else rows @ [new])"

definition container_row :: "time \<Rightarrow> string \<Rightarrow> Container \<Rightarrow> ContainerRow" where
  "container_row now uid c =
     \<lparr>cr_workload_uid = uid, cr_container = cn_Name c,
      cr_cpu_request_millicores = CPURequestMillicores c, cr_cpu_limit_millicores = CPULimitMillicores c,
      cr_memory_request_bytes = MemoryRequestBytes c, cr_memory_limit_bytes = MemoryLimitBytes c, cr_observed_at = now\<rparr>"

fun insert_containers :: "string \<Rightarrow> time \<Rightarrow> string \<Rightarrow> Container list \<Rightarrow> ContainerRow list \<Rightarrow> string + ContainerRow list" where
  "insert_containers duplicate now uid [] rows = Inr rows"
| "insert_containers duplicate now uid (c # cs) rows =
     (if list_ex (\<lambda>r. cr_workload_uid r = uid \<and> cr_container r = cn_Name c) rows
      then Inl (''insert container '' @ cn_Name c @ '' of '' @ uid @ '': '' @ duplicate)
      else insert_containers duplicate now uid cs
             (rows @ [container_row now uid c]))"

definition UpsertWorkload :: "string \<Rightarrow> time \<Rightarrow> CatalogDB \<Rightarrow> Workload \<Rightarrow> string + CatalogDB" where
  "UpsertWorkload duplicate now db w =
     (let db = delete_workloads (\<lambda>r. row_place r = place_of w \<and> wr_uid r \<noteq> wk_UID w) db;
          db = db\<lparr>cat_workloads := upsert_row (row_of now w) (cat_workloads db)\<rparr>;
          db = db\<lparr>cat_containers := filter (\<lambda>c. cr_workload_uid c \<noteq> wk_UID w) (cat_containers db)\<rparr>
      in case insert_containers duplicate now (wk_UID w) (wk_Containers w) (cat_containers db) of
           Inl err \<Rightarrow> Inl err
         | Inr rows \<Rightarrow> Inr (db\<lparr>cat_containers := rows\<rparr>))"

definition DeleteWorkload :: "CatalogDB \<Rightarrow> string \<Rightarrow> CatalogDB" where
  "DeleteWorkload db uid = delete_workloads (\<lambda>r. wr_uid r = uid) db"

section \<open>Reading workloads\<close>

record StoredWorkload =
  sw_UID :: string
  sw_Division :: string
  sw_Namespace :: string
  sw_Name :: string
  sw_Kind :: string
  sw_ImageRef :: string
  sw_ReplicasDesired :: int
  sw_ReplicasReady :: int
  sw_Health :: string
  sw_CPURequest :: int
  sw_MemoryRequest :: int
  sw_CreatedAt :: time
  sw_ResourceVersion :: string
  sw_ObservedAt :: time

definition coalesce :: "'a \<Rightarrow> 'a option \<Rightarrow> 'a" where
  "coalesce d v = (case v of None \<Rightarrow> d | Some x \<Rightarrow> x)"

definition sum_of :: "(ContainerRow \<Rightarrow> int) \<Rightarrow> CatalogDB \<Rightarrow> string \<Rightarrow> int" where
  "sum_of column db uid = sum_list (map column (filter (\<lambda>c. cr_workload_uid c = uid) (cat_containers db)))"

definition select_workload :: "CatalogDB \<Rightarrow> WorkloadRow \<Rightarrow> StoredWorkload" where
  "select_workload db r =
     \<lparr>sw_UID = wr_uid r, sw_Division = coalesce [] (wr_division_name r), sw_Namespace = wr_namespace r,
      sw_Name = wr_name r, sw_Kind = wr_kind r, sw_ImageRef = coalesce [] (wr_image_ref r),
      sw_ReplicasDesired = coalesce 0 (wr_replicas_desired r), sw_ReplicasReady = coalesce 0 (wr_replicas_ready r),
      sw_Health = wr_health r, sw_CPURequest = sum_of cr_cpu_request_millicores db (wr_uid r),
      sw_MemoryRequest = sum_of cr_memory_request_bytes db (wr_uid r), sw_CreatedAt = wr_created_at r,
      sw_ResourceVersion = wr_resource_version r, sw_ObservedAt = wr_observed_at r\<rparr>"

definition GetWorkload :: "CatalogDB \<Rightarrow> string \<Rightarrow> StoredWorkload option" where
  "GetWorkload db uid =
     (case map (select_workload db) (filter (\<lambda>r. wr_uid r = uid) (cat_workloads db)) of
        [] \<Rightarrow> None | w # _ \<Rightarrow> Some w)"

record CatalogFilter =
  fi_Division :: string
  fi_Namespace :: string
  fi_Namespaces :: "string list option"
  fi_Health :: string
  fi_Search :: string
  fi_Limit :: int
  fi_Cursor :: string

text \<open>LIKE of SQL: \<^verbatim>\<open>%\<close> any text, \<^verbatim>\<open>_\<close> one character, a backslash takes the next one literally.\<close>

function like :: "string \<Rightarrow> string \<Rightarrow> bool" where
  "like s [] = (s = [])"
| "like s (p # ps) =
     (if p = CHR ''%'' then like s ps \<or> (case s of [] \<Rightarrow> False | _ # s' \<Rightarrow> like s' (p # ps))
      else case s of
        [] \<Rightarrow> False
      | x # s' \<Rightarrow>
          if p = CHR ''_'' then like s' ps
          else if p = CHR 0x5C then (case ps of [] \<Rightarrow> False | q # qs \<Rightarrow> x = q \<and> like s' qs)
          else x = p \<and> like s' ps)"
  by pat_completeness auto
termination by (relation "measure (\<lambda>(s, p). length s + length p)") auto

definition name_like :: "string \<Rightarrow> string \<Rightarrow> bool" where
  "name_like name search = like (to_lower name) (''%'' @ to_lower search @ ''%'')"

definition encodeCursor :: "string \<Rightarrow> string \<Rightarrow> string \<Rightarrow> string" where
  "encodeCursor namespace kind name = b64_encode (namespace @ [CHR 0x00] @ kind @ [CHR 0x00] @ name)"

datatype CursorError = IllegalBase64 | MalformedPageToken

definition decodeCursor :: "string \<Rightarrow> CursorError + string \<times> string \<times> string" where
  "decodeCursor cursor =
     (case b64_decode cursor of
        None \<Rightarrow> Inl IllegalBase64
      | Some raw \<Rightarrow> (case split_on (CHR 0x00) raw of [a, b, c] \<Rightarrow> Inr (a, b, c) | _ \<Rightarrow> Inl MalformedPageToken))"

definition place_rank :: "(string \<Rightarrow> 'o :: linorder) \<Rightarrow> string \<times> string \<times> string \<Rightarrow> 'o \<times> 'o \<times> 'o" where
  "place_rank rank p = (case p of (a, b, c) \<Rightarrow> (rank a, rank b, rank c))"

definition matches_filter :: "CatalogFilter \<Rightarrow> WorkloadRow \<Rightarrow> bool" where
  "matches_filter f r \<longleftrightarrow>
     (fi_Division f \<noteq> [] \<longrightarrow> wr_division_name r = Some (fi_Division f)) \<and>
     (fi_Namespace f \<noteq> [] \<longrightarrow> wr_namespace r = fi_Namespace f) \<and>
     (case fi_Namespaces f of None \<Rightarrow> True | Some ns \<Rightarrow> wr_namespace r \<in> set ns) \<and>
     (fi_Health f \<noteq> [] \<longrightarrow> wr_health r = fi_Health f) \<and>
     (fi_Search f \<noteq> [] \<longrightarrow> name_like (wr_name r) (fi_Search f))"

definition page_limit :: "int \<Rightarrow> nat" where
  "page_limit limit = (if limit \<le> 0 \<or> limit > 500 then 100 else nat limit)"

definition after_cursor :: "(string \<Rightarrow> 'o :: linorder) \<Rightarrow> CatalogFilter \<Rightarrow> CursorError + (WorkloadRow \<Rightarrow> bool)" where
  "after_cursor rank f =
     (if fi_Cursor f = [] then Inr (\<lambda>r. True)
      else case decodeCursor (fi_Cursor f) of
             Inl err \<Rightarrow> Inl err
           | Inr p \<Rightarrow> Inr (\<lambda>r. place_rank rank (row_place r) > place_rank rank p))"

definition ListWorkloads ::
  "(string \<Rightarrow> 'o :: linorder) \<Rightarrow> CatalogDB \<Rightarrow> CatalogFilter \<Rightarrow> CursorError + StoredWorkload list \<times> string" where
  "ListWorkloads rank db f =
     (let limit = page_limit (fi_Limit f)
      in case after_cursor rank f of
           Inl err \<Rightarrow> Inl err
         | Inr after \<Rightarrow>
             let rows = sort_key (\<lambda>r. place_rank rank (row_place r))
                          (filter (\<lambda>r. matches_filter f r \<and> after r) (cat_workloads db));
                 workloads = map (select_workload db) (take (limit + 1) rows)
             in if limit < length workloads
                then let last = workloads ! (limit - 1)
                     in Inr (take limit workloads, encodeCursor (sw_Namespace last) (sw_Kind last) (sw_Name last))
                else Inr (workloads, []))"

record WorkloadRequests =
  wq_UID :: string
  wq_Namespace :: string
  wq_Name :: string
  wq_CPUMillicores :: int
  wq_MemoryBytes :: int

definition RequestedByWorkload ::
  "(string \<Rightarrow> 'o :: linorder) \<Rightarrow> CatalogDB \<Rightarrow> string list option \<Rightarrow> WorkloadRequests list" where
  "RequestedByWorkload rank db namespaces =
     map (\<lambda>r. \<lparr>wq_UID = wr_uid r, wq_Namespace = wr_namespace r, wq_Name = wr_name r,
                wq_CPUMillicores = sum_of cr_cpu_request_millicores db (wr_uid r) * max (coalesce 1 (wr_replicas_desired r)) 1,
                wq_MemoryBytes = sum_of cr_memory_request_bytes db (wr_uid r) * max (coalesce 1 (wr_replicas_desired r)) 1\<rparr>)
       (sort_key (\<lambda>r. (rank (wr_namespace r), rank (wr_name r)))
         (filter (\<lambda>r. case namespaces of None \<Rightarrow> True | Some ns \<Rightarrow> wr_namespace r \<in> set ns) (cat_workloads db)))"

section \<open>How fresh the projection is\<close>

definition upsert_source :: "string \<Rightarrow> SourceRow \<Rightarrow> (SourceRow \<Rightarrow> SourceRow) \<Rightarrow> CatalogDB \<Rightarrow> CatalogDB" where
  "upsert_source source new update db =
     db\<lparr>cat_sources :=
        (if source \<in> set (map ps_source (cat_sources db))
         then map (\<lambda>r. if ps_source r = source then update r else r) (cat_sources db)
         else cat_sources db @ [new])\<rparr>"

definition MarkSourceHealthy :: "time \<Rightarrow> CatalogDB \<Rightarrow> string \<Rightarrow> string \<Rightarrow> time \<Rightarrow> CatalogDB" where
  "MarkSourceHealthy now db source cursor eventAt =
     upsert_source source
       \<lparr>ps_source = source, ps_cursor = nullif cursor, ps_last_event_at = Some eventAt, ps_last_synced_at = now,
        ps_healthy = True, ps_last_error = None\<rparr>
       (\<lambda>r. r\<lparr>ps_cursor := (if nullif cursor = None then ps_cursor r else nullif cursor), ps_last_event_at := Some eventAt,
          ps_last_synced_at := now, ps_healthy := True, ps_last_error := None\<rparr>) db"

definition MarkSourceDegraded :: "time \<Rightarrow> CatalogDB \<Rightarrow> string \<Rightarrow> string \<Rightarrow> CatalogDB" where
  "MarkSourceDegraded now db source reason =
     upsert_source source
       \<lparr>ps_source = source, ps_cursor = None, ps_last_event_at = None, ps_last_synced_at = now,
        ps_healthy = False, ps_last_error = Some reason\<rparr>
       (\<lambda>r. r\<lparr>ps_healthy := False, ps_last_error := Some reason\<rparr>) db"

record DegradedSource =
  ds_Source :: string
  ds_Reason :: string
  ds_LastHealthyAt :: time

record Freshness =
  fr_ObservedAt :: time
  fr_ResourceVersion :: string
  fr_LagSeconds :: int
  fr_Degraded :: "DegradedSource list"

definition fresh_from :: "time \<Rightarrow> SourceRow \<Rightarrow> Freshness \<Rightarrow> Freshness" where
  "fresh_from now r f =
     (let f = (if ps_source r = SourceKubernetes
               then f\<lparr>fr_ObservedAt := ps_last_synced_at r, fr_LagSeconds := time_sub now (ps_last_synced_at r) sdiv second,
                      fr_ResourceVersion := coalesce (fr_ResourceVersion f) (ps_cursor r)\<rparr> else f)
      in if \<not> ps_healthy r
         then f\<lparr>fr_Degraded := fr_Degraded f @ [\<lparr>ds_Source = ps_source r, ds_Reason = coalesce [] (ps_last_error r),
                                               ds_LastHealthyAt = ps_last_synced_at r\<rparr>]\<rparr>
         else f)"

definition Freshness_of :: "time \<Rightarrow> CatalogDB \<Rightarrow> Freshness" where
  "Freshness_of now db =
     fold (fresh_from now) (cat_sources db) \<lparr>fr_ObservedAt = 0, fr_ResourceVersion = [], fr_LagSeconds = 0, fr_Degraded = []\<rparr>"

section \<open>The projector\<close>

datatype ProtoHealth = HEALTH_HEALTHY | HEALTH_PROGRESSING | HEALTH_DEGRADED | HEALTH_UNSPECIFIED

definition protoHealth :: "string \<Rightarrow> ProtoHealth" where
  "protoHealth health =
     (if health = health_text HealthHealthy then HEALTH_HEALTHY
      else if health = health_text HealthProgressing then HEALTH_PROGRESSING
      else if health = health_text HealthDegraded then HEALTH_DEGRADED else HEALTH_UNSPECIFIED)"

record PWorkload =
  pw_Uid :: string
  pw_Division :: string
  pw_Namespace :: string
  pw_Name :: string
  pw_Kind :: string
  pw_Health :: ProtoHealth
  pw_ReplicasDesired :: int
  pw_ReplicasReady :: int
  pw_ImageRef :: string
  pw_RequestedCPU :: int
  pw_RequestedMemory :: int
  pw_CreatedAt :: time

definition protoWorkload :: "Workload \<Rightarrow> PWorkload" where
  "protoWorkload w =
     (let (cpu, memory) = fold (\<lambda>c (cpu, memory). (wrap64 (cpu + CPURequestMillicores c), wrap64 (memory + MemoryRequestBytes c)))
            (wk_Containers w) (0, 0)
      in \<lparr>pw_Uid = wk_UID w, pw_Division = wk_Division w, pw_Namespace = wk_Namespace w, pw_Name = wk_Name w,
          pw_Kind = wk_Kind w, pw_Health = protoHealth (health_text (wk_Health w)),
          pw_ReplicasDesired = wk_ReplicasDesired w, pw_ReplicasReady = wk_ReplicasReady w, pw_ImageRef = PrimaryImage w,
          pw_RequestedCPU = cpu, pw_RequestedMemory = memory, pw_CreatedAt = wk_CreatedAt w\<rparr>)"

datatype Change = CHANGE_ADDED | CHANGE_REMOVED | CHANGE_UPDATED

fun changeOf :: "EventType \<Rightarrow> Change" where
  "changeOf EventAdded = CHANGE_ADDED"
| "changeOf EventRemoved = CHANGE_REMOVED"
| "changeOf EventUpdated = CHANGE_UPDATED"

record StreamEvent =
  se_EmittedAt :: time
  se_ResourceVersion :: string
  se_ObservedAt :: time
  se_Change :: Change
  se_Workload :: PWorkload

record Projection =
  pj_db :: CatalogDB
  pj_cursor :: string

text \<open>What the database answers while an event is handled: whether the write fails, and whether a mark can be written.\<close>

record Answers =
  an_write :: "string option"
  an_mark :: bool
  an_duplicate :: string

definition project_event :: "Answers \<Rightarrow> time \<Rightarrow> CatalogDB \<Rightarrow> WorkloadEvent \<Rightarrow> string + CatalogDB" where
  "project_event answers now db event =
     (case an_write answers of
        Some err \<Rightarrow> Inl err
      | None \<Rightarrow>
          (case we_Type event of
             EventRemoved \<Rightarrow> Inr (DeleteWorkload db (wk_UID (we_Workload event)))
           | _ \<Rightarrow> UpsertWorkload (an_duplicate answers) now db (we_Workload event)))"

definition publish :: "time \<Rightarrow> string \<Rightarrow> WorkloadEvent \<Rightarrow> StreamEvent" where
  "publish now cursor event =
     \<lparr>se_EmittedAt = now, se_ResourceVersion = cursor, se_ObservedAt = we_At event,
      se_Change = changeOf (we_Type event), se_Workload = protoWorkload (we_Workload event)\<rparr>"

definition projector_handle :: "bool \<Rightarrow> Answers \<Rightarrow> time \<Rightarrow> Projection \<Rightarrow> WorkloadEvent \<Rightarrow> Projection \<times> StreamEvent list" where
  "projector_handle has_publisher answers now p event =
     (case project_event answers now (pj_db p) event of
        Inl err \<Rightarrow>
          ((if an_mark answers then p\<lparr>pj_db := MarkSourceDegraded now (pj_db p) SourceKubernetes err\<rparr> else p), [])
      | Inr db \<Rightarrow>
          let version = wk_ResourceVersion (we_Workload event);
              cursor = (if version > pj_cursor p then version else pj_cursor p);
              db = (if an_mark answers then MarkSourceHealthy now db SourceKubernetes cursor (we_At event) else db)
          in (\<lparr>pj_db = db, pj_cursor = cursor\<rparr>, if has_publisher then [publish now cursor event] else []))"

fun projector_Run :: "bool \<Rightarrow> (Answers \<times> time \<times> WorkloadEvent) list \<Rightarrow> Projection \<Rightarrow> Projection \<times> StreamEvent list" where
  "projector_Run has_publisher [] p = (p, [])"
| "projector_Run has_publisher ((answers, now, event) # rest) p =
     (let (p, out) = projector_handle has_publisher answers now p event; (p, more_out) = projector_Run has_publisher rest p
      in (p, out @ more_out))"

section \<open>The tables stay consistent\<close>

definition container_key :: "ContainerRow \<Rightarrow> string \<times> string" where
  "container_key c = (cr_workload_uid c, cr_container c)"

definition catalog_ok :: "CatalogDB \<Rightarrow> bool" where
  "catalog_ok db \<longleftrightarrow>
     distinct (map wr_uid (cat_workloads db)) \<and> distinct (map row_place (cat_workloads db)) \<and>
     distinct (map container_key (cat_containers db)) \<and>
     cr_workload_uid ` set (cat_containers db) \<subseteq> wr_uid ` set (cat_workloads db) \<and>
     distinct (map ps_source (cat_sources db))"

lemma container_key_eq: "(u, n) = container_key c \<longleftrightarrow> u = cr_workload_uid c \<and> n = cr_container c"
  by (simp add: container_key_def)

lemma distinct_map_filter: "distinct (map f xs) \<Longrightarrow> distinct (map f (filter P xs))"
  by (induction xs) auto

lemma delete_workloads_ok: "catalog_ok db \<Longrightarrow> catalog_ok (delete_workloads gone db)"
  unfolding catalog_ok_def delete_workloads_def Let_def
  by (simp add: distinct_map_filter) blast

lemma row_place_row_of [simp]: "row_place (row_of now w) = place_of w" "wr_uid (row_of now w) = wk_UID w"
  by (simp_all add: row_of_def row_place_def place_of_def)

lemma row_place_created [simp]: "row_place (r\<lparr>wr_created_at := t\<rparr>) = row_place r"
  by (simp add: row_place_def)

lemma upsert_row_uids:
  "map wr_uid (upsert_row new rows) =
     (if wr_uid new \<in> set (map wr_uid rows) then map wr_uid rows else map wr_uid rows @ [wr_uid new])"
  by (simp add: upsert_row_def)

lemma upsert_row_set: "wr_uid ` set (upsert_row new rows) = insert (wr_uid new) (wr_uid ` set rows)"
proof -
  have "set (map wr_uid (upsert_row new rows)) = insert (wr_uid new) (set (map wr_uid rows))"
    unfolding upsert_row_uids by auto
  then show ?thesis by simp
qed

lemma distinct_map_replace:
  assumes "distinct (map f xs)" and "distinct (map g xs)" and "\<forall>x \<in> set xs. g x \<noteq> a \<longrightarrow> f x \<noteq> b" and "\<forall>x \<in> set xs. g x = a \<longrightarrow> f (h x) = b"
  shows "distinct (map (\<lambda>x. f (if g x = a then h x else x)) xs)"
  using assms
proof (induction xs)
  case (Cons x xs)
  then have "distinct (map (\<lambda>x. f (if g x = a then h x else x)) xs)" by simp
  moreover have "f (if g x = a then h x else x) \<noteq> f (if g y = a then h y else y)" if "y \<in> set xs" for y
  proof -
    have "g x \<noteq> g y" "f x \<noteq> f y" using Cons.prems that by (auto simp: image_iff)
    then show ?thesis using Cons.prems that by (cases "g x = a"; cases "g y = a"; auto)
  qed
  ultimately show ?case by (simp add: image_iff)
qed simp

lemma upsert_row_places:
  assumes "distinct (map wr_uid rows)" and "distinct (map row_place rows)"
    and "\<forall>r \<in> set rows. wr_uid r \<noteq> wr_uid new \<longrightarrow> row_place r \<noteq> row_place new"
  shows "distinct (map row_place (upsert_row new rows))"
proof (cases "wr_uid new \<in> set (map wr_uid rows)")
  case True
  have "distinct (map (\<lambda>r. row_place (if wr_uid r = wr_uid new then new\<lparr>wr_created_at := wr_created_at r\<rparr> else r)) rows)"
    by (rule distinct_map_replace) (use assms in auto)
  then show ?thesis using True by (simp add: upsert_row_def comp_def)
next
  case False
  then have "upsert_row new rows = rows @ [new]" by (simp add: upsert_row_def)
  moreover have "row_place new \<notin> row_place ` set rows"
    using False assms(3) by (metis image_iff list.set_map)
  ultimately show ?thesis using assms(2) by simp
qed

lemma insert_containers_iff:
  "insert_containers duplicate now uid cs rows = Inr rows' \<longleftrightarrow>
     distinct (map cn_Name cs) \<and> (\<forall>r \<in> set rows. cr_workload_uid r = uid \<longrightarrow> cr_container r \<notin> cn_Name ` set cs) \<and>
     rows' = rows @ map (container_row now uid) cs"
proof (induction cs arbitrary: rows)
  case (Cons c cs)
  show ?case
  proof (cases "list_ex (\<lambda>r. cr_workload_uid r = uid \<and> cr_container r = cn_Name c) rows")
    case True
    then show ?thesis by (auto simp: list_ex_iff)
  next
    case False
    then show ?thesis
      by (auto simp: Cons.IH list_ex_iff ball_Un container_row_def)
  qed
qed auto

lemma container_row_key [simp]:
  "cr_workload_uid (container_row now uid c) = uid" "container_key (container_row now uid c) = (uid, cn_Name c)"
  by (simp_all add: container_row_def container_key_def)

text \<open>What an upsert leaves: the replaced rows gone, one row for the workload, its containers.\<close>

definition replaced :: "Workload \<Rightarrow> WorkloadRow \<Rightarrow> bool" where
  "replaced w r \<longleftrightarrow> row_place r = place_of w \<and> wr_uid r \<noteq> wk_UID w"

lemma UpsertWorkload_eq:
  "UpsertWorkload duplicate now db w = Inr db' \<longleftrightarrow>
     distinct (map cn_Name (wk_Containers w)) \<and>
     db' = db\<lparr>cat_workloads := upsert_row (row_of now w) (cat_workloads (delete_workloads (replaced w) db)),
              cat_containers := filter (\<lambda>c. cr_workload_uid c \<noteq> wk_UID w) (cat_containers (delete_workloads (replaced w) db)) @
                map (container_row now (wk_UID w)) (wk_Containers w)\<rparr>"
proof -
  have eta: "(\<lambda>r. row_place r = place_of w \<and> wr_uid r \<noteq> wk_UID w) = replaced w"
    by (simp add: replaced_def fun_eq_iff)
  let ?d = "delete_workloads (replaced w) db"
  let ?r = "insert_containers duplicate now (wk_UID w) (wk_Containers w) (filter (\<lambda>c. cr_workload_uid c \<noteq> wk_UID w) (cat_containers ?d))"
  have result: "?r = Inr rows \<longleftrightarrow> distinct (map cn_Name (wk_Containers w)) \<and>
     rows = filter (\<lambda>c. cr_workload_uid c \<noteq> wk_UID w) (cat_containers ?d) @ map (container_row now (wk_UID w)) (wk_Containers w)" for rows
    by (simp add: insert_containers_iff)
  have "UpsertWorkload duplicate now db w = Inr db' \<longleftrightarrow>
     (\<exists>rows. ?r = Inr rows \<and> db' = db\<lparr>cat_workloads := upsert_row (row_of now w) (cat_workloads ?d), cat_containers := rows\<rparr>)"
    by (auto simp: UpsertWorkload_def Let_def eta split: sum.splits) (auto simp: delete_workloads_def Let_def)
  then show ?thesis
    unfolding result by simp
qed

lemma UpsertWorkload_ok:
  assumes ok: "catalog_ok db" and up: "UpsertWorkload duplicate now db w = Inr db'"
  shows "catalog_ok db'"
proof -
  let ?d = "delete_workloads (replaced w) db"
  have d: "catalog_ok ?d" by (rule delete_workloads_ok) (rule ok)
  have db': "cat_workloads db' = upsert_row (row_of now w) (cat_workloads ?d)"
    "cat_containers db' = filter (\<lambda>c. cr_workload_uid c \<noteq> wk_UID w) (cat_containers ?d) @ map (container_row now (wk_UID w)) (wk_Containers w)"
    "cat_sources db' = cat_sources ?d" and names: "distinct (map cn_Name (wk_Containers w))"
    using up by (auto simp: UpsertWorkload_eq delete_workloads_def Let_def)
  have uids: "distinct (map wr_uid (cat_workloads ?d))" and keys: "distinct (map container_key (cat_containers ?d))"
    and places: "distinct (map row_place (cat_workloads ?d))" and fk: "cr_workload_uid ` set (cat_containers ?d) \<subseteq> wr_uid ` set (cat_workloads ?d)"
    and sources: "distinct (map ps_source (cat_sources ?d))"
    using d by (auto simp: catalog_ok_def)
  have "distinct (map wr_uid (cat_workloads db'))"
    using uids unfolding db' upsert_row_uids by auto
  moreover have "distinct (map row_place (cat_workloads db'))"
    unfolding db' by (rule upsert_row_places [OF uids places]) (auto simp: delete_workloads_def Let_def replaced_def)
  moreover have "distinct (map container_key (cat_containers db'))"
  proof -
    have "distinct (map (\<lambda>c. (wk_UID w, cn_Name c)) (wk_Containers w))"
      using names by (simp add: distinct_map inj_on_def)
    then show ?thesis
      using keys by (auto simp: db' distinct_map_filter comp_def container_key_eq)
  qed
  moreover have "cr_workload_uid ` set (cat_containers db') \<subseteq> wr_uid ` set (cat_workloads db')"
    using fk unfolding db' upsert_row_set by auto
  ultimately show ?thesis
    using sources by (simp add: catalog_ok_def db')
qed

lemma upsert_source_ok: "catalog_ok db \<Longrightarrow> (\<And>r. ps_source (update r) = ps_source r) \<Longrightarrow> ps_source new = source \<Longrightarrow>
    catalog_ok (upsert_source source new update db)"
  by (auto simp: catalog_ok_def upsert_source_def comp_def if_distrib [of ps_source] cong: if_cong)

lemma marks_ok: "catalog_ok db \<Longrightarrow> catalog_ok (MarkSourceHealthy now db source cursor eventAt)"
  "catalog_ok db \<Longrightarrow> catalog_ok (MarkSourceDegraded now db source reason)"
  by (simp_all add: MarkSourceHealthy_def MarkSourceDegraded_def upsert_source_ok)

lemma projector_handle_ok:
  assumes "catalog_ok (pj_db p)"
  shows "catalog_ok (pj_db (fst (projector_handle has_publisher answers now p event)))"
proof (cases "project_event answers now (pj_db p) event")
  case (Inl err)
  then show ?thesis using assms by (simp add: projector_handle_def marks_ok)
next
  case (Inr db)
  then have "catalog_ok db"
    using assms by (auto simp: project_event_def DeleteWorkload_def delete_workloads_ok dest: UpsertWorkload_ok
      split: option.splits EventType.splits)
  then show ?thesis using Inr by (simp add: projector_handle_def Let_def marks_ok)
qed

lemma projector_Run_Cons:
  "projector_Run b ((answers, now, event) # rest) p =
     (let q = projector_handle b answers now p event; r = projector_Run b rest (fst q) in (fst r, snd q @ snd r))"
  by (simp add: Let_def split_beta)


section \<open>What a reader of the catalogue can rely on\<close>

definition stored_place :: "StoredWorkload \<Rightarrow> string \<times> string \<times> string" where
  "stored_place s = (sw_Namespace s, sw_Kind s, sw_Name s)"

text \<open>The entry of a workload: what was observed, and the creation time of the entry before it.\<close>

definition entry :: "time \<Rightarrow> StoredWorkload option \<Rightarrow> Workload \<Rightarrow> StoredWorkload" where
  "entry now old w =
     \<lparr>sw_UID = wk_UID w, sw_Division = wk_Division w, sw_Namespace = wk_Namespace w, sw_Name = wk_Name w, sw_Kind = wk_Kind w,
      sw_ImageRef = PrimaryImage w, sw_ReplicasDesired = wk_ReplicasDesired w, sw_ReplicasReady = wk_ReplicasReady w,
      sw_Health = health_text (wk_Health w), sw_CPURequest = sum_list (map CPURequestMillicores (wk_Containers w)),
      sw_MemoryRequest = sum_list (map MemoryRequestBytes (wk_Containers w)),
      sw_CreatedAt = (case old of None \<Rightarrow> wk_CreatedAt w | Some s \<Rightarrow> sw_CreatedAt s),
      sw_ResourceVersion = wk_ResourceVersion w, sw_ObservedAt = now\<rparr>"

definition writable :: "Workload \<Rightarrow> bool" where
  "writable w \<longleftrightarrow> distinct (map cn_Name (wk_Containers w))"

definition row_at :: "WorkloadRow list \<Rightarrow> string \<Rightarrow> WorkloadRow option" where
  "row_at rows uid = find (\<lambda>r. wr_uid r = uid) rows"

lemma row_at_simps [simp]: "row_at [] uid = None" "row_at (r # rows) uid = (if wr_uid r = uid then Some r else row_at rows uid)"
  by (simp_all add: row_at_def)

lemma row_at_Some: "row_at rows uid = Some r \<Longrightarrow> r \<in> set rows \<and> wr_uid r = uid"
  by (induction rows) (auto split: if_splits)

lemma row_at_None: "row_at rows uid = None \<longleftrightarrow> uid \<notin> wr_uid ` set rows"
  by (induction rows) auto

lemma GetWorkload_row: "GetWorkload db uid = map_option (select_workload db) (row_at (cat_workloads db) uid)"
proof -
  have "(case map f (filter (\<lambda>r. wr_uid r = uid) rows) of [] \<Rightarrow> None | x # _ \<Rightarrow> Some x) = map_option f (row_at rows uid)" for f :: "WorkloadRow \<Rightarrow> StoredWorkload" and rows
    by (induction rows) auto
  then show ?thesis by (simp add: GetWorkload_def)
qed

lemma row_at_filter:
  assumes "distinct (map wr_uid rows)"
  shows "row_at (filter P rows) uid = (case row_at rows uid of Some r \<Rightarrow> if P r then Some r else None | None \<Rightarrow> None)"
  using assms
proof (induction rows)
  case (Cons r rows)
  show ?case
  proof (cases "wr_uid r = uid")
    case True
    then have "row_at (filter P rows) uid = None" using Cons.prems by (auto simp: row_at_None)
    then show ?thesis using True by simp
  next
    case False
    then show ?thesis using Cons by simp
  qed
qed simp

lemma row_at_upsert:
  "row_at (upsert_row new rows) uid =
     (if uid = wr_uid new
      then Some (case row_at rows uid of None \<Rightarrow> new | Some r \<Rightarrow> new\<lparr>wr_created_at := wr_created_at r\<rparr>)
      else row_at rows uid)"
proof (cases "wr_uid new \<in> set (map wr_uid rows)")
  case True
  have "row_at (map (\<lambda>r. if wr_uid r = wr_uid new then new\<lparr>wr_created_at := wr_created_at r\<rparr> else r) rows) uid =
     (if uid = wr_uid new then map_option (\<lambda>r. new\<lparr>wr_created_at := wr_created_at r\<rparr>) (row_at rows uid) else row_at rows uid)"
    by (induction rows) auto
  moreover have "row_at rows (wr_uid new) \<noteq> None" using True by (simp add: row_at_None)
  ultimately show ?thesis using True by (auto simp: upsert_row_def)
next
  case False
  have "row_at (rows @ [new]) uid = (case row_at rows uid of None \<Rightarrow> if wr_uid new = uid then Some new else None | Some r \<Rightarrow> Some r)"
    by (induction rows) auto
  moreover have "row_at rows (wr_uid new) = None" using False by (simp add: row_at_None)
  ultimately show ?thesis using False by (auto simp: upsert_row_def split: option.splits)
qed

lemma sum_of_delete:
  "row_at (cat_workloads db) uid = Some r \<Longrightarrow> distinct (map wr_uid (cat_workloads db)) \<Longrightarrow> \<not> gone r \<Longrightarrow>
    sum_of column (delete_workloads gone db) uid = sum_of column db uid"
proof -
  assume "row_at (cat_workloads db) uid = Some r" "distinct (map wr_uid (cat_workloads db))" "\<not> gone r"
  then have "uid \<notin> wr_uid ` {x \<in> set (cat_workloads db). gone x}"
    using row_at_filter [of "cat_workloads db" gone uid] by (auto simp: row_at_None dest: row_at_Some)
  then have "filter (\<lambda>c. cr_workload_uid c = uid) (cat_containers (delete_workloads gone db)) = filter (\<lambda>c. cr_workload_uid c = uid) (cat_containers db)"
    by (auto simp: delete_workloads_def Let_def intro!: filter_cong)
  then show ?thesis by (simp add: sum_of_def)
qed

lemma Get_delete:
  assumes "catalog_ok db"
  shows "GetWorkload (delete_workloads gone db) uid =
    (case row_at (cat_workloads db) uid of Some r \<Rightarrow> if gone r then None else Some (select_workload db r) | None \<Rightarrow> None)"
proof -
  have uids: "distinct (map wr_uid (cat_workloads db))" using assms by (simp add: catalog_ok_def)
  have "cat_workloads (delete_workloads gone db) = filter (\<lambda>r. \<not> gone r) (cat_workloads db)"
    by (simp add: delete_workloads_def Let_def)
  moreover have "select_workload (delete_workloads gone db) r = select_workload db r"
    if "row_at (cat_workloads db) uid = Some r" "\<not> gone r" for r
    using sum_of_delete [OF that(1) uids, of gone] that row_at_Some [OF that(1)] by (simp add: select_workload_def)
  ultimately show ?thesis
    using row_at_filter [OF uids, of "\<lambda>r. \<not> gone r" uid] by (auto simp: GetWorkload_row split: option.splits)
qed

lemma Get_DeleteWorkload:
  assumes "catalog_ok db"
  shows "GetWorkload (DeleteWorkload db uid) x = (if x = uid then None else GetWorkload db x)"
  unfolding DeleteWorkload_def Get_delete [OF assms]
  by (auto simp: GetWorkload_row split: option.splits dest: row_at_Some)

lemma stored_place_select: "stored_place (select_workload db r) = row_place r"
  by (simp add: stored_place_def select_workload_def row_place_def)

lemma coalesce_simps [simp]: "coalesce [] (nullif s) = s" "coalesce d (Some x) = x"
  by (simp_all add: coalesce_def nullif_def)

lemma Get_UpsertWorkload:
  assumes ok: "catalog_ok db" and up: "UpsertWorkload duplicate now db w = Inr db'"
  shows "GetWorkload db' x =
    (if x = wk_UID w then Some (entry now (GetWorkload db x) w)
     else case GetWorkload db x of None \<Rightarrow> None | Some s \<Rightarrow> if stored_place s = place_of w then None else Some s)"
proof -
  let ?d = "delete_workloads (replaced w) db"
  have uids: "distinct (map wr_uid (cat_workloads db))" using ok by (simp add: catalog_ok_def)
  have db': "cat_workloads db' = upsert_row (row_of now w) (cat_workloads ?d)"
    "cat_containers db' = filter (\<lambda>c. cr_workload_uid c \<noteq> wk_UID w) (cat_containers ?d) @ map (container_row now (wk_UID w)) (wk_Containers w)"
    using up by (auto simp: UpsertWorkload_eq)
  have rows: "row_at (cat_workloads ?d) u = (case row_at (cat_workloads db) u of Some r \<Rightarrow> if replaced w r then None else Some r | None \<Rightarrow> None)" for u
    using row_at_filter [OF uids, of "\<lambda>r. \<not> replaced w r" u] by (simp add: delete_workloads_def Let_def split: option.splits)
  show ?thesis
  proof (cases "x = wk_UID w")
    case True
    have "sum_of column db' x = sum_list (map (\<lambda>c. column (container_row now x c)) (wk_Containers w))" for column
      by (simp add: sum_of_def db' True comp_def filter_filter filter_map)
    moreover have "row_at (cat_workloads ?d) x = row_at (cat_workloads db) x"
      unfolding rows by (auto simp: True replaced_def split: option.splits dest: row_at_Some)
    ultimately show ?thesis
      using True by (auto simp: GetWorkload_row db' row_at_upsert entry_def select_workload_def row_of_def container_row_def
        split: option.splits)
  next
    case False
    have "sum_of column db' x = sum_of column ?d x" for column
      using False by (simp add: sum_of_def db' filter_map comp_def filter_filter) (metis (mono_tags, lifting) filter_cong)
    then have "GetWorkload db' x = GetWorkload ?d x"
      using False
      by (cases "row_at (cat_workloads ?d) x") (auto simp: GetWorkload_row db' row_at_upsert select_workload_def dest: row_at_Some)
    also have "\<dots> = (case GetWorkload db x of None \<Rightarrow> None | Some s \<Rightarrow> if stored_place s = place_of w then None else Some s)"
      unfolding Get_delete [OF ok]
      using False by (auto simp: GetWorkload_row stored_place_select replaced_def split: option.splits dest: row_at_Some)
    finally show ?thesis using False by simp
  qed
qed

text \<open>A table of workloads by uid in which a place is taken by one workload at most.\<close>

locale workload_table =
  fixes valid :: "'s \<Rightarrow> bool" and get :: "'s \<Rightarrow> 'u \<Rightarrow> 'v option" and held :: "'v \<Rightarrow> 'k"
    and make :: "'v option \<Rightarrow> 'w \<Rightarrow> 'v" and fits :: "'w \<Rightarrow> bool" and put :: "'s \<Rightarrow> 'w \<Rightarrow> 's"
    and id_of :: "'w \<Rightarrow> 'u" and place :: "'w \<Rightarrow> 'k" and drop_id :: "'s \<Rightarrow> 'u \<Rightarrow> 's"
  assumes valid_put: "valid s \<Longrightarrow> fits w \<Longrightarrow> valid (put s w)"
    and valid_drop: "valid s \<Longrightarrow> valid (drop_id s u)"
    and get_put: "valid s \<Longrightarrow> fits w \<Longrightarrow> get (put s w) u =
      (if u = id_of w then Some (make (get s u) w)
       else case get s u of None \<Rightarrow> None | Some v \<Rightarrow> if held v = place w then None else Some v)"
    and get_drop: "valid s \<Longrightarrow> get (drop_id s u) x = (if x = u then None else get s x)"
    and held_make: "held (make old w) = place w"
begin

lemma replacement_commutes:
  assumes "valid s" and "fits w" and "u \<noteq> id_of w"
  shows "get (drop_id (put s w) u) = get (put (drop_id s u) w)"
  using assms by (auto simp: get_put get_drop valid_put valid_drop fun_eq_iff split: option.splits)

lemma one_per_place:
  assumes "valid s" and "fits w" and "\<forall>u v a b. get s u = Some a \<longrightarrow> get s v = Some b \<longrightarrow> held a = held b \<longrightarrow> u = v"
    and "get (put s w) u = Some a" and "get (put s w) v = Some b" and "held a = held b"
  shows "u = v"
  using assms by (auto simp: get_put held_make split: if_splits option.splits)

end

definition upserted :: "string \<Rightarrow> time \<Rightarrow> CatalogDB \<Rightarrow> Workload \<Rightarrow> CatalogDB" where
  "upserted duplicate now db w = (case UpsertWorkload duplicate now db w of Inl _ \<Rightarrow> db | Inr db' \<Rightarrow> db')"

lemma upserted_Inr:
  assumes "writable w"
  shows "UpsertWorkload duplicate now db w = Inr (upserted duplicate now db w)"
proof -
  obtain db' where "UpsertWorkload duplicate now db w = Inr db'"
    using assms unfolding writable_def UpsertWorkload_eq by blast
  then show ?thesis by (simp add: upserted_def)
qed

lemma UpsertWorkload_isl: "isl (UpsertWorkload duplicate now db w) \<longleftrightarrow> \<not> writable w"
proof (cases "writable w")
  case True
  then show ?thesis using upserted_Inr [OF True, of duplicate now db] by simp
next
  case False
  then have "UpsertWorkload duplicate now db w \<noteq> Inr db'" for db'
    unfolding UpsertWorkload_eq writable_def by simp
  then show ?thesis using False by (cases "UpsertWorkload duplicate now db w") auto
qed

interpretation catalogue: workload_table catalog_ok GetWorkload stored_place "entry now" writable "upserted duplicate now"
  wk_UID place_of DeleteWorkload for duplicate now
proof
  show "catalog_ok (upserted duplicate now s w)" if "catalog_ok s" "writable w" for s w
    using UpsertWorkload_ok [OF that(1) upserted_Inr [OF that(2)]] .
  show "catalog_ok (DeleteWorkload s u)" if "catalog_ok s" for s u
    using that by (simp add: DeleteWorkload_def delete_workloads_ok)
  show "GetWorkload (upserted duplicate now s w) u =
      (if u = wk_UID w then Some (entry now (GetWorkload s u) w)
       else case GetWorkload s u of None \<Rightarrow> None | Some v \<Rightarrow> if stored_place v = place_of w then None else Some v)"
    if "catalog_ok s" "writable w" for s w u
    using Get_UpsertWorkload [OF that(1) upserted_Inr [OF that(2)]] .
  show "GetWorkload (DeleteWorkload s u) x = (if x = u then None else GetWorkload s x)" if "catalog_ok s" for s u x
    using that by (rule Get_DeleteWorkload)
  show "stored_place (entry now old w) = place_of w" for old w
    by (simp add: stored_place_def entry_def place_of_def)
qed

section \<open>The catalogue follows the events\<close>

definition recorded :: "Answers \<Rightarrow> WorkloadEvent \<Rightarrow> bool" where
  "recorded answers event \<longleftrightarrow> an_write answers = None \<and> (we_Type event = EventRemoved \<or> writable (we_Workload event))"

definition observe :: "time \<Rightarrow> WorkloadEvent \<Rightarrow> (string \<rightharpoonup> StoredWorkload) \<Rightarrow> (string \<rightharpoonup> StoredWorkload)" where
  "observe now event m =
     (let w = we_Workload event
      in if we_Type event = EventRemoved then m(wk_UID w := None)
         else (\<lambda>u. if u = wk_UID w then Some (entry now (m u) w)
                   else case m u of None \<Rightarrow> None | Some s \<Rightarrow> if stored_place s = place_of w then None else Some s))"

lemma Get_sources: "GetWorkload (db\<lparr>cat_sources := sources\<rparr>) = GetWorkload db"
proof -
  have "select_workload (db\<lparr>cat_sources := sources\<rparr>) = select_workload db"
    by (simp add: select_workload_def sum_of_def fun_eq_iff)
  then have "GetWorkload (db\<lparr>cat_sources := sources\<rparr>) uid = GetWorkload db uid" for uid
    unfolding GetWorkload_def by simp
  then show ?thesis by (rule ext)
qed

lemma Get_marks [simp]: "GetWorkload (MarkSourceHealthy now db source cursor eventAt) = GetWorkload db"
  "GetWorkload (MarkSourceDegraded now db source reason) = GetWorkload db"
  by (simp_all add: MarkSourceHealthy_def MarkSourceDegraded_def upsert_source_def Get_sources)

lemma project_event_cases:
  "project_event answers now db event =
     (if recorded answers event
      then Inr (if we_Type event = EventRemoved then DeleteWorkload db (wk_UID (we_Workload event))
                else upserted (an_duplicate answers) now db (we_Workload event))
      else project_event answers now db event) \<and>
   isl (project_event answers now db event) = (\<not> recorded answers event)"
  by (auto simp: project_event_def recorded_def UpsertWorkload_isl upserted_Inr split: option.splits EventType.splits)

lemma handle_refines:
  assumes ok: "catalog_ok (pj_db p)"
  shows "GetWorkload (pj_db (fst (projector_handle b answers now p event))) =
    (if recorded answers event then observe now event (GetWorkload (pj_db p)) else GetWorkload (pj_db p))"
proof (cases "recorded answers event")
  case True
  then have "project_event answers now (pj_db p) event =
      Inr (if we_Type event = EventRemoved then DeleteWorkload (pj_db p) (wk_UID (we_Workload event))
           else upserted (an_duplicate answers) now (pj_db p) (we_Workload event))"
    using project_event_cases [of answers now "pj_db p" event] by simp
  then show ?thesis
    using True ok
    by (auto simp: projector_handle_def Let_def observe_def recorded_def catalogue.get_put catalogue.get_drop fun_eq_iff)
next
  case False
  then obtain err where "project_event answers now (pj_db p) event = Inl err"
    using project_event_cases [of answers now "pj_db p" event] by (auto simp: isl_def)
  then show ?thesis using False by (simp add: projector_handle_def)
qed

text \<open>
  C23. The catalogue refines a map from uids to workloads: after any sequence of events the entry
  found under a uid is the one the map has when each event that could be written is applied to it.
\<close>
theorem catalogue_refines_the_observed_workloads:
  "catalog_ok (pj_db p) \<Longrightarrow>
     GetWorkload (pj_db (fst (projector_Run has_publisher events p))) =
     fold (\<lambda>(answers, now, event) m. if recorded answers event then observe now event m else m) events (GetWorkload (pj_db p))"
proof (induction events arbitrary: p)
  case (Cons e events)
  obtain answers now event where e: "e = (answers, now, event)" by (cases e)
  note step = projector_handle_ok [OF Cons.prems, of has_publisher answers now event]
  show ?case
    using Cons.IH [OF step] handle_refines [OF Cons.prems, of has_publisher answers now event]
    unfolding e projector_Run_Cons Let_def fst_conv by (simp split: if_splits)
qed simp

text \<open>
  A workload that is deleted and made again under its name ends as the new one, whichever of
  the two notices is handled first.
\<close>
theorem replacement_in_either_order:
  assumes "catalog_ok db" and "writable new" and "wk_UID old \<noteq> wk_UID new"
  shows "GetWorkload (DeleteWorkload (upserted duplicate now db new) (wk_UID old)) =
    GetWorkload (upserted duplicate now (DeleteWorkload db (wk_UID old)) new)"
  using assms by (rule catalogue.replacement_commutes)

section \<open>A failed event shows\<close>

definition source_row :: "CatalogDB \<Rightarrow> SourceRow option" where
  "source_row db = find (\<lambda>r. ps_source r = SourceKubernetes) (cat_sources db)"

lemma find_map_same: "(\<And>x. P (f x) = P x) \<Longrightarrow> find P (map f xs) = map_option f (find P xs)"
  by (induction xs) auto

lemma find_append: "find P (xs @ ys) = (case find P xs of None \<Rightarrow> find P ys | Some x \<Rightarrow> Some x)"
  by (induction xs) auto

lemma source_row_upsert:
  assumes "\<And>r. ps_source (update r) = ps_source r" and "ps_source new = SourceKubernetes"
  shows "source_row (upsert_source SourceKubernetes new update db) = Some (case source_row db of None \<Rightarrow> new | Some r \<Rightarrow> update r)"
proof (cases "source_row db")
  case None
  then have "SourceKubernetes \<notin> set (map ps_source (cat_sources db))" by (auto simp: source_row_def find_None_iff)
  then show ?thesis using None assms by (simp add: upsert_source_def source_row_def find_append)
next
  case (Some r)
  then have r: "ps_source r = SourceKubernetes" "r \<in> set (cat_sources db)" by (auto simp: source_row_def find_Some_iff)
  then have "SourceKubernetes \<in> set (map ps_source (cat_sources db))" by force
  then show ?thesis using Some r assms by (simp add: upsert_source_def source_row_def find_map_same)
qed

definition degraded_of :: "SourceRow \<Rightarrow> DegradedSource" where
  "degraded_of r = \<lparr>ds_Source = ps_source r, ds_Reason = coalesce [] (ps_last_error r), ds_LastHealthyAt = ps_last_synced_at r\<rparr>"

lemma degraded_fold:
  "fr_Degraded (fold (fresh_from now) rows f) = fr_Degraded f @ map degraded_of (filter (\<lambda>r. \<not> ps_healthy r) rows)"
proof (induction rows arbitrary: f)
  case (Cons r rows)
  show ?case by (simp add: Cons.IH) (simp add: fresh_from_def Let_def degraded_of_def)
qed simp

lemma filter_unique:
  "distinct (map f xs) \<Longrightarrow> filter (\<lambda>x. f x = a) xs = (case find (\<lambda>x. f x = a) xs of None \<Rightarrow> [] | Some x \<Rightarrow> [x])"
proof (induction xs)
  case (Cons x xs)
  then show ?case
  proof (cases "f x = a")
    case True
    then have "filter (\<lambda>y. f y = a) xs = []" using Cons.prems by (auto simp: filter_empty_conv image_iff)
    then show ?thesis using True by simp
  qed simp
qed simp

lemma kubernetes_degraded:
  assumes "catalog_ok db" and "source_row db = Some r"
  shows "filter (\<lambda>d. ds_Source d = SourceKubernetes) (fr_Degraded (Freshness_of now db)) =
    (if ps_healthy r then [] else [degraded_of r])"
proof -
  have "filter (\<lambda>d. ds_Source d = SourceKubernetes) (fr_Degraded (Freshness_of now db)) =
      map degraded_of (filter (\<lambda>r. \<not> ps_healthy r) (filter (\<lambda>r. ps_source r = SourceKubernetes) (cat_sources db)))"
    by (simp add: Freshness_of_def degraded_fold filter_map comp_def degraded_of_def filter_filter conj_commute)
  also have "filter (\<lambda>r. ps_source r = SourceKubernetes) (cat_sources db) = [r]"
    using assms filter_unique [of ps_source "cat_sources db" SourceKubernetes] by (simp add: catalog_ok_def source_row_def)
  finally show ?thesis by simp
qed


section \<open>Examples\<close>

definition no_catalogue :: Projection where
  "no_catalogue = \<lparr>pj_db = \<lparr>cat_workloads = [], cat_containers = [], cat_sources = []\<rparr>, pj_cursor = []\<rparr>"

definition answering :: Answers where
  "answering = \<lparr>an_write = None, an_mark = True, an_duplicate = ''duplicate key''\<rparr>"

definition example_workload :: "string \<Rightarrow> string \<Rightarrow> Workload" where
  "example_workload uid version =
     \<lparr>wk_UID = uid, wk_Namespace = ''shop'', wk_Name = ''web'', wk_Kind = ''Deployment'', wk_APIVersion = ''apps/v1'',
      wk_Division = ''retail'', wk_ReplicasDesired = 0, wk_ReplicasReady = 0, wk_Health = HealthHealthy,
      wk_Containers = [\<lparr>cn_Name = ''app'', cn_Image = ''registry/web'', CPURequestMillicores = 500, CPULimitMillicores = 1000,
                        MemoryRequestBytes = 1024, MemoryLimitBytes = 2048\<rparr>],
      wk_CreatedAt = 5, wk_ResourceVersion = version\<rparr>"

definition example_event :: "EventType \<Rightarrow> string \<Rightarrow> string \<Rightarrow> WorkloadEvent" where
  "example_event type uid version = \<lparr>we_Type = type, we_Workload = example_workload uid version, we_At = 7\<rparr>"

definition example_events :: "(Answers \<times> time \<times> WorkloadEvent) list" where
  "example_events = [(answering, 8, example_event EventAdded ''a'' ''9''), (answering, 9, example_event EventAdded ''b'' ''10''),
     (answering, 10, example_event EventRemoved ''a'' ''11'')]"

lemma no_catalogue_ok: "catalog_ok (pj_db no_catalogue)"
  by (simp add: no_catalogue_def catalog_ok_def)


theorem catalogue_refines_the_observed_workloads_witness:
  "map_option sw_ResourceVersion (GetWorkload (pj_db (fst (projector_Run True example_events no_catalogue))) ''b'') = Some ''10'' \<and>
   GetWorkload (pj_db (fst (projector_Run True example_events no_catalogue))) ''a'' = None"
  unfolding catalogue_refines_the_observed_workloads [OF no_catalogue_ok]
  by code_simp

theorem replacement_in_either_order_witness:
  "GetWorkload (DeleteWorkload (upserted [] 9 (upserted [] 8 (pj_db no_catalogue) (example_workload ''a'' ''9'')) (example_workload ''b'' ''10'')) ''a'') =
   GetWorkload (upserted [] 9 (DeleteWorkload (upserted [] 8 (pj_db no_catalogue) (example_workload ''a'' ''9'')) ''a'') (example_workload ''b'' ''10''))"
proof -
  have fits: "writable (example_workload uid version)" for uid version
    by (simp add: writable_def example_workload_def)
  have uid: "wk_UID (example_workload uid version) = uid" for uid version
    by (simp add: example_workload_def)
  have "catalog_ok (upserted [] 8 (pj_db no_catalogue) (example_workload ''a'' ''9''))"
    by (rule catalogue.valid_put [OF no_catalogue_ok fits])
  from replacement_in_either_order [OF this fits, where old = "example_workload ''a'' ''9''"]
  show ?thesis unfolding uid by simp
qed


text \<open>Versions are compared as texts, so the cursor stays at 9 when version 10 is seen.\<close>

lemma versions_are_compared_as_text:
  "pj_cursor (fst (projector_Run True (take 2 example_events) no_catalogue)) = ''9''"
  by code_simp

text \<open>A source whose very first event fails is shown as healthy until that moment.\<close>

lemma first_failure_counts_as_synced:
  "map ds_LastHealthyAt (fr_Degraded (Freshness_of 20 (MarkSourceDegraded 8 (pj_db no_catalogue) SourceKubernetes ''down''))) = [8]"
  by code_simp

text \<open>A workload scaled to zero is reported as asking for one replica.\<close>

lemma idle_workload_counts_once:
  "map wq_CPUMillicores (RequestedByWorkload id (upserted [] 8 (pj_db no_catalogue) (example_workload ''a'' ''9'')) None) = [500]"
  by code_simp

end
