(* ===== verification/Money.thy ===== *)
theory Money
  imports Lease Calendar GoStrings
begin

text \<open>
  Amounts of money, internal/cost/money.go, over the rational numbers of package math/big: what a
  decimal text means, the text of a number with a given number of digits, and the arithmetic of
  amounts. An amount without a number counts as zero, an amount without a currency as rupiah.
\<close>

section \<open>Rational numbers as text: package math/big\<close>

fun digits_value :: "int \<Rightarrow> string \<Rightarrow> int" where
  "digits_value n [] = n"
| "digits_value n (c # s) = digits_value (n * 10 + digit_value c) s"

text \<open>
  \<^verbatim>\<open>Rat.SetString\<close>: a decimal number with an optional sign and point. What else it accepts
  (fractions, exponents, digit separators, other bases), none of which a rate or a stored amount
  uses, is the argument \<^verbatim>\<open>other\<close>.
\<close>

definition unsigned_text :: "string \<Rightarrow> string" where
  "unsigned_text s = (if s \<noteq> [] \<and> (hd s = CHR ''-'' \<or> hd s = CHR ''+'') then tl s else s)"

definition decimal_text :: "string \<Rightarrow> rat option" where
  "decimal_text s =
     (let sign = (if s \<noteq> [] \<and> hd s = CHR ''-'' then - 1 else 1);
          whole = takeWhile is_digit (unsigned_text s); rest = dropWhile is_digit (unsigned_text s)
      in if rest = [] then (if whole = [] then None else Some (sign * of_int (digits_value 0 whole)))
         else if hd rest = CHR ''.'' \<and> list_all is_digit (tl rest) \<and> (whole \<noteq> [] \<or> tl rest \<noteq> [])
         then Some (sign * (of_int (digits_value 0 (whole @ tl rest)) / 10 ^ length (tl rest)))
         else None)"

definition SetString :: "(string \<Rightarrow> rat option) \<Rightarrow> string \<Rightarrow> rat option" where
  "SetString other s = (case decimal_text s of Some r \<Rightarrow> Some r | None \<Rightarrow> other s)"

text \<open>\<^verbatim>\<open>Rat.FloatString\<close>: rounded to a number of digits, halves away from zero.\<close>

definition FloatString :: "nat \<Rightarrow> rat \<Rightarrow> string" where
  "FloatString prec x =
     (case quotient_of x of (a, b) \<Rightarrow>
        if b = 1 then show_int a @ (if 0 < prec then CHR ''.'' # replicate prec (CHR ''0'') else [])
        else
          (let q = \<bar>a\<bar> div b; p = 10 ^ prec;
               d = \<bar>a\<bar> mod b * p div b; rest = \<bar>a\<bar> mod b * p mod b;
               d = (if b \<le> rest + rest then d + 1 else d);
               (q, d) = (if p \<le> d then (q + 1, d - p) else (q, d))
           in (if a < 0 then ''-'' else []) @ show_nat (nat q) @
              (if 0 < prec then CHR ''.'' # pad prec (show_nat (nat d)) else [])))"

definition RatString :: "rat \<Rightarrow> string" where
  "RatString x = (case quotient_of x of (a, b) \<Rightarrow> if b = 1 then show_int a else show_int a @ ''/'' @ show_int b)"

section \<open>Amounts of money\<close>

record Money =
  mn_currency :: string
  mn_amount :: "rat option"

definition NewMoney :: "string \<Rightarrow> rat option \<Rightarrow> Money" where
  "NewMoney currency amount =
     \<lparr>mn_currency = (if currency = [] then ''IDR'' else currency),
      mn_amount = Some (case amount of None \<Rightarrow> 0 | Some r \<Rightarrow> r)\<rparr>"

definition ParseMoney :: "(string \<Rightarrow> rat option) \<Rightarrow> string \<Rightarrow> string \<Rightarrow> string + Money" where
  "ParseMoney other currency amount =
     (let trimmed = TrimSpace amount
      in if trimmed = [] then Inr (NewMoney currency None)
         else case SetString other trimmed of
           None \<Rightarrow> Inl (quoted amount @ '' is not an amount'')
         | Some parsed \<Rightarrow> Inr (NewMoney currency (Some parsed)))"

definition Currency :: "Money \<Rightarrow> string" where
  "Currency m = (if mn_currency m = [] then ''IDR'' else mn_currency m)"

definition Rat_of :: "Money \<Rightarrow> rat" where
  "Rat_of m = (case mn_amount m of None \<Rightarrow> 0 | Some r \<Rightarrow> r)"

definition Times_money :: "Money \<Rightarrow> rat \<Rightarrow> Money" where
  "Times_money m factor = NewMoney (Currency m) (Some (Rat_of m * factor))"

definition Add_money :: "Money \<Rightarrow> Money \<Rightarrow> Money" where
  "Add_money m other = NewMoney (Currency m) (Some (Rat_of m + Rat_of other))"

definition Sub_money :: "Money \<Rightarrow> Money \<Rightarrow> Money" where
  "Sub_money m other = NewMoney (Currency m) (Some (Rat_of m - Rat_of other))"

definition IsZero_money :: "Money \<Rightarrow> bool" where "IsZero_money m \<longleftrightarrow> Rat_of m = 0"
definition Negative :: "Money \<Rightarrow> bool" where "Negative m \<longleftrightarrow> Rat_of m < 0"
definition String_of :: "Money \<Rightarrow> string" where "String_of m = FloatString 2 (Rat_of m)"

definition Ratio :: "int \<Rightarrow> int \<Rightarrow> rat" where
  "Ratio numerator denominator = (if denominator = 0 then 0 else of_int numerator / of_int denominator)"

lemma money_simps [simp]:
  "Rat_of (NewMoney c r) = (case r of None \<Rightarrow> 0 | Some x \<Rightarrow> x)"
  "Rat_of (Times_money m f) = Rat_of m * f" "Rat_of (Add_money m n) = Rat_of m + Rat_of n"
  "Rat_of (Sub_money m n) = Rat_of m - Rat_of n"
  "Currency (NewMoney c r) = (if c = [] then ''IDR'' else c)"
  "Currency (Times_money m f) = Currency m" "Currency (Add_money m n) = Currency m" "Currency (Sub_money m n) = Currency m"
  by (simp_all add: NewMoney_def Rat_of_def Times_money_def Add_money_def Sub_money_def Currency_def)

section \<open>What is written can be read\<close>

text \<open>A number rounded to a number of digits after the point, halves away from zero.\<close>

definition rounded :: "nat \<Rightarrow> rat \<Rightarrow> rat" where
  "rounded prec x = (if x < 0 then - 1 else 1) * (of_int \<lfloor>\<bar>x\<bar> * 10 ^ prec + 1 / 2\<rfloor> / 10 ^ prec)"

lemma digits_value_append: "digits_value n (s @ t) = digits_value (digits_value n s) t"
  by (induction n s rule: digits_value.induct) simp_all

lemma digits_value_shift: "digits_value n s = n * 10 ^ length s + digits_value 0 s"
proof (induction s arbitrary: n)
  case Nil
  then show ?case by simp
next
  case (Cons c s)
  show ?case
    using Cons [of "n * 10 + digit_value c"] Cons [of "digit_value c"] by (simp add: algebra_simps)
qed

lemma digits_value_show: "digits_value 0 (show_nat n) = int n"
proof (induction n rule: show_nat.induct)
  case (1 n)
  have "int (n div 10) * 10 + int (n mod 10) = int n"
    by presburger
  with 1 show ?case
    by (subst show_nat.simps) (auto simp: digits_value_append)
qed

lemma digits_value_zeros: "digits_value 0 (replicate k (CHR ''0'')) = 0"
  by (induction k) (simp_all add: digit_value_def)

lemma show_nat_length: "n < 10 ^ k \<Longrightarrow> 0 < k \<Longrightarrow> length (show_nat n) \<le> k"
proof (induction n arbitrary: k rule: show_nat.induct)
  case (1 n)
  show ?case
  proof (cases "n < 10")
    case True
    then show ?thesis using 1(3) by (subst show_nat.simps) simp
  next
    case False
    then obtain k' where k: "k = Suc k'" "0 < k'"
      using 1 by (cases k; cases "k - 1") auto
    with 1(1) [OF False, of k'] 1(2) have "length (show_nat (n div 10)) \<le> k'"
      by (simp add: div_less_iff_less_mult mult.commute)
    with False k show ?thesis by (subst show_nat.simps) simp
  qed
qed

lemma pad_facts:
  assumes "n < 10 ^ k" "0 < k"
  shows "length (pad k (show_nat n)) = k" and "digits_value 0 (pad k (show_nat n)) = int n"
    and "list_all is_digit (pad k (show_nat n))"
  using show_nat_length [OF assms]
  by (auto simp: digits_value_append digits_value_zeros digits_value_show list_all_iff show_nat_digits)
    (auto simp: is_digit_def)


definition hundredths :: "nat \<Rightarrow> rat \<Rightarrow> int" where
  "hundredths prec x = \<lfloor>\<bar>x\<bar> * 10 ^ prec + 1 / 2\<rfloor>"

lemma half_floor:
  fixes y :: rat
  shows "0 \<le> y \<Longrightarrow> y < 1 \<Longrightarrow> \<lfloor>y + 1 / 2\<rfloor> = (if 1 / 2 \<le> y then 1 else 0)"
  by (auto simp: floor_eq_iff)

lemma zdiv_less: "0 < (b :: int) \<Longrightarrow> t < b * n \<Longrightarrow> t div b < n"
proof (rule ccontr)
  assume "0 < b" "t < b * n" "\<not> t div b < n"
  then have "b * n \<le> b * (t div b)" by simp
  also have "\<dots> \<le> t" using \<open>0 < b\<close> by (metis add_increasing2 mult_div_mod_eq order_refl pos_mod_sign)
  finally show False using \<open>t < b * n\<close> by simp
qed

lemma rounded_step:
  assumes "0 < b" "0 \<le> a"
  shows "\<lfloor>(of_int a / of_int b :: rat) * 10 ^ k + 1 / 2\<rfloor> =
    a div b * 10 ^ k + (a mod b * 10 ^ k div b + (if b \<le> a mod b * 10 ^ k mod b + a mod b * 10 ^ k mod b then 1 else 0))"
proof -
  define t where "t = a mod b * 10 ^ k"
  have "a * 10 ^ k = a div b * 10 ^ k * b + t"
  proof -
    have "a * 10 ^ k = (a div b * b + a mod b) * 10 ^ k" by simp
    then show ?thesis by (simp only: t_def distrib_right) (simp add: mult_ac)
  qed
  then have "of_int a * 10 ^ k = (of_int (a div b * 10 ^ k * b + t) :: rat)"
    by (metis of_int_mult of_int_power of_int_numeral)
  moreover have "(of_int t :: rat) = of_int (t div b) * of_int b + of_int (t mod b)"
    by (metis of_int_add of_int_mult div_mult_mod_eq)
  ultimately have "(of_int a / of_int b :: rat) * 10 ^ k + 1 / 2 = of_int (a div b * 10 ^ k + t div b) + (of_int (t mod b) / of_int b + 1 / 2)"
    using assms by (simp add: field_simps)
  then have "\<lfloor>(of_int a / of_int b :: rat) * 10 ^ k + 1 / 2\<rfloor> = a div b * 10 ^ k + t div b + \<lfloor>of_int (t mod b) / of_int b + (1 / 2 :: rat)\<rfloor>"
    by (simp only: floor_add_int [symmetric] add.commute)
  moreover have "\<lfloor>of_int (t mod b) / of_int b + (1 / 2 :: rat)\<rfloor> = (if b \<le> t mod b + t mod b then 1 else 0)"
  proof -
    have r: "0 \<le> t mod b" "t mod b < b" using assms by simp_all
    then have "of_int (t mod b) / of_int b < (1 :: rat)" "0 \<le> of_int (t mod b) / (of_int b :: rat)"
      using assms by simp_all
    moreover have "(1 / 2 \<le> of_int (t mod b) / (of_int b :: rat)) = (b \<le> t mod b + t mod b)"
    proof -
      have "(1 / 2 \<le> of_int (t mod b) / (of_int b :: rat)) = (of_int b \<le> (of_int (t mod b + t mod b) :: rat))"
        using assms by (simp add: field_simps)
      then show ?thesis by (simp only: of_int_le_iff)
    qed
    ultimately show ?thesis
      by (simp add: half_floor)
  qed
  ultimately show ?thesis by (simp add: t_def)
qed

lemma show_nat_0: "show_nat 0 = ''0''"
  by code_simp

lemma FloatString_shape:
  assumes "0 < k"
  shows "FloatString k x = (if x < 0 then ''-'' else []) @ show_nat (nat (hundredths k x div 10 ^ k)) @ CHR ''.'' #
    pad k (show_nat (nat (hundredths k x mod 10 ^ k)))"
proof -
  obtain a b where ab: "quotient_of x = (a, b)" by fastforce
  then have b: "0 < b" and x: "x = of_int a / of_int b"
    by (simp_all add: quotient_of_denom_pos quotient_of_div)
  have neg: "(x < 0) = (a < 0)"
    using b by (simp add: x divide_less_0_iff)
  have ax: "\<bar>x\<bar> = of_int \<bar>a\<bar> / of_int b"
    using b by (simp add: x abs_divide)
  define t where "t = \<bar>a\<bar> mod b * 10 ^ k"
  define c where "c = (if b \<le> t mod b + t mod b then 1 else (0 :: int))"
  have h: "hundredths k x = \<bar>a\<bar> div b * 10 ^ k + (t div b + c)"
    using rounded_step [OF b, of "\<bar>a\<bar>" k] by (simp add: hundredths_def ax t_def c_def)
  show ?thesis
  proof (cases "b = 1")
    case True
    then have "t = 0" "c = 0" by (simp_all add: t_def c_def)
    then have "hundredths k x div 10 ^ k = \<bar>a\<bar>" "hundredths k x mod 10 ^ k = 0"
      using h True by simp_all
    moreover have "pad k (show_nat 0) = replicate k (CHR ''0'')"
      using assms by (cases k) (simp_all add: show_nat_0 replicate_append_same)
    ultimately show ?thesis
      using True assms ab by (simp add: FloatString_def neg show_int_def)
  next
    case False
    have t: "0 \<le> t" "t < b * 10 ^ k"
      using b by (simp_all add: t_def)
    then have d: "0 \<le> t div b" "t div b < 10 ^ k"
      using b by (simp_all add: pos_imp_zdiv_nonneg_iff zdiv_less)
    have c: "(if b \<le> t mod b + t mod b then t div b + 1 else t div b) = t div b + c"
      by (simp add: c_def)
    have shown: "FloatString k x = (case (if 10 ^ k \<le> t div b + c then (\<bar>a\<bar> div b + 1, t div b + c - 10 ^ k) else (\<bar>a\<bar> div b, t div b + c)) of
        (q, d) \<Rightarrow> (if x < 0 then ''-'' else []) @ show_nat (nat q) @ CHR ''.'' # pad k (show_nat (nat d)))"
      using False assms unfolding FloatString_def ab prod.case Let_def t_def [symmetric] c neg by (simp only: if_False if_True)
    show ?thesis
    proof (cases "10 ^ k \<le> t div b + c")
      case True
      then have e: "t div b + c = 10 ^ k"
        using d by (auto simp: c_def split: if_splits)
      then have "hundredths k x = (\<bar>a\<bar> div b + 1) * 10 ^ k"
        by (simp add: h algebra_simps)
      then show ?thesis
        using e by (simp add: shown del: pad.simps)
    next
      case less: False
      moreover have "0 \<le> t div b + c" using d by (simp add: c_def)
      ultimately have "hundredths k x div 10 ^ k = \<bar>a\<bar> div b" "hundredths k x mod 10 ^ k = t div b + c"
        by (simp_all add: h)
      then show ?thesis
        using less by (simp add: shown del: pad.simps)
    qed
  qed
qed

lemma takeWhile_stop: "\<forall>c \<in> set xs. P c \<Longrightarrow> \<not> P y \<Longrightarrow> takeWhile P (xs @ y # ys) = xs \<and> dropWhile P (xs @ y # ys) = y # ys"
  by (induction xs) simp_all

lemma digit_not_sign: "is_digit c \<Longrightarrow> c \<noteq> CHR ''-'' \<and> c \<noteq> CHR ''+'' \<and> c \<noteq> CHR ''.''"
  by (auto simp: is_digit_def)

lemma decimal_text_point:
  assumes "unsigned_text s = w @ CHR ''.'' # f" and "(s \<noteq> [] \<and> hd s = CHR ''-'') = neg"
    and w: "\<forall>c \<in> set w. is_digit c" and "w \<noteq> []" "list_all is_digit f"
  shows "decimal_text s = Some ((if neg then - 1 else 1) * (of_int (digits_value 0 (w @ f)) / 10 ^ length f))"
proof -
  have "\<not> is_digit (CHR ''.'')" by (simp add: is_digit_def)
  with takeWhile_stop [OF w this, of f] assms show ?thesis
    by (simp add: decimal_text_def Let_def)
qed

lemma decimal_text_FloatString:
  assumes "0 < k"
  shows "decimal_text (FloatString k x) = Some (rounded k x)"
proof -
  let ?h = "hundredths k x"
  let ?w = "show_nat (nat (?h div 10 ^ k))"
  let ?f = "pad k (show_nat (nat (?h mod 10 ^ k)))"
  have pos: "0 \<le> ?h" by (simp add: hundredths_def)
  have "0 \<le> ?h mod 10 ^ k" "?h mod 10 ^ k < 10 ^ k" by simp_all
  then have "nat (?h mod 10 ^ k) < 10 ^ k"
    by (metis nat_less_iff of_nat_numeral of_nat_power)
  note f = pad_facts [OF this assms]
  have w: "\<forall>c \<in> set ?w. is_digit c" using show_nat_digits by blast
  have u: "unsigned_text (FloatString k x) = ?w @ CHR ''.'' # ?f"
    using digit_not_sign [OF hd_show_nat [of "nat (?h div 10 ^ k)"]] by (simp add: FloatString_shape [OF assms] unsigned_text_def)
  have s: "(FloatString k x \<noteq> [] \<and> hd (FloatString k x) = CHR ''-'') = (x < 0)"
    using digit_not_sign [OF hd_show_nat [of "nat (?h div 10 ^ k)"]] by (auto simp: FloatString_shape [OF assms])
  have "digits_value 0 (?w @ ?f) = (?h div 10 ^ k) * 10 ^ k + ?h mod 10 ^ k"
  proof -
    have "digits_value 0 (?w @ ?f) = digits_value 0 ?w * 10 ^ length ?f + digits_value 0 ?f"
      by (simp only: digits_value_append) (rule digits_value_shift)
    also have "\<dots> = int (nat (?h div 10 ^ k)) * 10 ^ k + int (nat (?h mod 10 ^ k))"
      by (simp only: f(1,2) digits_value_show)
    finally show ?thesis
      using pos by (simp add: pos_imp_zdiv_nonneg_iff)
  qed
  then have v: "digits_value 0 (?w @ ?f) = ?h" by (simp only: div_mult_mod_eq)
  show ?thesis
    unfolding decimal_text_point [OF u s w show_nat_nonempty f(3)] v f(1) by (simp add: rounded_def hundredths_def)
qed

lemma strip_plain: "s = [] \<or> (\<forall>w \<in> set ws. w = [] \<or> hd w \<noteq> hd s) \<Longrightarrow> strip ws s = s"
  by (subst strip.simps) (auto simp: find_None_iff prefix_def neq_Nil_conv split: option.splits dest!: find_SomeD)

lemma white_space_ends:
  "list_all (\<lambda>w. w \<noteq> [] \<and> ((of_char (hd w) :: nat) < 33 \<or> 126 < (of_char (hd w) :: nat)) \<and>
     ((of_char (last w) :: nat) < 33 \<or> 126 < (of_char (last w) :: nat))) white_space"
  by (simp add: white_space_def upt_conv_Cons)

lemma TrimSpace_plain:
  assumes "\<forall>c \<in> {hd s, last s}. 33 \<le> (of_char c :: nat) \<and> (of_char c :: nat) \<le> 126"
  shows "TrimSpace s = s"
proof -
  have "strip white_space s = s"
    using white_space_ends assms by (intro strip_plain) (fastforce simp: list_all_iff)
  moreover have "strip (map rev white_space) (rev s) = rev s"
    using white_space_ends assms by (intro strip_plain) (fastforce simp: list_all_iff hd_rev)
  ultimately show ?thesis by (simp add: TrimSpace_def)
qed


lemma rounded_near:
  "\<bar>rounded k x - x\<bar> \<le> 1 / (2 * 10 ^ k)"
proof -
  define y where "y = \<bar>x\<bar> * 10 ^ k"
  have "\<bar>of_int \<lfloor>y + 1 / 2\<rfloor> - y\<bar> \<le> 1 / 2" by linarith
  then have "\<bar>of_int \<lfloor>y + 1 / 2\<rfloor> - y\<bar> / 10 ^ k \<le> 1 / (2 * 10 ^ k)"
    by (simp add: divide_right_mono field_simps)
  moreover have "\<bar>of_int \<lfloor>y + 1 / 2\<rfloor> - y\<bar> / 10 ^ k = \<bar>of_int \<lfloor>y + 1 / 2\<rfloor> / 10 ^ k - \<bar>x\<bar>\<bar>"
  proof -
    have "(of_int \<lfloor>y + 1 / 2\<rfloor> - y) / 10 ^ k = of_int \<lfloor>y + 1 / 2\<rfloor> / 10 ^ k - \<bar>x\<bar>"
      by (simp add: y_def diff_divide_distrib)
    then show ?thesis by (metis abs_divide abs_of_pos zero_less_numeral zero_less_power)
  qed
  moreover have "\<bar>rounded k x - x\<bar> = \<bar>of_int \<lfloor>y + 1 / 2\<rfloor> / 10 ^ k - \<bar>x\<bar>\<bar>"
    by (simp add: rounded_def y_def) linarith
  ultimately show ?thesis by linarith
qed

lemma rounded_exact: "rounded k (of_int n / 10 ^ k) = of_int n / 10 ^ k"
proof -
  have "\<lfloor>(of_int \<bar>n\<bar> :: rat) + 1 / 2\<rfloor> = \<bar>n\<bar>" by linarith
  then show ?thesis
    by (simp add: rounded_def abs_divide divide_less_0_iff)
qed

lemma FloatString_ends:
  assumes "0 < k" and "c \<in> {hd (FloatString k x), last (FloatString k x)}"
  shows "33 \<le> (of_char c :: nat) \<and> (of_char c :: nat) \<le> 126"
proof -
  let ?h = "hundredths k x"
  have "0 \<le> ?h mod 10 ^ k" "?h mod 10 ^ k < 10 ^ k" by simp_all
  then have "nat (?h mod 10 ^ k) < 10 ^ k"
    by (metis nat_less_iff of_nat_numeral of_nat_power)
  note f = pad_facts [OF this assms(1)]
  then have "pad k (show_nat (nat (?h mod 10 ^ k))) \<noteq> []" using assms(1) by (metis length_greater_0_conv)
  with f(3) have "is_digit (last (FloatString k x))"
    by (simp add: FloatString_shape [OF assms(1)] list_all_iff del: pad.simps)
  moreover have "is_digit (hd (FloatString k x)) \<or> hd (FloatString k x) = CHR ''-''"
    using hd_show_nat by (simp add: FloatString_shape [OF assms(1)])
  ultimately show ?thesis using assms(2) by (auto simp: is_digit_def)
qed

text \<open>
  An amount that is written with two digits is read back as the same amount rounded to two
  digits, halves away from zero: it is off by at most half a hundredth, and an amount of whole
  hundredths comes back as it was. The currency is kept.
\<close>
theorem written_amount_reads_back:
  "ParseMoney other (Currency m) (String_of m) = Inr (NewMoney (Currency m) (Some (rounded 2 (Rat_of m)))) \<and>
   \<bar>rounded 2 (Rat_of m) - Rat_of m\<bar> \<le> 1 / 200 \<and>
   (\<forall>n. Rat_of m = of_int n / 100 \<longrightarrow> rounded 2 (Rat_of m) = Rat_of m)"
proof -
  have "TrimSpace (String_of m) = String_of m"
    using FloatString_ends [of 2] by (intro TrimSpace_plain) (simp add: String_of_def)
  moreover have "String_of m \<noteq> []"
    by (simp add: String_of_def FloatString_shape)
  moreover have "decimal_text (String_of m) = Some (rounded 2 (Rat_of m))"
    by (simp add: String_of_def decimal_text_FloatString)
  moreover have "\<bar>rounded 2 (Rat_of m) - Rat_of m\<bar> \<le> 1 / 200"
    using rounded_near [of 2 "Rat_of m"] by simp
  moreover have "Rat_of m = of_int n / 100 \<Longrightarrow> rounded 2 (Rat_of m) = Rat_of m" for n
  proof -
    assume "Rat_of m = of_int n / 100"
    then show ?thesis using rounded_exact [of 2 n] by (simp only: power2_eq_square) simp
  qed
  ultimately show ?thesis
    by (simp add: ParseMoney_def SetString_def)
qed

theorem written_amount_reads_back_witness:
  "ParseMoney (\<lambda>s. None) ''IDR'' ''-1234.50'' = Inr (NewMoney ''IDR'' (Some (- (2469 / 2))))"
proof -
  have m: "String_of (NewMoney [] (Some (- (2469 / 2)))) = ''-1234.50''" by code_simp
  have "- (2469 / 2) = (of_int (- 123450) / 100 :: rat)" by simp
  then have "rounded 2 (- (2469 / 2)) = - (2469 / 2)"
    using written_amount_reads_back [of "\<lambda>s. None" "NewMoney [] (Some (- (2469 / 2)))"] by (metis money_simps(1) option.simps(5))
  then show ?thesis
    using written_amount_reads_back [of "\<lambda>s. None" "NewMoney [] (Some (- (2469 / 2)))"] by (simp add: m)
qed

end
