(* ===== verification/Pricing.thy ===== *)
theory Pricing
  imports Money
begin

text \<open>
  Pricing policies and charging, internal/cost/pricing.go: a policy read from its object, the
  policy in force on a day, and the bill of a division for what it requested. time.Parse for dates
  is modelled by what it accepts; the text of its error, which the message carries on with, is
  left out.
\<close>

section \<open>Dates\<close>

text \<open>\<^verbatim>\<open>time.Parse(time.DateOnly, s)\<close>: ten bytes, with a month and a day that exist.\<close>

definition number :: "string \<Rightarrow> int option" where
  "number s = (if s \<noteq> [] \<and> list_all is_digit s then Some (digits_value 0 s) else None)"

definition parse_date :: "string \<Rightarrow> time option" where
  "parse_date s =
     (if length s = 10 \<and> s ! 4 = CHR ''-'' \<and> s ! 7 = CHR ''-'' then
        (case (number (take 4 s), number (take 2 (drop 5 s)), number (drop 8 s)) of
           (Some y, Some m, Some d) \<Rightarrow>
             if 1 \<le> m \<and> m \<le> 12 \<and> 1 \<le> d \<and> d \<le> days_in_month y m then Some (make_date y m d) else None
         | _ \<Rightarrow> None)
      else None)"

section \<open>Pricing policies\<close>

datatype Resource = ResourceCPU | ResourceMemory | ResourceStorage | ResourceLoadBalancer

fun resource_text :: "Resource \<Rightarrow> string" where
  "resource_text ResourceCPU = ''cpu''"
| "resource_text ResourceMemory = ''memory''"
| "resource_text ResourceStorage = ''storage''"
| "resource_text ResourceLoadBalancer = ''loadbalancer''"

record Policy =
  pol_Name :: string
  pol_Revision :: int
  pol_Currency :: string
  CPUCore :: Money
  MemoryGi :: Money
  StorageGi :: Money
  LoadBalance :: Money
  EgressGi :: Money
  Unallocated :: UnallocatedStrategy
  pol_ApprovedBy :: string
  pol_ApprovedAt :: time
  From :: time
  To :: "time option"

definition PolicyFrom :: "(string \<Rightarrow> rat option) \<Rightarrow> PricingPolicyObject \<Rightarrow> string + Policy" where
  "PolicyFrom other p =
     (let spec = pp_Spec p; rates = pp_Rates spec;
          currency = (if pp_Currency spec = [] then ''IDR'' else pp_Currency spec);
          parse = ParseMoney other currency
      in case parse_date (EffectiveFrom spec) of
           None \<Rightarrow> Inl (''effectiveFrom '' @ quoted (EffectiveFrom spec) @ '' is not a date'')
         | Some from \<Rightarrow>
        (case (if EffectiveTo spec = [] then Inr None else
                 case parse_date (EffectiveTo spec) of
                   None \<Rightarrow> Inl (''effectiveTo '' @ quoted (EffectiveTo spec) @ '' is not a date'')
                 | Some until \<Rightarrow> Inr (Some until)) of
           Inl err \<Rightarrow> Inl err
         | Inr until \<Rightarrow>
        (case parse (CPUCoreMonth rates) of Inl err \<Rightarrow> Inl err | Inr cpu \<Rightarrow>
        (case parse (MemoryGiMonth rates) of Inl err \<Rightarrow> Inl err | Inr memory \<Rightarrow>
        (case parse (StorageGiMonth rates) of Inl err \<Rightarrow> Inl err | Inr storage \<Rightarrow>
        (case parse (LoadBalancerMonth rates) of Inl err \<Rightarrow> Inl err | Inr balancer \<Rightarrow>
        (case parse (EgressGiRate rates) of Inl err \<Rightarrow> Inl err | Inr egress \<Rightarrow>
           Inr \<lparr>pol_Name = om_Name (pp_Meta p), pol_Revision = om_Generation (pp_Meta p), pol_Currency = currency,
                CPUCore = cpu, MemoryGi = memory, StorageGi = storage, LoadBalance = balancer, EgressGi = egress,
                Unallocated = pp_Unallocated spec, pol_ApprovedBy = pp_ApprovedBy spec,
                pol_ApprovedAt = pp_ApprovedAt spec, From = from, To = until\<rparr>)))))))"

definition EffectiveOn :: "Policy \<Rightarrow> time \<Rightarrow> bool" where
  "EffectiveOn p day \<longleftrightarrow> \<not> day < From p \<and> (case To p of None \<Rightarrow> True | Some t \<Rightarrow> \<not> day > t)"

fun effective_from :: "time \<Rightarrow> Policy option \<Rightarrow> Policy list \<Rightarrow> Policy option" where
  "effective_from day chosen [] = chosen"
| "effective_from day chosen (p # ps) =
     (if \<not> EffectiveOn p day then effective_from day chosen ps
      else case chosen of
        None \<Rightarrow> effective_from day (Some p) ps
      | Some c \<Rightarrow> effective_from day (if From p > From c then Some p else Some c) ps)"

definition ErrNoPricingPolicy :: string where
  "ErrNoPricingPolicy = ''no pricing policy is effective for this period''"

definition Effective :: "Policy list \<Rightarrow> time \<Rightarrow> string + Policy" where
  "Effective policies day =
     (case effective_from day None policies of None \<Rightarrow> Inl ErrNoPricingPolicy | Some p \<Rightarrow> Inr p)"

section \<open>Charging\<close>

definition hoursPerMonth :: int where "hoursPerMonth = 730"
definition gibibyte :: int where "gibibyte = 1024 * 1024 * 1024"

record Usage =
  CPUCoreHoursRequested :: "rat option"
  CPUCoreHoursUsed :: "rat option"
  MemoryGiHoursRequested :: "rat option"
  MemoryGiHoursUsed :: "rat option"
  StorageGiHours :: "rat option"
  LoadBalancerHours :: "rat option"
  us_Window :: duration
  us_Resolution :: duration
  us_Observed :: bool

record Line =
  ln_Resource :: Resource
  ln_Quantity :: rat
  ln_Unit :: string
  ln_Rate :: Money
  ln_Amount :: Money

record Bill =
  bl_Policy :: Policy
  bl_Lines :: "Line list"
  bl_Total :: Money
  bl_Idle :: Money
  bl_Charged :: Money
  bl_Projected :: Money

definition hourly :: "Money \<Rightarrow> Money" where "hourly monthly = Times_money monthly (1 / of_int hoursPerMonth)"

definition bill_line :: "Resource \<Rightarrow> rat option \<Rightarrow> string \<Rightarrow> Money \<Rightarrow> Line" where
  "bill_line resource quantity unit rate =
     (let q = (case quantity of None \<Rightarrow> 0 | Some q \<Rightarrow> q)
      in \<lparr>ln_Resource = resource, ln_Quantity = q, ln_Unit = unit, ln_Rate = rate, ln_Amount = Times_money rate q\<rparr>)"

definition difference :: "rat option \<Rightarrow> rat option \<Rightarrow> rat" where
  "difference requested used =
     (case requested of None \<Rightarrow> 0 | Some r \<Rightarrow>
     (case used of None \<Rightarrow> r | Some u \<Rightarrow> (if r - u < 0 then 0 else r - u)))"

definition project :: "Money \<Rightarrow> duration \<Rightarrow> duration \<Rightarrow> Money" where
  "project amount elapsed period =
     (if elapsed \<le> 0 \<or> period \<le> 0 \<or> elapsed \<ge> period then amount
      else Times_money amount (of_int period / of_int elapsed))"

definition Charge :: "Policy \<Rightarrow> Usage \<Rightarrow> duration \<Rightarrow> duration \<Rightarrow> Bill" where
  "Charge policy usage elapsed period =
     (let lines = [bill_line ResourceCPU (CPUCoreHoursRequested usage) ''core-hours'' (hourly (CPUCore policy)),
                   bill_line ResourceMemory (MemoryGiHoursRequested usage) ''GiB-hours'' (hourly (MemoryGi policy)),
                   bill_line ResourceStorage (StorageGiHours usage) ''GiB-hours'' (hourly (StorageGi policy)),
                   bill_line ResourceLoadBalancer (LoadBalancerHours usage) ''hours'' (hourly (LoadBalance policy))];
          full = foldl (\<lambda>t l. Add_money t (ln_Amount l)) (NewMoney (pol_Currency policy) None) lines;
          idle = Add_money
            (Times_money (hourly (CPUCore policy)) (difference (CPUCoreHoursRequested usage) (CPUCoreHoursUsed usage)))
            (Times_money (hourly (MemoryGi policy)) (difference (MemoryGiHoursRequested usage) (MemoryGiHoursUsed usage)))
      in \<lparr>bl_Policy = policy, bl_Lines = lines, bl_Total = full, bl_Idle = idle, bl_Charged = full,
          bl_Projected = project full elapsed period\<rparr>)"


section \<open>Which rates apply\<close>

lemma effective_from_spec:
  "(case effective_from day chosen ps of
      None \<Rightarrow> chosen = None \<and> (\<forall>q \<in> set ps. \<not> EffectiveOn q day)
    | Some p \<Rightarrow> (p \<in> set ps \<and> EffectiveOn p day \<or> chosen = Some p) \<and>
        (\<forall>q \<in> set ps. EffectiveOn q day \<longrightarrow> From q \<le> From p) \<and>
        (case chosen of None \<Rightarrow> True | Some c \<Rightarrow> From c \<le> From p))"
proof (induction ps arbitrary: chosen)
  case Nil
  then show ?case by (simp split: option.splits)
next
  case (Cons p ps)
  show ?case
  proof (cases "EffectiveOn p day")
    case False
    then show ?thesis using Cons [of chosen] by (auto split: option.splits)
  next
    case True
    define c where "c = (case chosen of None \<Rightarrow> p | Some c \<Rightarrow> if From p > From c then p else c)"
    then have "effective_from day chosen (p # ps) = effective_from day (Some c) ps"
      using True by (simp split: option.splits)
    moreover have "From p \<le> From c" "c = p \<or> chosen = Some c" "case chosen of None \<Rightarrow> True | Some d \<Rightarrow> From d \<le> From c"
      by (auto simp: c_def split: option.splits)
    moreover obtain r where "effective_from day (Some c) ps = Some r" and r: "r \<in> set ps \<and> EffectiveOn r day \<or> c = r"
      and le: "\<forall>q \<in> set ps. EffectiveOn q day \<longrightarrow> From q \<le> From r" and "From c \<le> From r"
      using Cons [of "Some c"] by (cases "effective_from day (Some c) ps") auto
    moreover from r \<open>c = p \<or> chosen = Some c\<close> True have "r \<in> set (p # ps) \<and> EffectiveOn r day \<or> chosen = Some r"
      by auto
    ultimately show ?thesis
      using le by (cases chosen) auto
  qed
qed

text \<open>
  The rates of a day are those of a policy in force on that day, and of the one that started
  last; there is no answer exactly when no policy is in force.
\<close>
theorem latest_policy_in_force_applies:
  "(case Effective policies day of
      Inl err \<Rightarrow> err = ErrNoPricingPolicy \<and> (\<forall>q \<in> set policies. \<not> EffectiveOn q day)
    | Inr p \<Rightarrow> p \<in> set policies \<and> EffectiveOn p day \<and> (\<forall>q \<in> set policies. EffectiveOn q day \<longrightarrow> From q \<le> From p))"
  using effective_from_spec [where day = day and chosen = None and ps = policies]
  by (simp add: Effective_def split: option.splits)

section \<open>What a bill adds up to\<close>

definition rates_charge :: "Policy \<Rightarrow> bool" where
  "rates_charge p \<longleftrightarrow> 0 \<le> Rat_of (CPUCore p) \<and> 0 \<le> Rat_of (MemoryGi p) \<and> 0 \<le> Rat_of (StorageGi p) \<and> 0 \<le> Rat_of (LoadBalance p)"

definition quantity :: "rat option \<Rightarrow> rat" where
  "quantity q = (case q of None \<Rightarrow> 0 | Some r \<Rightarrow> r)"

definition usage_counts :: "Usage \<Rightarrow> bool" where
  "usage_counts u \<longleftrightarrow> 0 \<le> quantity (CPUCoreHoursRequested u) \<and> 0 \<le> quantity (MemoryGiHoursRequested u) \<and>
     0 \<le> quantity (StorageGiHours u) \<and> 0 \<le> quantity (LoadBalancerHours u) \<and>
     0 \<le> quantity (CPUCoreHoursUsed u) \<and> 0 \<le> quantity (MemoryGiHoursUsed u)"

lemma Rat_of_hourly [simp]: "Rat_of (hourly m) = Rat_of m / 730"
  by (simp add: hourly_def hoursPerMonth_def)

lemma difference_range:
  assumes "0 \<le> quantity q" "0 \<le> quantity u"
  shows "0 \<le> difference q u \<and> difference q u \<le> quantity q"
  using assms by (auto simp: difference_def quantity_def split: option.splits)

lemma bill_line_simps [simp]:
  "ln_Amount (bill_line r q u m) = Times_money m (quantity q)" "ln_Quantity (bill_line r q u m) = quantity q"
  "ln_Rate (bill_line r q u m) = m" "ln_Resource (bill_line r q u m) = r"
  by (simp_all add: bill_line_def quantity_def Let_def split: option.splits)

lemma project_bounds:
  assumes "0 \<le> Rat_of m"
  shows "Rat_of m \<le> Rat_of (project m elapsed period) \<and>
    (0 < elapsed \<and> elapsed < period \<longrightarrow> Rat_of (project m elapsed period) = Rat_of m * of_int period / of_int elapsed)"
  using assms by (auto simp: project_def field_simps mult_right_mono)

text \<open>
  A bill charges what was requested at the hourly share of the monthly rates: the total is the
  sum of the four lines, what was requested and not used is part of it, and the projection to the
  end of the month is in proportion to the time that has passed and never below what is charged.
\<close>
theorem bill_adds_up:
  assumes "rates_charge policy" "usage_counts usage"
  shows "let b = Charge policy usage elapsed period in
    Rat_of (bl_Total b) = sum_list (map (\<lambda>l. Rat_of (ln_Rate l) * ln_Quantity l) (bl_Lines b)) \<and>
    bl_Charged b = bl_Total b \<and>
    0 \<le> Rat_of (bl_Idle b) \<and> Rat_of (bl_Idle b) \<le> Rat_of (bl_Total b) \<and> Rat_of (bl_Total b) \<le> Rat_of (bl_Projected b) \<and>
    (0 < elapsed \<and> elapsed < period \<longrightarrow> Rat_of (bl_Projected b) = Rat_of (bl_Total b) * of_int period / of_int elapsed)"
proof -
  let ?c = "Rat_of (CPUCore policy) / 730" and ?m = "Rat_of (MemoryGi policy) / 730"
  let ?s = "Rat_of (StorageGi policy) / 730" and ?l = "Rat_of (LoadBalance policy) / 730"
  have rates: "0 \<le> ?c" "0 \<le> ?m" "0 \<le> ?s" "0 \<le> ?l"
    using assms(1) by (simp_all add: rates_charge_def)
  have d: "0 \<le> difference (CPUCoreHoursRequested usage) (CPUCoreHoursUsed usage)"
    "difference (CPUCoreHoursRequested usage) (CPUCoreHoursUsed usage) \<le> quantity (CPUCoreHoursRequested usage)"
    "0 \<le> difference (MemoryGiHoursRequested usage) (MemoryGiHoursUsed usage)"
    "difference (MemoryGiHoursRequested usage) (MemoryGiHoursUsed usage) \<le> quantity (MemoryGiHoursRequested usage)"
    using assms(2) by (simp_all add: usage_counts_def difference_range)
  have parts: "0 \<le> ?s * quantity (StorageGiHours usage)" "0 \<le> ?l * quantity (LoadBalancerHours usage)"
    using rates assms(2) by (simp_all add: usage_counts_def)
  define b where "b = Charge policy usage elapsed period"
  have total: "Rat_of (bl_Total b) = ?c * quantity (CPUCoreHoursRequested usage) + ?m * quantity (MemoryGiHoursRequested usage) +
      ?s * quantity (StorageGiHours usage) + ?l * quantity (LoadBalancerHours usage)"
    and lines: "sum_list (map (\<lambda>l. Rat_of (ln_Rate l) * ln_Quantity l) (bl_Lines b)) = Rat_of (bl_Total b)"
    and idle: "Rat_of (bl_Idle b) = ?c * difference (CPUCoreHoursRequested usage) (CPUCoreHoursUsed usage) +
      ?m * difference (MemoryGiHoursRequested usage) (MemoryGiHoursUsed usage)"
    and rest: "bl_Charged b = bl_Total b" "bl_Projected b = project (bl_Total b) elapsed period"
    by (simp_all add: b_def Charge_def Let_def)
  have "0 \<le> Rat_of (bl_Idle b)" "Rat_of (bl_Idle b) \<le> Rat_of (bl_Total b)"
    using mult_left_mono [OF d(2) rates(1)] mult_left_mono [OF d(4) rates(2)]
      mult_nonneg_nonneg [OF rates(1) d(1)] mult_nonneg_nonneg [OF rates(2) d(3)] parts
    unfolding total idle by linarith+
  with lines rest project_bounds [of "bl_Total b" elapsed period] show ?thesis
    by (simp add: b_def [symmetric] Let_def)
qed

text \<open>A policy stops to apply as its last day begins, not as it ends.\<close>

lemma last_day_is_not_covered:
  "To p = Some t \<Longrightarrow> From p \<le> t \<Longrightarrow> EffectiveOn p t \<and> (\<forall>later > t. \<not> EffectiveOn p later)"
  by (auto simp: EffectiveOn_def)

section \<open>Dates read and shown\<close>

lemma digits_value_range: "list_all is_digit s \<Longrightarrow> 0 \<le> digits_value 0 s \<and> digits_value 0 s < 10 ^ length s"
proof (induction s rule: rev_induct)
  case Nil
  then show ?case by simp
next
  case (snoc c s)
  then have "0 \<le> digit_value c" "digit_value c \<le> 9"
    by (auto simp: is_digit_def digit_value_def)
  with snoc show ?case by (auto simp: digits_value_append)
qed

lemma digit_of_value: "is_digit c \<Longrightarrow> digit (nat (digit_value c)) = c"
  by (auto simp: is_digit_def digit_value_def digit_def nat_diff_distrib' char_of_eq_iff)

lemma show_nat_digits_value:
  assumes "list_all is_digit s" "s \<noteq> []"
  shows "pad (length s) (show_nat (nat (digits_value 0 s))) = s"
  using assms
proof (induction s rule: rev_induct)
  case Nil
  then show ?case by simp
next
  case (snoc c s)
  let ?v = "digits_value 0 s"
  have c: "0 \<le> digit_value c" "digit_value c \<le> 9" "is_digit c"
    using snoc.prems by (auto simp: is_digit_def digit_value_def)
  have v: "0 \<le> ?v" using digits_value_range snoc.prems by simp
  have n: "nat (digits_value 0 (s @ [c])) = 10 * nat ?v + nat (digit_value c)"
    using v c by (simp add: digits_value_append nat_add_distrib nat_mult_distrib)
  show ?case
  proof (cases "s = []")
    case True
    then show ?thesis using c by (simp add: show_nat.simps digit_of_value)
  next
    case False
    with snoc have IH: "replicate (length s - length (show_nat (nat ?v))) (CHR ''0'') @ show_nat (nat ?v) = s" by simp
    show ?thesis
    proof (cases "?v = 0")
      case True
      then have "show_nat (nat ?v) = ''0''" by (simp add: show_nat_0)
      with IH have "replicate (length s) (CHR ''0'') = s"
        using False by (cases s) (simp_all add: replicate_append_same)
      moreover have "show_nat (nat (digits_value 0 (s @ [c]))) = [c]"
        using n True c by (subst show_nat.simps) (simp add: digit_of_value)
      ultimately show ?thesis by simp
    next
      case False
      with v have "10 \<le> 10 * nat ?v + nat (digit_value c)" by simp
      moreover have "(10 * nat ?v + nat (digit_value c)) div 10 = nat ?v" "(10 * nat ?v + nat (digit_value c)) mod 10 = nat (digit_value c)"
        using c by simp_all
      ultimately have "show_nat (nat (digits_value 0 (s @ [c]))) = show_nat (nat ?v) @ [c]"
        unfolding n using c by (subst show_nat.simps) (simp add: digit_of_value)
      with IH show ?thesis by simp
    qed
  qed
qed


text \<open>
  A date that is read is shown as it was written: only dates in the form year, month, day with
  all their digits and a day that exists are read at all, so the day a policy starts on is shown as
  the very text of the policy.
\<close>
theorem policy_dates_are_shown_as_written:
  assumes "PolicyFrom other p = Inr policy"
  shows "show_date (From policy) = EffectiveFrom (pp_Spec p) \<and>
    (case To policy of None \<Rightarrow> EffectiveTo (pp_Spec p) = [] | Some t \<Rightarrow> show_date t = EffectiveTo (pp_Spec p) \<and> EffectiveTo (pp_Spec p) \<noteq> [])"
proof -
  have date: "show_date t = s" if read: "parse_date s = Some t" for s t
  proof -
    obtain y m d where l: "length s = 10" "s ! 4 = CHR ''-''" "s ! 7 = CHR ''-''"
      and n: "number (take 4 s) = Some y" "number (take 2 (drop 5 s)) = Some m" "number (drop 8 s) = Some d"
      and r: "1 \<le> m" "m \<le> 12" "1 \<le> d" "d \<le> days_in_month y m" and t: "t = make_date y m d"
    proof -
      have "length s = 10 \<and> s ! 4 = CHR ''-'' \<and> s ! 7 = CHR ''-''"
        using read by (metis parse_date_def option.distinct(1))
      moreover from this read obtain y m d where
        "number (take 4 s) = Some y" "number (take 2 (drop 5 s)) = Some m" "number (drop 8 s) = Some d"
        "(if 1 \<le> m \<and> m \<le> 12 \<and> 1 \<le> d \<and> d \<le> days_in_month y m then Some (make_date y m d) else None) = Some t"
        by (simp add: parse_date_def split: option.split_asm)
      ultimately show thesis using that by (metis option.distinct(1) option.inject)
    qed
    have shown: "list_all is_digit u \<and> pad (length u) (show_nat (nat k)) = u \<and> 0 \<le> k" if "number u = Some k" for u k
      using that show_nat_digits_value [of u] digits_value_range [of u] by (auto simp: number_def split: if_splits)
    have parts: "pad 4 (show_nat (nat y)) = take 4 s" "pad 2 (show_nat (nat m)) = take 2 (drop 5 s)" "pad 2 (show_nat (nat d)) = drop 8 s" "0 \<le> y"
      using shown [OF n(1)] shown [OF n(2)] shown [OF n(3)] l(1) by simp_all
    obtain c0 c1 c2 c3 c4 c5 c6 c7 c8 c9 where s: "s = [c0, c1, c2, c3, c4, c5, c6, c7, c8, c9]"
      using l(1) by (auto simp: eval_nat_numeral length_Suc_conv)
    have "s = take 4 s @ ''-'' @ take 2 (drop 5 s) @ ''-'' @ drop 8 s"
      using l(2,3) by (simp add: s)
    moreover have "date_of_time t = (y, m, d)"
      using date_of_days_of_date [OF r] r by (simp add: t make_date_def date_of_time_def day_length_def hour_def)
    ultimately show ?thesis
      using parts l by (simp add: show_date_def del: pad.simps)
  qed
  show ?thesis
    using assms by (auto simp: PolicyFrom_def Let_def date split: option.splits sum.splits if_splits) (metis)+
qed


definition example_object :: "string \<Rightarrow> string \<Rightarrow> PricingPolicyObject" where
  "example_object from until =
     \<lparr>pp_Meta = (example_meta\<lparr>om_Name := ''rates'', om_Generation := 3\<rparr>),
      pp_Spec = \<lparr>pp_Currency = [], pp_Rates = \<lparr>CPUCoreMonth = ''73'', MemoryGiMonth = ''7.30'', StorageGiMonth = [],
          LoadBalancerMonth = [], EgressGiRate = []\<rparr>,
        EffectiveFrom = from, EffectiveTo = until, pp_Unallocated = UnallocatedPlatform,
        pp_ApprovedBy = ''finance'', pp_ApprovedAt = 0\<rparr>\<rparr>"

definition example_policy :: Policy where
  "example_policy =
     \<lparr>pol_Name = ''rates'', pol_Revision = 3, pol_Currency = ''IDR'', CPUCore = NewMoney ''IDR'' (Some 73),
      MemoryGi = NewMoney ''IDR'' (Some (73 / 10)), StorageGi = NewMoney ''IDR'' None, LoadBalance = NewMoney ''IDR'' None,
      EgressGi = NewMoney ''IDR'' None, Unallocated = UnallocatedPlatform, pol_ApprovedBy = ''finance'', pol_ApprovedAt = 0,
      From = make_date 2024 1 1, To = None\<rparr>"

lemma example_parse: "parse_date ''2024-01-01'' = Some (make_date 2024 1 1)" "parse_date ''2024-02-30'' = None"
  by code_simp+

lemma example_policy_from: "PolicyFrom (\<lambda>s. None) (example_object ''2024-01-01'' []) = Inr example_policy"
proof -
  have "TrimSpace ''73'' = ''73''" "TrimSpace ''7.30'' = ''7.30''" "TrimSpace [] = []"
    by (simp_all add: TrimSpace_plain) (simp add: TrimSpace_def strip_plain)
  moreover have "decimal_text ''73'' = Some 73" "decimal_text ''7.30'' = Some (73 / 10)"
    by code_simp+
  ultimately show ?thesis
    by (simp add: PolicyFrom_def example_object_def example_policy_def example_parse ParseMoney_def SetString_def example_meta_def Let_def)
qed

theorem policy_dates_are_shown_as_written_witness: "show_date (From example_policy) = ''2024-01-01''"
  using policy_dates_are_shown_as_written [OF example_policy_from] by (simp add: example_object_def)

definition example_usage :: Usage where
  "example_usage = \<lparr>CPUCoreHoursRequested = Some 20, CPUCoreHoursUsed = Some 5, MemoryGiHoursRequested = Some 100,
     MemoryGiHoursUsed = Some 120, StorageGiHours = Some 0, LoadBalancerHours = None, us_Window = 240 * hour,
     us_Resolution = hour, us_Observed = True\<rparr>"

theorem bill_adds_up_witness:
  "Rat_of (bl_Total (Charge example_policy example_usage (10 * hour) (31 * 24 * hour))) = 3 \<and>
   Rat_of (bl_Idle (Charge example_policy example_usage (10 * hour) (31 * 24 * hour))) \<le> 3"
proof -
  have "rates_charge example_policy" "usage_counts example_usage"
    by (simp_all add: rates_charge_def usage_counts_def example_policy_def example_usage_def quantity_def)
  note bill_adds_up [OF this, of "10 * hour" "31 * 24 * hour", unfolded Let_def]
  moreover have "Rat_of (bl_Total (Charge example_policy example_usage (10 * hour) (31 * 24 * hour))) = 3"
    by (simp add: Charge_def example_policy_def example_usage_def Let_def quantity_def)
  ultimately show ?thesis by simp
qed

theorem latest_policy_in_force_applies_witness:
  "Effective [example_policy, example_policy\<lparr>pol_Name := ''later'', From := make_date 2024 2 1\<rparr>] (make_date 2024 2 5) =
    Inr (example_policy\<lparr>pol_Name := ''later'', From := make_date 2024 2 1\<rparr>) \<and> EffectiveOn example_policy (make_date 2024 2 5)"
proof -
  have d: "make_date 2024 1 1 < make_date 2024 2 5" "make_date 2024 2 1 < make_date 2024 2 5" "make_date 2024 1 1 < make_date 2024 2 1"
    by code_simp+
  then have "Effective [example_policy, example_policy\<lparr>pol_Name := ''later'', From := make_date 2024 2 1\<rparr>] (make_date 2024 2 5) =
    Inr (example_policy\<lparr>pol_Name := ''later'', From := make_date 2024 2 1\<rparr>)"
    by (simp add: Effective_def EffectiveOn_def example_policy_def)
  with latest_policy_in_force_applies [of "[example_policy, example_policy\<lparr>pol_Name := ''later'', From := make_date 2024 2 1\<rparr>]" "make_date 2024 2 5"] d
  show ?thesis by (simp add: EffectiveOn_def example_policy_def)
qed

end
