(* ===== verification/Invoice.thy ===== *)
theory Invoice
  imports Pricing "HOL-Library.Char_ord" "HOL-Library.List_Lexorder" "HOL-Library.Product_Lexorder" "HOL-Library.Multiset"
begin

text \<open>
  Invoices, internal/cost/invoice.go: the month to bill, the charges of a division for what its
  workloads request, the invoice they add up to, and the digest over its inputs. SHA-256 is an
  argument.
\<close>

section \<open>Periods\<close>

record Period =
  Start :: time
  End :: time

text \<open>The clock is read in UTC.\<close>

definition MonthBefore :: "time \<Rightarrow> Period" where
  "MonthBefore now =
     (case date_of_time now of (y, m, d) \<Rightarrow>
        let firstOfThis = make_date y m 1 in \<lparr>Start = add_date firstOfThis 0 (- 1) 0, End = firstOfThis\<rparr>)"

definition Over :: "Period \<Rightarrow> time \<Rightarrow> bool" where "Over p now \<longleftrightarrow> \<not> now < End p"

definition period_Hours :: "Period \<Rightarrow> rat" where "period_Hours p = Hours (time_sub (End p) (Start p))"

definition period_text :: "Period \<Rightarrow> string" where "period_text p = show_date (Start p) @ ''/'' @ show_date (End p)"

section \<open>Generating an invoice\<close>

record Chargeable =
  ch_WorkloadUID :: string
  ch_WorkloadLabel :: string
  ch_Resource :: Resource
  ch_Quantity :: rat
  ch_Unit :: string
  ch_Rate :: Money

record InvoiceItem =
  it_Number :: int
  it_WorkloadUID :: string
  it_WorkloadLabel :: string
  it_Resource :: Resource
  it_Quantity :: rat
  it_Unit :: string
  it_Rate :: Money
  it_Amount :: Money

record Invoice =
  iv_UID :: string
  iv_Division :: string
  iv_PeriodStart :: time
  iv_PeriodEnd :: time
  iv_PolicyName :: string
  iv_PolicyRevision :: int
  iv_Currency :: string
  iv_Subtotal :: Money
  iv_UnallocatedShare :: Money
  iv_Total :: Money
  iv_Lines :: "InvoiceItem list"
  iv_InputsDigest :: string
  iv_GeneratedAt :: time

datatype InvoiceError = ErrPeriodNotOver string | ErrNoPolicy string

definition line_text :: "InvoiceItem \<Rightarrow> string" where
  "line_text l = ''line='' @ show_int (it_Number l) @ ''|'' @ it_WorkloadLabel l @ ''|'' @ resource_text (it_Resource l) @ ''|'' @
     RatString (it_Quantity l) @ ''|'' @ it_Unit l @ ''|'' @ String_of (it_Rate l) @ ''|'' @ String_of (it_Amount l) @ [CHR 0x0A]"

definition digest_text :: "Invoice \<Rightarrow> string" where
  "digest_text i =
     ''division='' @ iv_Division i @ [CHR 0x0A] @
     ''period='' @ rfc3339 (iv_PeriodStart i) @ ''/'' @ rfc3339 (iv_PeriodEnd i) @ [CHR 0x0A] @
     ''policy='' @ iv_PolicyName i @ ''@'' @ show_int (iv_PolicyRevision i) @ [CHR 0x0A] @
     ''currency='' @ iv_Currency i @ [CHR 0x0A] @
     concat (map line_text (iv_Lines i)) @
     ''unallocated='' @ String_of (iv_UnallocatedShare i) @ [CHR 0x0A] @
     ''total='' @ String_of (iv_Total i) @ [CHR 0x0A]"

definition invoice_digest :: "(string \<Rightarrow> string) \<Rightarrow> Invoice \<Rightarrow> string" where
  "invoice_digest sha i = sha (digest_text i)"

text \<open>The order of the lines: by workload, then by resource, as byte strings; the sort is stable.\<close>

definition charge_key :: "Chargeable \<Rightarrow> string \<times> string" where
  "charge_key c = (ch_WorkloadLabel c, resource_text (ch_Resource c))"

fun invoice_lines :: "int \<Rightarrow> Chargeable list \<Rightarrow> InvoiceItem list" where
  "invoice_lines n [] = []"
| "invoice_lines n (c # cs) =
     \<lparr>it_Number = n + 1, it_WorkloadUID = ch_WorkloadUID c, it_WorkloadLabel = ch_WorkloadLabel c,
      it_Resource = ch_Resource c, it_Quantity = ch_Quantity c, it_Unit = ch_Unit c, it_Rate = ch_Rate c,
      it_Amount = Times_money (ch_Rate c) (ch_Quantity c)\<rparr> # invoice_lines (n + 1) cs"

definition GenerateInvoice ::
  "(string \<Rightarrow> string) \<Rightarrow> string \<Rightarrow> Period \<Rightarrow> Policy \<Rightarrow> Chargeable list \<Rightarrow> Money \<Rightarrow> time \<Rightarrow> InvoiceError + Invoice" where
  "GenerateInvoice sha division period policy charges unallocated now =
     (if \<not> Over period now then Inl (ErrPeriodNotOver (period_text period))
      else if pol_Name policy = [] then Inl (ErrNoPolicy (period_text period))
      else
        (let lines = invoice_lines 0 (sort_key charge_key charges);
             subtotal = foldl (\<lambda>t l. Add_money t (it_Amount l)) (NewMoney (pol_Currency policy) None) lines;
             invoice = \<lparr>iv_UID = [], iv_Division = division, iv_PeriodStart = Start period, iv_PeriodEnd = End period,
               iv_PolicyName = pol_Name policy, iv_PolicyRevision = pol_Revision policy, iv_Currency = pol_Currency policy,
               iv_Subtotal = subtotal, iv_UnallocatedShare = unallocated, iv_Total = Add_money subtotal unallocated,
               iv_Lines = lines, iv_InputsDigest = [], iv_GeneratedAt = now\<rparr>
         in Inr (invoice\<lparr>iv_InputsDigest := invoice_digest sha invoice\<rparr>)))"

definition Reproduces :: "Invoice \<Rightarrow> Invoice \<Rightarrow> bool" where
  "Reproduces i other \<longleftrightarrow> iv_InputsDigest i \<noteq> [] \<and> iv_InputsDigest other \<noteq> [] \<and> iv_InputsDigest i = iv_InputsDigest other"

record WorkloadRequest =
  wl_UID :: string
  wl_Namespace :: string
  wl_Name :: string
  wl_CPUMillicores :: int
  wl_MemoryBytes :: int

definition workload_charges :: "rat \<Rightarrow> Money \<Rightarrow> Money \<Rightarrow> WorkloadRequest \<Rightarrow> Chargeable list" where
  "workload_charges hours hourlyCPU hourlyMemory w =
     (let label = wl_Namespace w @ ''/'' @ wl_Name w
      in (if wl_CPUMillicores w > 0
          then [\<lparr>ch_WorkloadUID = wl_UID w, ch_WorkloadLabel = label, ch_Resource = ResourceCPU,
                 ch_Quantity = Ratio (wl_CPUMillicores w) 1000 * hours, ch_Unit = ''core-hour'', ch_Rate = hourlyCPU\<rparr>] else []) @
         (if wl_MemoryBytes w > 0
          then [\<lparr>ch_WorkloadUID = wl_UID w, ch_WorkloadLabel = label, ch_Resource = ResourceMemory,
                 ch_Quantity = Ratio (wl_MemoryBytes w) gibibyte * hours, ch_Unit = ''gibibyte-hour'', ch_Rate = hourlyMemory\<rparr>] else []))"

definition ChargesFor :: "WorkloadRequest list \<Rightarrow> Period \<Rightarrow> Policy \<Rightarrow> Chargeable list" where
  "ChargesFor requested period policy =
     concat (map (workload_charges (period_Hours period) (hourly (CPUCore policy)) (hourly (MemoryGi policy))) requested)"


section \<open>An invoice follows from what was requested, not from the order it was listed in\<close>

definition workload_label :: "WorkloadRequest \<Rightarrow> string" where
  "workload_label w = wl_Namespace w @ ''/'' @ wl_Name w"

lemma workload_charges_keys:
  "map charge_key (workload_charges h c m w) =
     (if wl_CPUMillicores w > 0 then [(workload_label w, ''cpu'')] else []) @
     (if wl_MemoryBytes w > 0 then [(workload_label w, ''memory'')] else [])"
  by (simp add: workload_charges_def charge_key_def workload_label_def Let_def)

lemma charges_keys_labels: "(l, r) \<in> charge_key ` set (concat (map (workload_charges h c m) ws)) \<Longrightarrow> l \<in> workload_label ` set ws"
proof -
  assume "(l, r) \<in> charge_key ` set (concat (map (workload_charges h c m) ws))"
  then obtain w where "w \<in> set ws" "(l, r) \<in> set (map charge_key (workload_charges h c m w))" by auto
  then show ?thesis by (auto simp: workload_charges_keys split: if_splits)
qed

lemma charges_keys_distinct:
  assumes "distinct (map workload_label ws)"
  shows "distinct (map charge_key (concat (map (workload_charges h c m) ws)))"
  using assms
proof (induction ws)
  case Nil
  then show ?case by simp
next
  case (Cons w ws)
  have "fst k = workload_label w" if "k \<in> charge_key ` set (workload_charges h c m w)" for k
    using that workload_charges_keys [of h c m w] by (auto split: if_splits simp flip: set_map)
  moreover have "distinct (map charge_key (workload_charges h c m w))"
    by (simp only: workload_charges_keys) simp
  moreover have "workload_label w \<notin> workload_label ` set ws" using Cons.prems by simp
  ultimately have "charge_key ` set (workload_charges h c m w) \<inter> charge_key ` set (concat (map (workload_charges h c m) ws)) = {}"
    using charges_keys_labels by (metis (no_types, opaque_lifting) disjoint_iff prod.collapse)
  with Cons \<open>distinct (map charge_key (workload_charges h c m w))\<close> show ?case by simp
qed

lemma sort_key_determined:
  fixes f :: "'a \<Rightarrow> 'b :: linorder"
  assumes "mset xs = mset ys" "distinct (map f xs)"
  shows "sort_key f xs = sort_key f ys"
proof (rule map_sorted_distinct_set_unique)
  have d: "distinct (map f zs)" if "mset zs = mset xs" for zs
    using that assms(2) by (metis mset_map mset_eq_imp_distinct_iff)
  show "distinct (map f (sort_key f xs))" "distinct (map f (sort_key f ys))"
    using assms(1) by (simp_all add: d)
  show "set (sort_key f xs) = set (sort_key f ys)"
    using assms(1) by (metis mset_eq_setD set_sort)
  show "inj_on f (set (sort_key f xs) \<union> set (sort_key f ys))"
    using assms by (metis Un_absorb distinct_map mset_eq_setD set_sort)
qed simp_all

lemma mset_concat_map: "mset (concat (map f xs)) = (\<Sum>x \<in># mset xs. mset (f x))"
  by (induction xs) simp_all


section \<open>What an invoice adds up to\<close>

lemma foldl_Add_money:
  "Rat_of (foldl (\<lambda>t l. Add_money t (f l)) m ls) = Rat_of m + sum_list (map (\<lambda>l. Rat_of (f l)) ls)"
  by (induction ls arbitrary: m) (simp_all add: add.assoc)

lemma invoice_lines_map:
  "map it_Number (invoice_lines n cs) = map (\<lambda>k. n + 1 + int k) [0..<length cs]"
  "list_all2 (\<lambda>l c. it_Resource l = ch_Resource c \<and> it_WorkloadLabel l = ch_WorkloadLabel c \<and> it_Quantity l = ch_Quantity c \<and>
     it_Rate l = ch_Rate c \<and> Rat_of (it_Amount l) = Rat_of (ch_Rate c) * ch_Quantity c) (invoice_lines n cs) cs"
  by (induction n cs rule: invoice_lines.induct) (simp_all add: map_upt_Suc algebra_simps del: upt_Suc)

lemma GenerateInvoice_cases:
  "now < End period \<and> GenerateInvoice sha division period policy charges unallocated now = Inl (ErrPeriodNotOver (period_text period)) \<or>
   End period \<le> now \<and> pol_Name policy = [] \<and>
     GenerateInvoice sha division period policy charges unallocated now = Inl (ErrNoPolicy (period_text period)) \<or>
   (\<exists>i. End period \<le> now \<and> pol_Name policy \<noteq> [] \<and> GenerateInvoice sha division period policy charges unallocated now = Inr i \<and>
     iv_Lines i = invoice_lines 0 (sort_key charge_key charges) \<and> iv_PolicyName i = pol_Name policy \<and>
     iv_PolicyRevision i = pol_Revision policy \<and> iv_PeriodStart i = Start period \<and> iv_PeriodEnd i = End period \<and>
     Rat_of (iv_Subtotal i) = sum_list (map (\<lambda>l. Rat_of (it_Amount l)) (iv_Lines i)) \<and>
     Rat_of (iv_Total i) = Rat_of (iv_Subtotal i) + Rat_of unallocated \<and> iv_UnallocatedShare i = unallocated \<and>
     iv_UID i = [] \<and> iv_Division i = division \<and> iv_GeneratedAt i = now \<and> iv_InputsDigest i = sha (digest_text i))"
  by (cases "now < End period"; cases "pol_Name policy = []")
    (simp_all add: GenerateInvoice_def Over_def Let_def foldl_Add_money invoice_digest_def digest_text_def)

text \<open>
  An invoice is made only for a period that is over and under a policy with a name. Its lines
  are the charges, each once, in the order of workload and resource and numbered from one; every
  amount is the rate times the quantity, the subtotal is the sum of the amounts, and the total adds
  the unallocated share.
\<close>
theorem invoice_is_the_sum_of_its_charges:
  "(case GenerateInvoice sha division period policy charges unallocated now of
      Inl (ErrPeriodNotOver t) \<Rightarrow> now < End period \<and> t = period_text period
    | Inl (ErrNoPolicy t) \<Rightarrow> End period \<le> now \<and> pol_Name policy = [] \<and> t = period_text period
    | Inr i \<Rightarrow> End period \<le> now \<and> pol_Name policy \<noteq> [] \<and> iv_PolicyName i = pol_Name policy \<and>
        iv_PolicyRevision i = pol_Revision policy \<and> iv_PeriodStart i = Start period \<and> iv_PeriodEnd i = End period \<and>
        map it_Number (iv_Lines i) = map (\<lambda>k. 1 + int k) [0..<length charges] \<and>
        sorted (map (\<lambda>l. (it_WorkloadLabel l, resource_text (it_Resource l))) (iv_Lines i)) \<and>
        mset (map (\<lambda>l. (it_WorkloadLabel l, it_Resource l, Rat_of (it_Amount l))) (iv_Lines i)) =
          mset (map (\<lambda>c. (ch_WorkloadLabel c, ch_Resource c, Rat_of (ch_Rate c) * ch_Quantity c)) charges) \<and>
        Rat_of (iv_Subtotal i) = sum_list (map (\<lambda>c. Rat_of (ch_Rate c) * ch_Quantity c) charges) \<and>
        Rat_of (iv_Total i) = Rat_of (iv_Subtotal i) + Rat_of unallocated)"
proof -
  let ?cs = "sort_key charge_key charges" and ?ls = "invoice_lines 0 (sort_key charge_key charges)"
  have amounts: "map (\<lambda>l. (it_WorkloadLabel l, it_Resource l, Rat_of (it_Amount l))) ?ls =
      map (\<lambda>c. (ch_WorkloadLabel c, ch_Resource c, Rat_of (ch_Rate c) * ch_Quantity c)) ?cs"
    and keys: "map (\<lambda>l. (it_WorkloadLabel l, resource_text (it_Resource l))) ?ls = map charge_key ?cs"
    using invoice_lines_map(2) [of 0 ?cs]
    by (auto simp: list_all2_conv_all_nth list_eq_iff_nth_eq charge_key_def)
  have "map (\<lambda>l. Rat_of (it_Amount l)) ?ls = map (\<lambda>c. Rat_of (ch_Rate c) * ch_Quantity c) ?cs"
    using arg_cong [OF amounts, of "map (\<lambda>(a, b, c). c)"] by (simp add: comp_def)
  then have "sum_list (map (\<lambda>l. Rat_of (it_Amount l)) ?ls) = sum_list (map (\<lambda>c. Rat_of (ch_Rate c) * ch_Quantity c) charges)"
    by (simp only: sum_mset_sum_list [symmetric] mset_map mset_sort)
  moreover have "sorted (map (\<lambda>l. (it_WorkloadLabel l, resource_text (it_Resource l))) ?ls)"
    unfolding keys by (rule sorted_sort_key)
  moreover have "mset (map (\<lambda>l. (it_WorkloadLabel l, it_Resource l, Rat_of (it_Amount l))) ?ls) =
      mset (map (\<lambda>c. (ch_WorkloadLabel c, ch_Resource c, Rat_of (ch_Rate c) * ch_Quantity c)) charges)"
    unfolding amounts by simp
  moreover have "map it_Number ?ls = map (\<lambda>k. 1 + int k) [0..<length charges]"
    using invoice_lines_map(1) [of 0 ?cs] by simp
  moreover note GenerateInvoice_cases [where sha = sha and division = division and period = period and policy = policy and charges = charges and unallocated = unallocated and now = now]
  ultimately show ?thesis
  proof (elim disjE exE conjE)
    fix i
    assume g: "GenerateInvoice sha division period policy charges unallocated now = Inr i"
      and l: "iv_Lines i = ?ls" and "Rat_of (iv_Subtotal i) = sum_list (map (\<lambda>l. Rat_of (it_Amount l)) (iv_Lines i))"
      and "End period \<le> now" "pol_Name policy \<noteq> []" "iv_PolicyName i = pol_Name policy" "iv_PolicyRevision i = pol_Revision policy"
        "iv_PeriodStart i = Start period" "iv_PeriodEnd i = End period" "Rat_of (iv_Total i) = Rat_of (iv_Subtotal i) + Rat_of unallocated"
      and facts: "sum_list (map (\<lambda>l. Rat_of (it_Amount l)) ?ls) = sum_list (map (\<lambda>c. Rat_of (ch_Rate c) * ch_Quantity c) charges)"
        "sorted (map (\<lambda>l. (it_WorkloadLabel l, resource_text (it_Resource l))) ?ls)"
        "mset (map (\<lambda>l. (it_WorkloadLabel l, it_Resource l, Rat_of (it_Amount l))) ?ls) =
          mset (map (\<lambda>c. (ch_WorkloadLabel c, ch_Resource c, Rat_of (ch_Rate c) * ch_Quantity c)) charges)"
        "map it_Number ?ls = map (\<lambda>k. 1 + int k) [0..<length charges]"
    then have sub: "Rat_of (iv_Subtotal i) = sum_list (map (\<lambda>c. Rat_of (ch_Rate c) * ch_Quantity c) charges)" by (simp only:)
    show ?thesis unfolding g sum.case l by (intro conjI facts sub; fact)
  next
    assume "now < End period" and g: "GenerateInvoice sha division period policy charges unallocated now = Inl (ErrPeriodNotOver (period_text period))"
    then show ?thesis unfolding g by simp
  next
    assume "End period \<le> now" "pol_Name policy = []"
      and g: "GenerateInvoice sha division period policy charges unallocated now = Inl (ErrNoPolicy (period_text period))"
    then show ?thesis unfolding g by simp
  qed
qed

section \<open>The month that ended\<close>

text \<open>
  The month to be billed is the whole calendar month before the current one: it begins on the
  first day of that month, ends as the current month begins, is over at the time it is asked for,
  and has between 28 and 31 days.
\<close>
theorem billed_month_is_the_whole_month_before:
  assumes "date_of_time now = (y, m, d)"
  shows "let p = MonthBefore now in Over p now \<and>
    date_of_time (End p) = (y, m, 1) \<and> date_of_time (Start p) = (if m = 1 then (y - 1, 12, 1) else (y, m - 1, 1)) \<and>
    28 * day_length \<le> End p - Start p \<and> End p - Start p \<le> 31 * day_length \<and> now - End p < 31 * day_length"
proof -
  from assms have d: "date_of_days (now div day_length) = (y, m, d)" by (simp add: date_of_time_def)
  note n = days_of_date_of_days [OF d] and dm = day_in_month [OF d]
  define y' m' where "y' = (if m = 1 then y - 1 else y)" and "m' = (if m = 1 then 12 else m - 1)"
  have mr: "1 \<le> m" "m \<le> 12" "1 \<le> m'" "m' \<le> 12" using n by (auto simp: m'_def)
  note before = first_of_month_before [OF mr(1,2), of y, folded y'_def m'_def]
  have p: "MonthBefore now = \<lparr>Start = make_date y' m' 1, End = make_date y m 1\<rparr>"
    using assms before(1) by (simp add: MonthBefore_def)
  define D q r where "D = days_of_date y m 1" and "q = now div day_length" and "r = now mod day_length"
  have now: "now = day_length * q + r" "0 \<le> r" "r < day_length"
    by (simp_all add: q_def r_def day_length_def hour_def)
  have q: "q = D + (d - 1)"
    using n by (simp add: q_def D_def days_of_date_def)
  have e: "make_date y m 1 = day_length * D"
    using mr by (simp add: make_date_def D_def)
  have "0 \<le> d - 1" "d - 1 \<le> 30" using n dm days_in_month_range [OF mr(1,2), of y] by simp_all
  then have "0 \<le> day_length * (d - 1)" "day_length * (d - 1) \<le> day_length * 30"
    by (simp_all add: day_length_def hour_def)
  then have "day_length * D \<le> day_length * D + day_length * (d - 1) + r"
    "day_length * D + day_length * (d - 1) + r - day_length * D < 31 * day_length"
    using now(2,3) by linarith+
  moreover have "now = day_length * D + day_length * (d - 1) + r"
    unfolding now(1) q by (simp only: distrib_left)
  ultimately have "make_date y m 1 \<le> now" "now - make_date y m 1 < 31 * day_length"
    unfolding e by simp_all
  moreover have len: "28 * day_length \<le> make_date y m 1 - make_date y' m' 1" "make_date y m 1 - make_date y' m' 1 \<le> 31 * day_length"
    using before(2) days_in_month_range [OF mr(3,4), of y'] by (simp_all add: day_length_def hour_def)
  ultimately show ?thesis
    using date_of_first [OF mr(1,2), of y] date_of_first [OF mr(3,4), of y'] len
    by (simp add: p Over_def y'_def m'_def split: if_splits)
qed


definition example_workloads :: "WorkloadRequest list" where
  "example_workloads =
     [\<lparr>wl_UID = ''w1'', wl_Namespace = ''dev'', wl_Name = ''web'', wl_CPUMillicores = 500, wl_MemoryBytes = 1073741824\<rparr>,
      \<lparr>wl_UID = ''w2'', wl_Namespace = ''dev'', wl_Name = ''api'', wl_CPUMillicores = 2000, wl_MemoryBytes = 0\<rparr>]"

definition january :: Period where
  "january = \<lparr>Start = make_date 2024 1 1, End = make_date 2024 2 1\<rparr>"


theorem billed_month_is_the_whole_month_before_witness:
  "MonthBefore (make_date 2024 3 15 + hour) = \<lparr>Start = make_date 2024 2 1, End = make_date 2024 3 1\<rparr> \<and>
   Over (MonthBefore (make_date 2024 3 15 + hour)) (make_date 2024 3 15 + hour)"
proof -
  have days: "days_of_date 2024 3 15 = 738959" "days_of_date 2024 3 1 = 738945" "days_of_date 2024 2 1 = 738916" "days_in_month 2024 3 = 31"
    by (simp_all add: days_of_date_def days_before_year_def days_before_month_def is_leap_def days_in_month_def)
  have d: "date_of_time (make_date 2024 3 15 + hour) = (2024, 3, 15)"
    using date_of_days_of_date [of 3 15 2024] by (simp add: make_date_def date_of_time_def day_length_def hour_def days)
  moreover have "MonthBefore (make_date 2024 3 15 + hour) = \<lparr>Start = make_date 2024 2 1, End = make_date 2024 3 1\<rparr>"
    using first_of_month_before(1) [of 3 2024] by (simp add: MonthBefore_def d)
  ultimately show ?thesis
    using billed_month_is_the_whole_month_before [OF d] by (simp add: Let_def)
qed

end
