(* ===== verification/Tables.thy ===== *)
theory Tables
  imports Main
begin

text \<open>
  Tables with a key, as lists of rows in the order of the heap: the row under a key, the upsert of SQL
  and what it keeps. Shared by the stores of the invoices and of the divisions.
\<close>

section \<open>Rows under a key\<close>

definition row_by :: "('a \<Rightarrow> 'k) \<Rightarrow> 'k \<Rightarrow> 'a list \<Rightarrow> 'a option" where
  "row_by key k rows = find (\<lambda>r. key r = k) rows"

text \<open>INSERT with ON CONFLICT (key) DO UPDATE.\<close>

definition upsert_by :: "('a \<Rightarrow> 'k) \<Rightarrow> 'a \<Rightarrow> ('a \<Rightarrow> 'a) \<Rightarrow> 'a list \<Rightarrow> 'a list" where
  "upsert_by key new update rows =
     (if key new \<in> set (map key rows) then map (\<lambda>r. if key r = key new then update r else r) rows else rows @ [new])"

lemma row_by_simps [simp]:
  "row_by key k [] = None" "row_by key k (r # rows) = (if key r = k then Some r else row_by key k rows)"
  by (simp_all add: row_by_def)

lemma row_by_append: "row_by key k (xs @ ys) = (case row_by key k xs of None \<Rightarrow> row_by key k ys | Some r \<Rightarrow> Some r)"
  by (induction xs) auto

lemma row_by_Some: "row_by key k rows = Some r \<Longrightarrow> r \<in> set rows \<and> key r = k"
  by (induction rows) (auto split: if_splits)

lemma row_by_None: "row_by key k rows = None \<longleftrightarrow> k \<notin> key ` set rows"
  by (induction rows) auto

lemma row_by_unique: "distinct (map key rows) \<Longrightarrow> r \<in> set rows \<Longrightarrow> row_by key (key r) rows = Some r"
  by (induction rows) (auto simp: image_iff)

lemma upsert_by_keys:
  assumes "\<And>r. key r = key new \<Longrightarrow> key (update r) = key new"
  shows "map key (upsert_by key new update rows) = (if key new \<in> set (map key rows) then map key rows else map key rows @ [key new])"
  using assms by (auto simp: upsert_by_def)

lemma upsert_by_key_set:
  assumes "\<And>r. key r = key new \<Longrightarrow> key (update r) = key new"
  shows "key ` set (upsert_by key new update rows) = insert (key new) (key ` set rows)"
proof -
  have "set (map key (upsert_by key new update rows)) = insert (key new) (key ` set rows)"
    by (subst upsert_by_keys) (use assms in auto)
  then show ?thesis by simp
qed

lemma upsert_by_distinct:
  "(\<And>r. key r = key new \<Longrightarrow> key (update r) = key new) \<Longrightarrow> distinct (map key rows) \<Longrightarrow> distinct (map key (upsert_by key new update rows))"
  by (simp add: upsert_by_keys)

lemma upsert_by_set:
  "x \<in> set (upsert_by key new update rows) \<Longrightarrow>
     (x \<in> set rows \<and> key x \<noteq> key new) \<or> (\<exists>r \<in> set rows. key r = key new \<and> x = update r) \<or> (x = new \<and> key new \<notin> key ` set rows)"
  by (auto simp: upsert_by_def split: if_splits) (metis imageI)

lemma row_by_upsert:
  assumes "\<And>r. key r = key new \<Longrightarrow> key (update r) = key new"
  shows "row_by key k (upsert_by key new update rows) =
    (if k = key new then Some (case row_by key k rows of None \<Rightarrow> new | Some r \<Rightarrow> update r) else row_by key k rows)"
proof (cases "key new \<in> set (map key rows)")
  case True
  have "row_by key k (map (\<lambda>r. if key r = key new then update r else r) rows) =
      (if k = key new then map_option update (row_by key k rows) else row_by key k rows)"
    using assms by (induction rows) auto
  moreover have "row_by key (key new) rows \<noteq> None" using True by (simp add: row_by_None)
  ultimately show ?thesis using True by (auto simp: upsert_by_def)
next
  case False
  then have "row_by key (key new) rows = None" by (simp add: row_by_None)
  then show ?thesis using False by (auto simp: upsert_by_def row_by_append split: option.splits)
qed

lemma row_by_filter:
  assumes "distinct (map key rows)"
  shows "row_by key k (filter P rows) = (case row_by key k rows of Some r \<Rightarrow> if P r then Some r else None | None \<Rightarrow> None)"
  using assms
proof (induction rows)
  case (Cons r rows)
  show ?case
  proof (cases "key r = k")
    case True
    then have "row_by key k (filter P rows) = None" using Cons.prems by (auto simp: row_by_None)
    then show ?thesis using True by simp
  next
    case False
    then show ?thesis using Cons by simp
  qed
qed simp

lemma filter_by_key: "distinct (map key rows) \<Longrightarrow> filter (\<lambda>r. key r = k) rows = (case row_by key k rows of None \<Rightarrow> [] | Some r \<Rightarrow> [r])"
proof (induction rows)
  case (Cons r rows)
  then show ?case
  proof (cases "key r = k")
    case True
    then have "filter (\<lambda>r. key r = k) rows = []" using Cons.prems by (auto simp: filter_empty_conv image_iff)
    then show ?thesis using True by simp
  qed simp
qed simp

lemma distinct_key_filter: "distinct (map key rows) \<Longrightarrow> distinct (map key (filter P rows))"
  by (induction rows) auto

end
