(* ===== verification/InvoiceStore.thy ===== *)
theory InvoiceStore
  imports Catalog Invoice Tables
begin

text \<open>
  The stored invoices and pricing policies: internal/cost/invoice_store.go and internal/cost/store.go
  over the tables of migration 0004 with their keys, references and numeric types. A statement that a
  constraint refuses leaves the tables as they were and answers with the argument \<^verbatim>\<open>refusal\<close>. Parsing
  a uuid and making one are arguments; every stored amount is a text with two digits, read back by
  the parser of Money, whose other notations are the argument \<^verbatim>\<open>other\<close>.
\<close>

section \<open>The tables\<close>

record PolicyRow =
  pr_name :: string
  pr_revision :: int
  pr_effective_from :: time
  pr_effective_to :: "time option"
  pr_currency :: string
  pr_rates :: "rat list"
  pr_unallocated_strategy :: string
  pr_approved_by :: string
  pr_approved_at :: time
  pr_resource_version :: string
  pr_observed_at :: time

record InvoiceRow =
  ir_uid :: string
  ir_division_uid :: string
  ir_period_start :: time
  ir_period_end :: time
  ir_policy_name :: string
  ir_policy_revision :: int
  ir_currency :: string
  ir_subtotal :: rat
  ir_unallocated_share :: rat
  ir_total :: rat
  ir_inputs_digest :: string
  ir_generated_at :: time

record LineRow =
  il_invoice_uid :: string
  il_line_no :: int
  il_workload_uid :: "string option"
  il_workload_label :: string
  il_resource :: Resource
  il_quantity :: rat
  il_unit :: string
  il_rate :: rat
  il_amount :: rat

record CostDB =
  cdb_divisions :: "(string \<times> string) list"
  cdb_workloads :: "string list"
  cdb_policies :: "PolicyRow list"
  cdb_invoices :: "InvoiceRow list"
  cdb_lines :: "LineRow list"

text \<open>The types numeric(20, k), read from a text and shown as one, and date.\<close>

definition numeric :: "nat \<Rightarrow> string \<Rightarrow> rat option" where
  "numeric k s = (case decimal_text s of None \<Rightarrow> None | Some q \<Rightarrow> if \<bar>q\<bar> < 10 ^ (20 - k) then Some q else None)"

definition numeric_text :: "nat \<Rightarrow> rat \<Rightarrow> string" where "numeric_text k q = FloatString k q"

definition to_date :: "time \<Rightarrow> time" where "to_date t = t - t mod day_length"

definition policy_key :: "PolicyRow \<Rightarrow> string \<times> int" where "policy_key r = (pr_name r, pr_revision r)"

definition billed_key :: "InvoiceRow \<Rightarrow> string \<times> time \<times> time" where
  "billed_key r = (ir_division_uid r, ir_period_start r, ir_period_end r)"

definition line_key :: "LineRow \<Rightarrow> string \<times> int" where "line_key r = (il_invoice_uid r, il_line_no r)"

section \<open>Pricing policies\<close>

definition strategyOf :: "UnallocatedStrategy \<Rightarrow> string" where
  "strategyOf strategy = (if strategy = UnallocatedProRata then ''pro_rata'' else ''platform'')"

definition UpsertPolicy :: "string \<Rightarrow> time \<Rightarrow> CostDB \<Rightarrow> Policy \<Rightarrow> string \<Rightarrow> string + CostDB" where
  "UpsertPolicy refusal now db policy resourceVersion =
     (case those (map (\<lambda>m. numeric 2 (String_of m)) [CPUCore policy, MemoryGi policy, StorageGi policy, LoadBalance policy, EgressGi policy]) of
        Some rates \<Rightarrow>
          if in_i32 (pol_Revision policy) \<and>
             (case To policy of None \<Rightarrow> True | Some t \<Rightarrow> to_date t > to_date (From policy))
          then let row = \<lparr>pr_name = pol_Name policy, pr_revision = pol_Revision policy, pr_effective_from = to_date (From policy),
                     pr_effective_to = map_option to_date (To policy), pr_currency = pol_Currency policy, pr_rates = rates,
                     pr_unallocated_strategy = strategyOf (Unallocated policy), pr_approved_by = pol_ApprovedBy policy,
                     pr_approved_at = pol_ApprovedAt policy, pr_resource_version = resourceVersion, pr_observed_at = now\<rparr>
               in Inr (db\<lparr>cdb_policies := upsert_by policy_key row (\<lambda>_. row) (cdb_policies db)\<rparr>)
          else Inl (''upsert pricing policy '' @ pol_Name policy @ '' revision '' @ show_int (pol_Revision policy) @ '': '' @ refusal)
      | None \<Rightarrow> Inl (''upsert pricing policy '' @ pol_Name policy @ '' revision '' @ show_int (pol_Revision policy) @ '': '' @ refusal))"

text \<open>An invoice cites the policy that priced it; the reference has no ON DELETE clause.\<close>

definition DeletePolicy :: "string \<Rightarrow> CostDB \<Rightarrow> string \<Rightarrow> string + CostDB" where
  "DeletePolicy refusal db name =
     (if list_ex (\<lambda>i. ir_policy_name i = name) (cdb_invoices db)
      then Inl (''delete pricing policy '' @ name @ '': '' @ refusal)
      else Inr (db\<lparr>cdb_policies := filter (\<lambda>r. pr_name r \<noteq> name) (cdb_policies db)\<rparr>))"

section \<open>Invoices\<close>

definition ErrInvoiceNotFound :: string where
  "ErrInvoiceNotFound = ''no invoice has been generated for that period''"

definition knownWorkload :: "(string \<Rightarrow> string option) \<Rightarrow> string \<Rightarrow> string option" where
  "knownWorkload uuid_parse raw = uuid_parse raw"

definition line_row :: "(string \<Rightarrow> string option) \<Rightarrow> CostDB \<Rightarrow> string \<Rightarrow> InvoiceItem \<Rightarrow> LineRow option" where
  "line_row uuid_parse db uid line =
     (case (numeric 6 (FloatString 6 (it_Quantity line)), numeric 2 (String_of (it_Rate line)), numeric 2 (String_of (it_Amount line))) of
        (Some quant, Some rate, Some amount) \<Rightarrow>
          Some \<lparr>il_invoice_uid = uid, il_line_no = it_Number line,
            il_workload_uid = (case knownWorkload uuid_parse (it_WorkloadUID line) of
                 None \<Rightarrow> None | Some w \<Rightarrow> if w \<in> set (cdb_workloads db) then Some w else None),
            il_workload_label = it_WorkloadLabel line, il_resource = it_Resource line, il_quantity = quant,
            il_unit = it_Unit line, il_rate = rate, il_amount = amount\<rparr>
      | _ \<Rightarrow> None)"

fun insert_lines ::
  "(string \<Rightarrow> string option) \<Rightarrow> string \<Rightarrow> CostDB \<Rightarrow> string \<Rightarrow> InvoiceItem list \<Rightarrow> LineRow list \<Rightarrow> string + LineRow list" where
  "insert_lines uuid_parse refusal db uid [] rows = Inr rows"
| "insert_lines uuid_parse refusal db uid (line # lines) rows =
     (case line_row uuid_parse db uid line of
        Some row \<Rightarrow>
          if line_key row \<in> set (map line_key rows) then Inl (''save line '' @ show_int (it_Number line) @ '': '' @ refusal)
          else insert_lines uuid_parse refusal db uid lines (rows @ [row])
      | None \<Rightarrow> Inl (''save line '' @ show_int (it_Number line) @ '': '' @ refusal))"

definition invoice_row :: "string \<Rightarrow> string \<Rightarrow> Invoice \<Rightarrow> InvoiceRow option" where
  "invoice_row uid divisionUID invoice =
     (case (numeric 2 (String_of (iv_Subtotal invoice)), numeric 2 (String_of (iv_UnallocatedShare invoice)),
            numeric 2 (String_of (iv_Total invoice))) of
        (Some subtotal, Some unallocated, Some total_) \<Rightarrow>
          Some \<lparr>ir_uid = uid, ir_division_uid = divisionUID, ir_period_start = to_date (iv_PeriodStart invoice),
            ir_period_end = to_date (iv_PeriodEnd invoice), ir_policy_name = iv_PolicyName invoice,
            ir_policy_revision = iv_PolicyRevision invoice, ir_currency = iv_Currency invoice, ir_subtotal = subtotal,
            ir_unallocated_share = unallocated, ir_total = total_, ir_inputs_digest = iv_InputsDigest invoice,
            ir_generated_at = iv_GeneratedAt invoice\<rparr>
      | _ \<Rightarrow> None)"

definition SaveInvoice ::
  "(string \<Rightarrow> string option) \<Rightarrow> string \<Rightarrow> string \<Rightarrow> CostDB \<Rightarrow> Invoice \<Rightarrow> string + CostDB" where
  "SaveInvoice uuid_parse refusal newUID db invoice =
     (case row_by snd (iv_Division invoice) (cdb_divisions db) of
        None \<Rightarrow> Inl (''division '' @ iv_Division invoice @ '' has not been projected yet'')
      | Some (divisionUID, _) \<Rightarrow>
     (case invoice_row newUID divisionUID invoice of
        None \<Rightarrow> Inl (''save invoice for '' @ iv_Division invoice @ '': '' @ refusal)
      | Some new \<Rightarrow>
          (let existing = row_by billed_key (billed_key new) (cdb_invoices db);
               invoiceUID = (case existing of None \<Rightarrow> newUID | Some r \<Rightarrow> ir_uid r)
           in if (iv_PolicyName invoice, iv_PolicyRevision invoice) \<notin> set (map policy_key (cdb_policies db)) \<or>
                 (existing = None \<and> newUID \<in> set (map ir_uid (cdb_invoices db)))
              then Inl (''save invoice for '' @ iv_Division invoice @ '': '' @ refusal)
              else
                let invoices = upsert_by billed_key new (\<lambda>r. new\<lparr>ir_uid := ir_uid r\<rparr>) (cdb_invoices db);
                    kept = filter (\<lambda>l. il_invoice_uid l \<noteq> invoiceUID) (cdb_lines db)
                in case insert_lines uuid_parse refusal db invoiceUID (iv_Lines invoice) kept of
                     Inl err \<Rightarrow> Inl err
                   | Inr rows \<Rightarrow> Inr (db\<lparr>cdb_invoices := invoices, cdb_lines := rows\<rparr>))))"

text \<open>What is read back: every amount is parsed from the text the database shows.\<close>

definition read_line :: "(string \<Rightarrow> rat option) \<Rightarrow> string \<Rightarrow> LineRow \<Rightarrow> string + InvoiceItem" where
  "read_line other currency r =
     (case SetString other (numeric_text 6 (il_quantity r)) of
        None \<Rightarrow> Inl (''stored quantity '' @ quoted (numeric_text 6 (il_quantity r)) @ '' is unreadable'')
      | Some quant \<Rightarrow>
     (case ParseMoney other currency (numeric_text 2 (il_rate r)) of
        Inl err \<Rightarrow> Inl (''stored amount '' @ quoted (numeric_text 2 (il_rate r)) @ '' is unreadable: '' @ err)
      | Inr rate \<Rightarrow>
     (case ParseMoney other currency (numeric_text 2 (il_amount r)) of
        Inl err \<Rightarrow> Inl (''stored amount '' @ quoted (numeric_text 2 (il_amount r)) @ '' is unreadable: '' @ err)
      | Inr amount \<Rightarrow>
          Inr \<lparr>it_Number = il_line_no r, it_WorkloadUID = coalesce [] (il_workload_uid r), it_WorkloadLabel = il_workload_label r,
               it_Resource = il_resource r, it_Quantity = quant, it_Unit = il_unit r, it_Rate = rate, it_Amount = amount\<rparr>)))"

fun read_all :: "('a \<Rightarrow> string + 'b) \<Rightarrow> 'a list \<Rightarrow> string + 'b list" where
  "read_all f [] = Inr []"
| "read_all f (x # xs) =
     (case f x of Inl err \<Rightarrow> Inl err
      | Inr y \<Rightarrow> (case read_all f xs of Inl err \<Rightarrow> Inl err | Inr ys \<Rightarrow> Inr (y # ys)))"

definition store_lines :: "(string \<Rightarrow> rat option) \<Rightarrow> CostDB \<Rightarrow> string \<Rightarrow> string \<Rightarrow> string + InvoiceItem list" where
  "store_lines other db invoiceUID currency =
     read_all (read_line other currency)
       (sort_key il_line_no (filter (\<lambda>l. il_invoice_uid l = invoiceUID) (cdb_lines db)))"

definition read_header :: "(string \<Rightarrow> rat option) \<Rightarrow> CostDB \<Rightarrow> InvoiceRow \<Rightarrow> string + Invoice" where
  "read_header other db r =
     (let money = (\<lambda>q. case ParseMoney other (ir_currency r) (numeric_text 2 q) of
                     Inl err \<Rightarrow> Inl (''stored amount '' @ quoted (numeric_text 2 q) @ '' is unreadable: '' @ err) | Inr m \<Rightarrow> Inr m)
      in case money (ir_subtotal r) of Inl err \<Rightarrow> Inl err | Inr subtotal \<Rightarrow>
        (case money (ir_unallocated_share r) of Inl err \<Rightarrow> Inl err | Inr unallocated \<Rightarrow>
        (case money (ir_total r) of Inl err \<Rightarrow> Inl err | Inr total_ \<Rightarrow>
           Inr \<lparr>iv_UID = ir_uid r, iv_Division = (case row_by fst (ir_division_uid r) (cdb_divisions db) of None \<Rightarrow> [] | Some d \<Rightarrow> snd d),
                iv_PeriodStart = ir_period_start r, iv_PeriodEnd = ir_period_end r, iv_PolicyName = ir_policy_name r,
                iv_PolicyRevision = ir_policy_revision r, iv_Currency = ir_currency r, iv_Subtotal = subtotal,
                iv_UnallocatedShare = unallocated, iv_Total = total_, iv_Lines = [], iv_InputsDigest = ir_inputs_digest r,
                iv_GeneratedAt = ir_generated_at r\<rparr>)))"

definition scanInvoices :: "(string \<Rightarrow> rat option) \<Rightarrow> CostDB \<Rightarrow> InvoiceRow list \<Rightarrow> string + Invoice list" where
  "scanInvoices other db rows =
     (case read_all (read_header other db) rows of
        Inl err \<Rightarrow> Inl err
      | Inr headers \<Rightarrow>
          read_all (\<lambda>found. case store_lines other db (iv_UID found) (iv_Currency found) of
              Inl err \<Rightarrow> Inl err | Inr lines \<Rightarrow> Inr (found\<lparr>iv_Lines := lines\<rparr>)) headers)"

definition InvoiceByUID :: "(string \<Rightarrow> rat option) \<Rightarrow> CostDB \<Rightarrow> string \<Rightarrow> string + Invoice" where
  "InvoiceByUID other db uid =
     (case scanInvoices other db (filter (\<lambda>r. ir_uid r = uid \<and> row_by fst (ir_division_uid r) (cdb_divisions db) \<noteq> None) (cdb_invoices db)) of
        Inl err \<Rightarrow> Inl err
      | Inr [] \<Rightarrow> Inl (''invoice '' @ uid @ '': '' @ ErrInvoiceNotFound)
      | Inr (i # _) \<Rightarrow> Inr i)"

definition Invoices :: "(string \<Rightarrow> rat option) \<Rightarrow> CostDB \<Rightarrow> string \<Rightarrow> int \<Rightarrow> string + Invoice list" where
  "Invoices other db division limit =
     (let limit = (if limit \<le> 0 \<or> limit > 60 then 24 else limit)
      in scanInvoices other db
           (take (nat limit)
             (sort_key (\<lambda>r. - ir_period_start r)
               (filter (\<lambda>r. (case row_by fst (ir_division_uid r) (cdb_divisions db) of None \<Rightarrow> False | Some d \<Rightarrow> snd d = division))
                 (cdb_invoices db)))))"

section \<open>Amounts survive the database to the cent\<close>

definition stored_money :: "string \<Rightarrow> Money \<Rightarrow> Money" where
  "stored_money currency m = NewMoney currency (Some (rounded 2 (Rat_of m)))"

lemma rounded_form: "\<exists>n. rounded k x = of_int n / 10 ^ k"
proof -
  have "rounded k x = of_int ((if x < 0 then - 1 else 1) * \<lfloor>\<bar>x\<bar> * 10 ^ k + 1 / 2\<rfloor>) / 10 ^ k"
    by (simp add: rounded_def)
  then show ?thesis by blast
qed

lemma rounded_twice [simp]: "rounded k (rounded k x) = rounded k x"
proof -
  obtain n where "rounded k x = of_int n / 10 ^ k" using rounded_form by blast
  then show ?thesis using rounded_exact [of k n] by simp
qed

lemma numeric_FloatString: "0 < k \<Longrightarrow> numeric k (FloatString k x) = (if \<bar>rounded k x\<bar> < 10 ^ (20 - k) then Some (rounded k x) else None)"
  by (simp add: numeric_def decimal_text_FloatString)

lemma parse_shown: "ParseMoney other currency (numeric_text 2 (rounded 2 x)) = Inr (NewMoney currency (Some (rounded 2 x)))"
proof -
  have "TrimSpace (FloatString 2 (rounded 2 x)) = FloatString 2 (rounded 2 x)"
    by (rule TrimSpace_plain) (use FloatString_ends [of 2] in auto)
  moreover have "FloatString 2 (rounded 2 x) \<noteq> []" by (simp add: FloatString_shape)
  ultimately show ?thesis
    by (simp add: ParseMoney_def numeric_text_def Let_def SetString_def decimal_text_FloatString)
qed

lemma quantity_shown: "SetString other (numeric_text 6 (rounded 6 x)) = Some (rounded 6 x)"
  by (simp add: numeric_text_def SetString_def decimal_text_FloatString)

definition stored_line :: "(string \<Rightarrow> string option) \<Rightarrow> CostDB \<Rightarrow> string \<Rightarrow> InvoiceItem \<Rightarrow> InvoiceItem" where
  "stored_line uuid_parse db currency l =
     l\<lparr>it_WorkloadUID := (case uuid_parse (it_WorkloadUID l) of None \<Rightarrow> [] | Some w \<Rightarrow> if w \<in> set (cdb_workloads db) then w else []),
       it_Quantity := rounded 6 (it_Quantity l), it_Rate := stored_money currency (it_Rate l), it_Amount := stored_money currency (it_Amount l)\<rparr>"

definition as_stored :: "(string \<Rightarrow> string option) \<Rightarrow> CostDB \<Rightarrow> string \<Rightarrow> Invoice \<Rightarrow> Invoice" where
  "as_stored uuid_parse db uid i =
     i\<lparr>iv_UID := uid, iv_PeriodStart := to_date (iv_PeriodStart i), iv_PeriodEnd := to_date (iv_PeriodEnd i),
       iv_Subtotal := stored_money (iv_Currency i) (iv_Subtotal i), iv_UnallocatedShare := stored_money (iv_Currency i) (iv_UnallocatedShare i),
       iv_Total := stored_money (iv_Currency i) (iv_Total i), iv_Lines := map (stored_line uuid_parse db (iv_Currency i)) (iv_Lines i)\<rparr>"

lemma read_line_row:
  assumes "line_row uuid_parse db uid l = Some r"
  shows "read_line other currency r = Inr (stored_line uuid_parse db currency l)" and "il_invoice_uid r = uid" and "il_line_no r = it_Number l"
  using assms
  by (auto simp: line_row_def read_line_def stored_line_def stored_money_def String_of_def numeric_FloatString parse_shown quantity_shown
      knownWorkload_def coalesce_def split: option.splits if_splits)

lemma insert_lines_Inr:
  "insert_lines uuid_parse refusal db uid lines rows = Inr rows' \<Longrightarrow> distinct (map line_key rows) \<Longrightarrow>
     \<exists>news. map (line_row uuid_parse db uid) lines = map Some news \<and> rows' = rows @ news \<and> distinct (map line_key rows')"
proof (induction lines arbitrary: rows)
  case (Cons l lines)
  then obtain row where row: "line_row uuid_parse db uid l = Some row" "line_key row \<notin> set (map line_key rows)"
    and rest: "insert_lines uuid_parse refusal db uid lines (rows @ [row]) = Inr rows'"
    by (auto split: option.splits if_splits)
  have "distinct (map line_key (rows @ [row]))" using Cons.prems(2) row(2) by simp
  from Cons.IH [OF rest this] obtain news where "map (line_row uuid_parse db uid) lines = map Some news" "rows' = (rows @ [row]) @ news"
    "distinct (map line_key rows')" by blast
  then show ?case using row(1) by (intro exI [of _ "row # news"]) simp
qed simp

lemma read_all_map: "list_all2 (\<lambda>x y. f x = Inr y) xs ys \<Longrightarrow> read_all f xs = Inr ys"
  by (induction rule: list_all2_induct) simp_all

lemma invoice_row_Some:
  assumes "invoice_row uid d i = Some r"
  shows "ir_uid r = uid" "ir_division_uid r = d" "billed_key r = (d, to_date (iv_PeriodStart i), to_date (iv_PeriodEnd i))"
    "ir_policy_name r = iv_PolicyName i" "ir_policy_revision r = iv_PolicyRevision i" "ir_currency r = iv_Currency i"
    "ir_inputs_digest r = iv_InputsDigest i"
    "read_header other db' (r\<lparr>ir_uid := u\<rparr>) =
      Inr ((as_stored uuid_parse db u i)\<lparr>iv_Division := (case row_by fst d (cdb_divisions db') of None \<Rightarrow> [] | Some d \<Rightarrow> snd d), iv_Lines := []\<rparr>)"
  using assms
  by (auto simp: invoice_row_def billed_key_def read_header_def as_stored_def stored_money_def String_of_def numeric_FloatString parse_shown
      Let_def split: option.splits if_splits)

section \<open>The tables stay consistent\<close>

definition cost_ok :: "CostDB \<Rightarrow> bool" where
  "cost_ok db \<longleftrightarrow>
     distinct (map fst (cdb_divisions db)) \<and> distinct (map snd (cdb_divisions db)) \<and>
     distinct (map policy_key (cdb_policies db)) \<and> distinct (map ir_uid (cdb_invoices db)) \<and>
     distinct (map billed_key (cdb_invoices db)) \<and> distinct (map line_key (cdb_lines db)) \<and>
     (\<forall>i \<in> set (cdb_invoices db). ir_division_uid i \<in> fst ` set (cdb_divisions db) \<and>
        (ir_policy_name i, ir_policy_revision i) \<in> policy_key ` set (cdb_policies db)) \<and>
     (\<forall>l \<in> set (cdb_lines db). il_invoice_uid l \<in> ir_uid ` set (cdb_invoices db))"

text \<open>What a saved invoice leaves behind.\<close>

lemma SaveInvoice_Inr:
  assumes "SaveInvoice uuid_parse refusal newUID db i = Inr db'" and ok: "cost_ok db"
  obtains d new news uid where "row_by snd (iv_Division i) (cdb_divisions db) = Some (d, iv_Division i)"
    and "invoice_row newUID d i = Some new"
    and "(iv_PolicyName i, iv_PolicyRevision i) \<in> policy_key ` set (cdb_policies db)"
    and "uid = (case row_by billed_key (billed_key new) (cdb_invoices db) of None \<Rightarrow> newUID | Some r \<Rightarrow> ir_uid r)"
    and "row_by billed_key (billed_key new) (cdb_invoices db) = None \<Longrightarrow> newUID \<notin> ir_uid ` set (cdb_invoices db)"
    and "map (line_row uuid_parse db uid) (iv_Lines i) = map Some news"
    and "distinct (map line_key (cdb_lines db'))"
    and "db' = db\<lparr>cdb_invoices := upsert_by billed_key new (\<lambda>r. new\<lparr>ir_uid := ir_uid r\<rparr>) (cdb_invoices db),
                 cdb_lines := filter (\<lambda>l. il_invoice_uid l \<noteq> uid) (cdb_lines db) @ news\<rparr>"
proof -
  from assms(1) obtain d n where d: "row_by snd (iv_Division i) (cdb_divisions db) = Some (d, n)"
    by (auto simp: SaveInvoice_def split: option.splits)
  then have n: "n = iv_Division i" by (auto dest: row_by_Some)
  from assms(1) d obtain new where new: "invoice_row newUID d i = Some new"
    by (auto simp: SaveInvoice_def split: option.splits)
  define uid where "uid = (case row_by billed_key (billed_key new) (cdb_invoices db) of None \<Rightarrow> newUID | Some r \<Rightarrow> ir_uid r)"
  from assms(1) d new obtain rows where
    policy: "(iv_PolicyName i, iv_PolicyRevision i) \<in> policy_key ` set (cdb_policies db)"
    and newid: "row_by billed_key (billed_key new) (cdb_invoices db) = None \<Longrightarrow> newUID \<notin> ir_uid ` set (cdb_invoices db)"
    and ins: "insert_lines uuid_parse refusal db uid (iv_Lines i) (filter (\<lambda>l. il_invoice_uid l \<noteq> uid) (cdb_lines db)) = Inr rows"
    and db': "db' = db\<lparr>cdb_invoices := upsert_by billed_key new (\<lambda>r. new\<lparr>ir_uid := ir_uid r\<rparr>) (cdb_invoices db), cdb_lines := rows\<rparr>"
    by (auto simp: SaveInvoice_def Let_def uid_def split: option.splits sum.splits if_splits)
  have "distinct (map line_key (filter (\<lambda>l. il_invoice_uid l \<noteq> uid) (cdb_lines db)))"
    using ok by (simp add: cost_ok_def distinct_key_filter)
  from insert_lines_Inr [OF ins this] obtain news where "map (line_row uuid_parse db uid) (iv_Lines i) = map Some news"
    "rows = filter (\<lambda>l. il_invoice_uid l \<noteq> uid) (cdb_lines db) @ news" "distinct (map line_key rows)" by blast
  then show thesis
    using that [of d new uid news] d n new policy newid db' uid_def by simp
qed

lemma upsert_invoice_uids:
  assumes "distinct (map ir_uid rows)" and "row_by billed_key (billed_key new) rows = None \<Longrightarrow> ir_uid new \<notin> ir_uid ` set rows"
  shows "distinct (map ir_uid (upsert_by billed_key new (\<lambda>r. new\<lparr>ir_uid := ir_uid r\<rparr>) rows))"
proof (cases "billed_key new \<in> set (map billed_key rows)")
  case True
  have "map ir_uid (map (\<lambda>r. if billed_key r = billed_key new then new\<lparr>ir_uid := ir_uid r\<rparr> else r) rows) = map ir_uid rows"
    by simp
  then show ?thesis using True assms(1) by (simp add: upsert_by_def del: map_map)
next
  case False
  then show ?thesis using assms by (simp add: upsert_by_def row_by_None)
qed

lemma billed_key_uid [simp]: "billed_key (r\<lparr>ir_uid := u\<rparr>) = billed_key r"
  by (simp add: billed_key_def)

lemma upsert_invoice_in:
  "r \<in> set rows \<Longrightarrow> ir_uid r \<in> ir_uid ` set (upsert_by billed_key new (\<lambda>r. new\<lparr>ir_uid := ir_uid r\<rparr>) rows)"
proof (cases "billed_key new \<in> set (map billed_key rows)")
  case True
  have "map ir_uid (map (\<lambda>r. if billed_key r = billed_key new then new\<lparr>ir_uid := ir_uid r\<rparr> else r) rows) = map ir_uid rows"
    by simp
  then have "ir_uid ` set (map (\<lambda>r. if billed_key r = billed_key new then new\<lparr>ir_uid := ir_uid r\<rparr> else r) rows) = ir_uid ` set rows"
    by (metis list.set_map)
  then show "r \<in> set rows \<Longrightarrow> ?thesis" using True by (simp add: upsert_by_def del: set_map)
qed (simp add: upsert_by_def)

lemma SaveInvoice_ok:
  assumes save: "SaveInvoice uuid_parse refusal newUID db i = Inr db'" and ok: "cost_ok db"
  shows "cost_ok db'"
proof -
  obtain d new news uid where d: "row_by snd (iv_Division i) (cdb_divisions db) = Some (d, iv_Division i)"
    and new: "invoice_row newUID d i = Some new" and policy: "(iv_PolicyName i, iv_PolicyRevision i) \<in> policy_key ` set (cdb_policies db)"
    and uid: "uid = (case row_by billed_key (billed_key new) (cdb_invoices db) of None \<Rightarrow> newUID | Some r \<Rightarrow> ir_uid r)"
    and newid: "row_by billed_key (billed_key new) (cdb_invoices db) = None \<Longrightarrow> newUID \<notin> ir_uid ` set (cdb_invoices db)"
    and news: "map (line_row uuid_parse db uid) (iv_Lines i) = map Some news" and lines: "distinct (map line_key (cdb_lines db'))"
    and db': "db' = db\<lparr>cdb_invoices := upsert_by billed_key new (\<lambda>r. new\<lparr>ir_uid := ir_uid r\<rparr>) (cdb_invoices db),
                 cdb_lines := filter (\<lambda>l. il_invoice_uid l \<noteq> uid) (cdb_lines db) @ news\<rparr>"
    by (rule SaveInvoice_Inr [OF save ok]) (rule that)
  note row = invoice_row_Some [OF new]
  let ?inv = "upsert_by billed_key new (\<lambda>r. new\<lparr>ir_uid := ir_uid r\<rparr>) (cdb_invoices db)"
  have uids: "distinct (map ir_uid ?inv)"
    by (rule upsert_invoice_uids) (use ok newid row(1) in \<open>auto simp: cost_ok_def\<close>)
  have keys: "distinct (map billed_key ?inv)"
    by (rule upsert_by_distinct) (use ok in \<open>auto simp: cost_ok_def\<close>)
  have din: "d \<in> fst ` set (cdb_divisions db)" using row_by_Some [OF d] by force
  have refs: "\<forall>i \<in> set ?inv. ir_division_uid i \<in> fst ` set (cdb_divisions db) \<and>
        (ir_policy_name i, ir_policy_revision i) \<in> policy_key ` set (cdb_policies db)"
  proof
    fix j assume "j \<in> set ?inv"
    then have "j \<in> set (cdb_invoices db) \<or> (ir_division_uid j = d \<and> ir_policy_name j = iv_PolicyName i \<and> ir_policy_revision j = iv_PolicyRevision i)"
      using row(2,4,5) by (auto dest!: upsert_by_set)
    then show "ir_division_uid j \<in> fst ` set (cdb_divisions db) \<and> (ir_policy_name j, ir_policy_revision j) \<in> policy_key ` set (cdb_policies db)"
      using ok policy din by (auto simp: cost_ok_def)
  qed
  have "uid \<in> ir_uid ` set ?inv"
  proof (cases "row_by billed_key (billed_key new) (cdb_invoices db)")
    case None
    then have "?inv = cdb_invoices db @ [new]" by (simp add: upsert_by_def row_by_None)
    then show ?thesis using uid row(1) None by simp
  next
    case (Some r)
    then show ?thesis using uid upsert_invoice_in [of r "cdb_invoices db" new] by (auto dest: row_by_Some)
  qed
  moreover have "il_invoice_uid l = uid" if "l \<in> set news" for l
  proof -
    have "Some l \<in> set (map (line_row uuid_parse db uid) (iv_Lines i))" using that unfolding news by simp
    then show ?thesis using read_line_row(2) by fastforce
  qed
  moreover have "il_invoice_uid l \<in> ir_uid ` set ?inv" if "l \<in> set (cdb_lines db)" for l
    using ok that upsert_invoice_in [of _ "cdb_invoices db" new] by (force simp: cost_ok_def)
  ultimately have "\<forall>l \<in> set (cdb_lines db'). il_invoice_uid l \<in> ir_uid ` set ?inv"
    unfolding db' by auto
  then show ?thesis
    using ok uids keys refs lines by (simp add: cost_ok_def db')
qed

lemma UpsertPolicy_ok: "UpsertPolicy refusal now db policy rv = Inr db' \<Longrightarrow> cost_ok db \<Longrightarrow> cost_ok db'"
proof -
  assume "UpsertPolicy refusal now db policy rv = Inr db'" and ok: "cost_ok db"
  then obtain row where db': "db' = db\<lparr>cdb_policies := upsert_by policy_key row (\<lambda>_. row) (cdb_policies db)\<rparr>"
    by (auto simp: UpsertPolicy_def Let_def split: option.splits if_splits)
  have "distinct (map policy_key (upsert_by policy_key row (\<lambda>_. row) (cdb_policies db)))"
    by (rule upsert_by_distinct) (use ok in \<open>auto simp: cost_ok_def\<close>)
  moreover have "policy_key ` set (cdb_policies db) \<subseteq> policy_key ` set (upsert_by policy_key row (\<lambda>_. row) (cdb_policies db))"
    by (subst upsert_by_key_set) auto
  ultimately show ?thesis using ok by (auto simp: cost_ok_def db')
qed

lemma DeletePolicy_ok:
  assumes "DeletePolicy refusal db name = Inr db'" and ok: "cost_ok db"
  shows "cost_ok db'"
proof -
  have db': "db' = db\<lparr>cdb_policies := filter (\<lambda>r. pr_name r \<noteq> name) (cdb_policies db)\<rparr>"
    and cited: "\<forall>i \<in> set (cdb_invoices db). ir_policy_name i \<noteq> name"
    using assms(1) by (auto simp: DeletePolicy_def list_ex_iff split: if_splits)
  have "(ir_policy_name i, ir_policy_revision i) \<in> policy_key ` {r \<in> set (cdb_policies db). pr_name r \<noteq> name}"
    if "i \<in> set (cdb_invoices db)" for i
  proof -
    have "(ir_policy_name i, ir_policy_revision i) \<in> policy_key ` set (cdb_policies db)" using ok that by (simp add: cost_ok_def)
    then obtain r where "r \<in> set (cdb_policies db)" "policy_key r = (ir_policy_name i, ir_policy_revision i)" by auto
    then show ?thesis using cited that by (force simp: policy_key_def)
  qed
  then show ?thesis using ok by (simp add: cost_ok_def db' distinct_key_filter)
qed

section \<open>A saved invoice reads back\<close>

definition numbered :: "Invoice \<Rightarrow> bool" where
  "numbered i \<longleftrightarrow> sorted (map it_Number (iv_Lines i))"

lemma lines_after_save:
  assumes "map (line_row uuid_parse db uid) ls = map Some news" and "sorted (map it_Number ls)"
  shows "read_all (read_line other currency)
      (sort_key il_line_no (filter (\<lambda>l. il_invoice_uid l = uid) (filter (\<lambda>l. il_invoice_uid l \<noteq> uid) old @ news))) =
    Inr (map (stored_line uuid_parse db currency) ls)"
proof -
  have each: "list_all2 (\<lambda>l r. line_row uuid_parse db uid l = Some r) ls news"
    using assms(1) by (auto simp: list_all2_conv_all_nth list_eq_iff_nth_eq)
  then have "list_all2 (\<lambda>r y. read_line other currency r = Inr y) news (map (stored_line uuid_parse db currency) ls)"
    by (auto simp: list_all2_conv_all_nth read_line_row(1))
  then have read: "read_all (read_line other currency) news = Inr (map (stored_line uuid_parse db currency) ls)"
    by (rule read_all_map)
  have "map il_line_no news = map it_Number ls"
    using each by (auto simp: list_all2_conv_all_nth list_eq_iff_nth_eq read_line_row(3))
  then have "sort_key il_line_no news = news"
    using assms(2) by (simp add: sorted_sort_id sort_key_id_if_sorted)
  moreover have "\<forall>r \<in> set news. il_invoice_uid r = uid"
    using each by (auto simp: list_all2_conv_all_nth in_set_conv_nth) (metis read_line_row(2))
  ultimately show ?thesis using read by (simp add: filter_filter)
qed

lemma filter_uid: "distinct (map ir_uid rows) \<Longrightarrow> filter (\<lambda>r. ir_uid r = u) rows = (case row_by ir_uid u rows of None \<Rightarrow> [] | Some r \<Rightarrow> [r])"
  by (rule filter_by_key)

lemma InvoiceByUID_eq:
  assumes "cost_ok db"
  shows "InvoiceByUID other db u =
    (case row_by ir_uid u (cdb_invoices db) of
       None \<Rightarrow> Inl (''invoice '' @ u @ '': '' @ ErrInvoiceNotFound)
     | Some r \<Rightarrow>
         (case read_header other db r of Inl err \<Rightarrow> Inl err
          | Inr h \<Rightarrow> (case store_lines other db (iv_UID h) (iv_Currency h) of Inl err \<Rightarrow> Inl err | Inr ls \<Rightarrow> Inr (h\<lparr>iv_Lines := ls\<rparr>))))"
proof -
  have "row_by fst (ir_division_uid r) (cdb_divisions db) \<noteq> None" if "r \<in> set (cdb_invoices db)" for r
    using assms that by (simp add: cost_ok_def row_by_None)
  then have "filter (\<lambda>r. ir_uid r = u \<and> row_by fst (ir_division_uid r) (cdb_divisions db) \<noteq> None) (cdb_invoices db) =
      filter (\<lambda>r. ir_uid r = u) (cdb_invoices db)"
    by (intro filter_cong) auto
  also have "\<dots> = (case row_by ir_uid u (cdb_invoices db) of None \<Rightarrow> [] | Some r \<Rightarrow> [r])"
    by (rule filter_by_key) (use assms in \<open>simp add: cost_ok_def\<close>)
  finally show ?thesis
    by (auto simp: InvoiceByUID_def scanInvoices_def split: option.splits sum.splits)
qed

lemma row_by_uid_upsert:
  assumes "distinct (map ir_uid rows)" and "distinct (map billed_key rows)"
    and "row_by billed_key (billed_key new) rows = None \<Longrightarrow> ir_uid new \<notin> ir_uid ` set rows"
  defines "uid \<equiv> (case row_by billed_key (billed_key new) rows of None \<Rightarrow> ir_uid new | Some r \<Rightarrow> ir_uid r)"
  shows "row_by ir_uid u (upsert_by billed_key new (\<lambda>r. new\<lparr>ir_uid := ir_uid r\<rparr>) rows) =
    (if u = uid then Some (new\<lparr>ir_uid := uid\<rparr>) else row_by ir_uid u rows)"
proof (cases "row_by billed_key (billed_key new) rows")
  case None
  then have "upsert_by billed_key new (\<lambda>r. new\<lparr>ir_uid := ir_uid r\<rparr>) rows = rows @ [new]" by (simp add: upsert_by_def row_by_None)
  moreover have "row_by ir_uid (ir_uid new) rows = None" using assms(3) None by (simp add: row_by_None)
  moreover have "new\<lparr>ir_uid := ir_uid new\<rparr> = new" by simp
  ultimately show ?thesis using None by (auto simp: uid_def row_by_append split: option.splits)
next
  case (Some r)
  then have r: "r \<in> set rows" "billed_key r = billed_key new" by (auto dest: row_by_Some)
  have "billed_key r \<in> set (map billed_key rows)" using r(1) by simp
  then have "upsert_by billed_key new (\<lambda>r. new\<lparr>ir_uid := ir_uid r\<rparr>) rows =
      map (\<lambda>x. if billed_key x = billed_key new then new\<lparr>ir_uid := ir_uid x\<rparr> else x) rows"
    unfolding r(2) upsert_by_def by (rule if_P)
  also have "\<dots> = map (\<lambda>x. if ir_uid x = uid then new\<lparr>ir_uid := uid\<rparr> else x) rows"
  proof (rule map_cong [OF refl])
    fix x assume x: "x \<in> set rows"
    have "inj_on billed_key (set rows)" "inj_on ir_uid (set rows)" using assms(1,2) by (simp_all add: distinct_map)
    then have "billed_key x = billed_key new \<longleftrightarrow> x = r" and "ir_uid x = ir_uid r \<longleftrightarrow> x = r"
      unfolding r(2) [symmetric] using x r(1) by (simp_all add: inj_on_eq_iff)
    then show "(if billed_key x = billed_key new then new\<lparr>ir_uid := ir_uid x\<rparr> else x) = (if ir_uid x = uid then new\<lparr>ir_uid := uid\<rparr> else x)"
      by (simp add: uid_def Some)
  qed
  finally have eq: "upsert_by billed_key new (\<lambda>r. new\<lparr>ir_uid := ir_uid r\<rparr>) rows = map (\<lambda>x. if ir_uid x = uid then new\<lparr>ir_uid := uid\<rparr> else x) rows" .
  have "row_by ir_uid u (map (\<lambda>x. if ir_uid x = uid then new\<lparr>ir_uid := uid\<rparr> else x) xs) =
      (if u = uid then map_option (\<lambda>_. new\<lparr>ir_uid := uid\<rparr>) (row_by ir_uid u xs) else row_by ir_uid u xs)" for xs
    by (induction xs) auto
  moreover have "row_by ir_uid uid rows = Some r" using row_by_unique [OF assms(1) r(1)] Some by (simp add: uid_def)
  ultimately show ?thesis unfolding eq by auto
qed

lemma saved_under:
  assumes "SaveInvoice uuid_parse refusal newUID db i = Inr db'" and "cost_ok db" and "numbered i"
  shows "\<exists>d new uid. row_by snd (iv_Division i) (cdb_divisions db) = Some (d, iv_Division i) \<and> invoice_row newUID d i = Some new \<and>
    uid = (case row_by billed_key (billed_key new) (cdb_invoices db) of None \<Rightarrow> newUID | Some r \<Rightarrow> ir_uid r) \<and>
    cdb_invoices db' = upsert_by billed_key new (\<lambda>r. new\<lparr>ir_uid := ir_uid r\<rparr>) (cdb_invoices db) \<and> cdb_divisions db' = cdb_divisions db \<and>
    InvoiceByUID other db' uid = Inr (as_stored uuid_parse db uid i) \<and>
    (\<forall>u. u \<noteq> uid \<longrightarrow> InvoiceByUID other db' u = InvoiceByUID other db u \<and> row_by ir_uid u (cdb_invoices db') = row_by ir_uid u (cdb_invoices db)) \<and>
    (row_by billed_key (billed_key new) (cdb_invoices db) = None \<longrightarrow> newUID \<notin> ir_uid ` set (cdb_invoices db))"
proof -
  obtain d new news uid where d: "row_by snd (iv_Division i) (cdb_divisions db) = Some (d, iv_Division i)"
    and new: "invoice_row newUID d i = Some new"
    and uid: "uid = (case row_by billed_key (billed_key new) (cdb_invoices db) of None \<Rightarrow> newUID | Some r \<Rightarrow> ir_uid r)"
    and newid: "row_by billed_key (billed_key new) (cdb_invoices db) = None \<Longrightarrow> newUID \<notin> ir_uid ` set (cdb_invoices db)"
    and news: "map (line_row uuid_parse db uid) (iv_Lines i) = map Some news"
    and db': "db' = db\<lparr>cdb_invoices := upsert_by billed_key new (\<lambda>r. new\<lparr>ir_uid := ir_uid r\<rparr>) (cdb_invoices db),
                 cdb_lines := filter (\<lambda>l. il_invoice_uid l \<noteq> uid) (cdb_lines db) @ news\<rparr>"
    by (rule SaveInvoice_Inr [OF assms(1,2)]) (rule that)
  note row = invoice_row_Some [OF new] and ok' = SaveInvoice_ok [OF assms(1,2)]
  have division: "row_by fst d (cdb_divisions db) = Some (d, iv_Division i)"
    using row_by_unique [of fst "cdb_divisions db" "(d, iv_Division i)"] row_by_Some [OF d] assms(2) by (simp add: cost_ok_def)
  have found: "row_by ir_uid u (cdb_invoices db') = (if u = uid then Some (new\<lparr>ir_uid := uid\<rparr>) else row_by ir_uid u (cdb_invoices db))" for u
  proof -
    have "distinct (map ir_uid (cdb_invoices db))" "distinct (map billed_key (cdb_invoices db))" using assms(2) by (simp_all add: cost_ok_def)
    moreover have "row_by billed_key (billed_key new) (cdb_invoices db) = None \<Longrightarrow> ir_uid new \<notin> ir_uid ` set (cdb_invoices db)"
      using newid row(1) by simp
    moreover have "(case row_by billed_key (billed_key new) (cdb_invoices db) of None \<Rightarrow> ir_uid new | Some r \<Rightarrow> ir_uid r) = uid"
      unfolding uid row(1) ..
    ultimately show ?thesis using row_by_uid_upsert [of "cdb_invoices db" new u] unfolding db' by simp
  qed
  have mine: "store_lines other db' uid (iv_Currency i) = Inr (map (stored_line uuid_parse db (iv_Currency i)) (iv_Lines i))"
    using lines_after_save [OF news, of other "iv_Currency i" "cdb_lines db"] assms(3) by (simp add: store_lines_def db' numbered_def)
  have "cdb_divisions db' = cdb_divisions db" by (simp add: db')
  then have header: "read_header other db' (new\<lparr>ir_uid := uid\<rparr>) =
      Inr ((as_stored uuid_parse db uid i)\<lparr>iv_Division := iv_Division i, iv_Lines := []\<rparr>)"
    using row(8) [where uuid_parse = uuid_parse and db = db and other = other and db' = db' and u = uid] by (simp add: division)
  have "InvoiceByUID other db' uid = Inr (as_stored uuid_parse db uid i)"
    using mine unfolding InvoiceByUID_eq [OF ok'] found by (simp add: header) (simp add: as_stored_def)
  moreover have "InvoiceByUID other db' u = InvoiceByUID other db u" if "u \<noteq> uid" for u
  proof -
    have "filter (\<lambda>l. il_invoice_uid l = u) (cdb_lines db') = filter (\<lambda>l. il_invoice_uid l = u) (cdb_lines db)"
    proof -
      have "\<forall>r \<in> set news. il_invoice_uid r = uid"
      proof
        fix r assume "r \<in> set news"
        then have "Some r \<in> set (map (line_row uuid_parse db uid) (iv_Lines i))" unfolding news by simp
        then show "il_invoice_uid r = uid" using read_line_row(2) by fastforce
      qed
      then have "filter (\<lambda>l. il_invoice_uid l = u) news = []" using that by (simp add: filter_empty_conv)
      moreover have "filter (\<lambda>l. il_invoice_uid l = u) (filter (\<lambda>l. il_invoice_uid l \<noteq> uid) (cdb_lines db)) = filter (\<lambda>l. il_invoice_uid l = u) (cdb_lines db)"
        using that by (auto simp: filter_filter intro: filter_cong)
      ultimately show ?thesis by (simp add: db')
    qed
    moreover have "read_header other db' = read_header other db" using \<open>cdb_divisions db' = cdb_divisions db\<close> by (simp only: read_header_def [abs_def])
    moreover have "iv_UID h = u" if "row_by ir_uid u (cdb_invoices db) = Some r" "read_header other db r = Inr h" for r h
      using that row_by_Some [OF that(1)] by (auto simp: read_header_def Let_def split: sum.splits)
    ultimately show ?thesis
      using that by (auto simp: InvoiceByUID_eq [OF ok'] InvoiceByUID_eq [OF assms(2)] found store_lines_def split: option.splits sum.splits)
  qed
  moreover have "cdb_invoices db' = upsert_by billed_key new (\<lambda>r. new\<lparr>ir_uid := ir_uid r\<rparr>) (cdb_invoices db)" by (simp add: db')
  moreover have "row_by ir_uid u (cdb_invoices db') = row_by ir_uid u (cdb_invoices db)" if "u \<noteq> uid" for u
    using that by (simp add: found)
  ultimately show ?thesis
    by (intro exI [of _ d] exI [of _ new] exI [of _ uid] conjI allI impI d new uid newid \<open>cdb_divisions db' = cdb_divisions db\<close>) simp_all
qed


section \<open>Examples\<close>

definition example_cost_db :: CostDB where
  "example_cost_db =
     \<lparr>cdb_divisions = [(''d1'', ''retail'')], cdb_workloads = [''w1''],
      cdb_policies = [\<lparr>pr_name = ''standard'', pr_revision = 2, pr_effective_from = 0, pr_effective_to = None, pr_currency = ''IDR'',
        pr_rates = [1, 1, 0, 0, 0], pr_unallocated_strategy = ''platform'', pr_approved_by = ''ada'', pr_approved_at = 0,
        pr_resource_version = ''7'', pr_observed_at = 0\<rparr>],
      cdb_invoices = [], cdb_lines = []\<rparr>"

definition rupiah :: "rat \<Rightarrow> Money" where "rupiah q = NewMoney ''IDR'' (Some q)"

definition example_invoice :: Invoice where
  "example_invoice =
     \<lparr>iv_UID = [], iv_Division = ''retail'', iv_PeriodStart = 0, iv_PeriodEnd = 31 * day_length, iv_PolicyName = ''standard'',
      iv_PolicyRevision = 2, iv_Currency = ''IDR'', iv_Subtotal = rupiah (1 / 3), iv_UnallocatedShare = rupiah 0,
      iv_Total = rupiah (1 / 3),
      iv_Lines = [\<lparr>it_Number = 1, it_WorkloadUID = ''w9'', it_WorkloadLabel = ''shop/web'', it_Resource = ResourceCPU, it_Quantity = 1,
        it_Unit = ''core-hour'', it_Rate = rupiah (1 / 3), it_Amount = rupiah (1 / 3)\<rparr>],
      iv_InputsDigest = ''x'', iv_GeneratedAt = 40 * day_length\<rparr>"

lemma example_cost_db_ok: "cost_ok example_cost_db"
  by (simp add: cost_ok_def example_cost_db_def)


end
