(* ===== verification/Biller.thy ===== *)
theory Biller
  imports InvoiceStore
begin

text \<open>
  The biller, internal/cost/biller.go, with the adapter that reads requests from the catalogue
  (internal/cli/adapters.go). A sweep bills the month before for every division the cluster lists;
  what the cluster and the catalogue show is a record of the sweep, and \<^verbatim>\<open>biller_Run\<close> is the sequence
  of sweeps its ticker makes. Errors are their texts.
\<close>

section \<open>What the biller asks\<close>

definition workload_requests :: "(string \<Rightarrow> 'o :: linorder) \<Rightarrow> CatalogDB \<Rightarrow> string list option \<Rightarrow> string + WorkloadRequest list" where
  "workload_requests rank db namespaces =
     Inr (map (\<lambda>q. \<lparr>wl_UID = wq_UID q, wl_Namespace = wq_Namespace q, wl_Name = wq_Name q,
                    wl_CPUMillicores = wq_CPUMillicores q, wl_MemoryBytes = wq_MemoryBytes q\<rparr>) (RequestedByWorkload rank db namespaces))"

text \<open>
  The cluster and the catalogue at one moment: the pricing policies and the reader of requests,
  each of which may fail. A division without namespaces has a nil list, which asks for no filter.
\<close>

record BillerWorld =
  bw_policies :: "string + PricingPolicyObject list"
  bw_requested :: "string list option \<Rightarrow> string + WorkloadRequest list"
  bw_number :: "string \<Rightarrow> rat option"
  bw_sha :: "string \<Rightarrow> string"
  bw_uuid :: "string \<Rightarrow> string option"
  bw_refusal :: string

definition division_namespaces :: "Division \<Rightarrow> string list option" where
  "division_namespaces d = (if dv_Namespaces (dv_Status d) = [] then None else Some (dv_Namespaces (dv_Status d)))"

definition biller_policy :: "BillerWorld \<Rightarrow> time \<Rightarrow> string + Policy" where
  "biller_policy w day =
     (case bw_policies w of
        Inl err \<Rightarrow> Inl (''list pricing policies: '' @ err)
      | Inr items \<Rightarrow>
          Effective (List.map_filter (\<lambda>p. case PolicyFrom (bw_number w) p of Inl _ \<Rightarrow> None | Inr q \<Rightarrow> Some q) items) day)"

definition biller_existing :: "BillerWorld \<Rightarrow> CostDB \<Rightarrow> string \<Rightarrow> Period \<Rightarrow> string + Invoice" where
  "biller_existing w db division period =
     (case Invoices (bw_number w) db division 60 of
        Inl err \<Rightarrow> Inl err
      | Inr stored \<Rightarrow>
          (case find (\<lambda>i. iv_PeriodStart i = Start period \<and> iv_PeriodEnd i = End period) stored of
             None \<Rightarrow> Inl ErrInvoiceNotFound | Some i \<Rightarrow> Inr i))"

fun invoice_error :: "InvoiceError \<Rightarrow> string" where
  "invoice_error (ErrPeriodNotOver p) = p @ '': the period has not ended yet, so an invoice would be a forecast''"
| "invoice_error (ErrNoPolicy p) = p @ '': no pricing policy was in force for that period, so nothing can be charged''"

datatype Billing = Billed Invoice | AlreadyBilled Invoice | NotBilled string

definition to_bill :: "BillerWorld \<Rightarrow> Division \<Rightarrow> Period \<Rightarrow> time \<Rightarrow> string + Invoice" where
  "to_bill w division period now =
     (case biller_policy w (add_date (End period) 0 0 (- 1)) of
        Inl err \<Rightarrow> Inl err
      | Inr policy \<Rightarrow>
     (case bw_requested w (division_namespaces division) of
        Inl err \<Rightarrow> Inl (''read workload requests: '' @ err)
      | Inr requested \<Rightarrow>
     (case GenerateInvoice (bw_sha w) (om_Name (dv_Meta division)) period policy (ChargesFor requested period policy)
             (NewMoney (pol_Currency policy) None) now of
        Inl err \<Rightarrow> Inl (invoice_error err) | Inr invoice \<Rightarrow> Inr invoice)))"

definition Generate :: "BillerWorld \<Rightarrow> string \<Rightarrow> CostDB \<Rightarrow> Division \<Rightarrow> Period \<Rightarrow> time \<Rightarrow> Billing \<times> CostDB" where
  "Generate w newUID db division period now =
     (case to_bill w division period now of
        Inl err \<Rightarrow> (NotBilled err, db)
      | Inr invoice \<Rightarrow>
          (case biller_existing w db (om_Name (dv_Meta division)) period of
             Inr existing \<Rightarrow>
               if Reproduces existing invoice then (AlreadyBilled existing, db)
               else (case SaveInvoice (bw_uuid w) (bw_refusal w) newUID db invoice of
                       Inl err \<Rightarrow> (NotBilled err, db) | Inr db' \<Rightarrow> (Billed invoice, db'))
           | Inl _ \<Rightarrow>
               (case SaveInvoice (bw_uuid w) (bw_refusal w) newUID db invoice of
                  Inl err \<Rightarrow> (NotBilled err, db) | Inr db' \<Rightarrow> (Billed invoice, db'))))"

fun bill_each :: "BillerWorld \<Rightarrow> (string \<Rightarrow> string) \<Rightarrow> Period \<Rightarrow> time \<Rightarrow> Division list \<Rightarrow> CostDB \<Rightarrow> Billing list \<times> CostDB" where
  "bill_each w newUID period now [] db = ([], db)"
| "bill_each w newUID period now (d # ds) db =
     (let (r, db) = Generate w (newUID (om_Name (dv_Meta d))) db d period now; (rs, db) = bill_each w newUID period now ds db
      in (r # rs, db))"

definition sweep :: "BillerWorld \<Rightarrow> (string \<Rightarrow> string) \<Rightarrow> time \<Rightarrow> string + Division list \<Rightarrow> CostDB \<Rightarrow> Billing list \<times> CostDB" where
  "sweep w newUID now divisions db =
     (case divisions of Inl _ \<Rightarrow> ([], db) | Inr ds \<Rightarrow> bill_each w newUID (MonthBefore now) now ds db)"

text \<open>Every tick of the clock is a sweep over what the cluster shows at that moment.\<close>

fun biller_Run :: "(BillerWorld \<times> (string \<Rightarrow> string) \<times> time \<times> (string + Division list)) list \<Rightarrow> CostDB \<Rightarrow> CostDB" where
  "biller_Run [] db = db"
| "biller_Run ((w, newUID, now, divisions) # ticks) db = biller_Run ticks (snd (sweep w newUID now divisions db))"

section \<open>Reading the books never fails\<close>

lemma money_reads: "ParseMoney other currency (numeric_text 2 q) = Inr (NewMoney currency (Some (rounded 2 q)))"
proof -
  have "TrimSpace (FloatString 2 q) = FloatString 2 q"
    by (rule TrimSpace_plain) (use FloatString_ends [of 2] in auto)
  moreover have "FloatString 2 q \<noteq> []" by (simp add: FloatString_shape)
  ultimately show ?thesis
    by (simp add: ParseMoney_def numeric_text_def Let_def SetString_def decimal_text_FloatString)
qed

lemma quantity_reads: "SetString other (numeric_text 6 q) = Some (rounded 6 q)"
  by (simp add: numeric_text_def SetString_def decimal_text_FloatString)

definition shown_line :: "string \<Rightarrow> LineRow \<Rightarrow> InvoiceItem" where
  "shown_line currency r =
     \<lparr>it_Number = il_line_no r, it_WorkloadUID = coalesce [] (il_workload_uid r), it_WorkloadLabel = il_workload_label r,
      it_Resource = il_resource r, it_Quantity = rounded 6 (il_quantity r), it_Unit = il_unit r,
      it_Rate = NewMoney currency (Some (rounded 2 (il_rate r))), it_Amount = NewMoney currency (Some (rounded 2 (il_amount r)))\<rparr>"

lemma read_line_Inr: "read_line other currency r = Inr (shown_line currency r)"
  by (simp add: read_line_def shown_line_def money_reads quantity_reads)

lemma read_all_total: "(\<And>x. f x = Inr (g x)) \<Longrightarrow> read_all f xs = Inr (map g xs)"
  by (induction xs) simp_all

definition shown_invoice :: "CostDB \<Rightarrow> InvoiceRow \<Rightarrow> Invoice" where
  "shown_invoice db r =
     \<lparr>iv_UID = ir_uid r, iv_Division = (case row_by fst (ir_division_uid r) (cdb_divisions db) of None \<Rightarrow> [] | Some d \<Rightarrow> snd d),
      iv_PeriodStart = ir_period_start r, iv_PeriodEnd = ir_period_end r, iv_PolicyName = ir_policy_name r,
      iv_PolicyRevision = ir_policy_revision r, iv_Currency = ir_currency r,
      iv_Subtotal = NewMoney (ir_currency r) (Some (rounded 2 (ir_subtotal r))),
      iv_UnallocatedShare = NewMoney (ir_currency r) (Some (rounded 2 (ir_unallocated_share r))),
      iv_Total = NewMoney (ir_currency r) (Some (rounded 2 (ir_total r))),
      iv_Lines = map (shown_line (ir_currency r)) (sort_key il_line_no (filter (\<lambda>l. il_invoice_uid l = ir_uid r) (cdb_lines db))),
      iv_InputsDigest = ir_inputs_digest r, iv_GeneratedAt = ir_generated_at r\<rparr>"

lemma scanInvoices_Inr: "scanInvoices other db rows = Inr (map (shown_invoice db) rows)"
proof -
  have h: "read_header other db r = Inr (shown_invoice db r\<lparr>iv_Lines := []\<rparr>)" for r
    by (simp add: read_header_def money_reads Let_def shown_invoice_def)
  have l: "store_lines other db uid currency = Inr (map (shown_line currency) (sort_key il_line_no (filter (\<lambda>l. il_invoice_uid l = uid) (cdb_lines db))))" for uid currency
    unfolding store_lines_def by (rule read_all_total) (rule read_line_Inr)
  have "read_all (read_header other db) rows = Inr (map (\<lambda>r. shown_invoice db r\<lparr>iv_Lines := []\<rparr>) rows)"
    by (rule read_all_total) (rule h)
  then show ?thesis
    unfolding scanInvoices_def l
    by (simp add: read_all_total [where g = "\<lambda>f. f\<lparr>iv_Lines := map (shown_line (iv_Currency f)) (sort_key il_line_no (filter (\<lambda>l. il_invoice_uid l = iv_UID f) (cdb_lines db)))\<rparr>"] comp_def)
      (simp add: shown_invoice_def)
qed

section \<open>Billing a month again\<close>

definition division_rows :: "CostDB \<Rightarrow> string \<Rightarrow> InvoiceRow list" where
  "division_rows db division =
     filter (\<lambda>r. (case row_by fst (ir_division_uid r) (cdb_divisions db) of None \<Rightarrow> False | Some d \<Rightarrow> snd d = division)) (cdb_invoices db)"

lemma Invoices_Inr: "Invoices other db division 60 = Inr (map (shown_invoice db) (take 60 (sort_key (\<lambda>r. - ir_period_start r) (division_rows db division))))"
  by (simp add: Invoices_def scanInvoices_Inr division_rows_def)

text \<open>No invoice of the division is for a later month, and none for the same days but one.\<close>

definition latest_month :: "CostDB \<Rightarrow> string \<Rightarrow> Period \<Rightarrow> bool" where
  "latest_month db division period \<longleftrightarrow>
     (\<forall>r \<in> set (division_rows db division). ir_period_start r < Start period \<or> ir_period_start r = Start period \<and> ir_period_end r = End period)"

lemma existing_latest:
  assumes "latest_month db division period" and "distinct (map billed_key (cdb_invoices db))" and "distinct (map snd (cdb_divisions db))"
  shows "biller_existing w db division period =
    (case find (\<lambda>r. ir_period_start r = Start period \<and> ir_period_end r = End period) (division_rows db division) of
       None \<Rightarrow> Inl ErrInvoiceNotFound | Some r \<Rightarrow> Inr (shown_invoice db r))"
proof -
  let ?P = "\<lambda>r. ir_period_start r = Start period \<and> ir_period_end r = End period"
  let ?rows = "division_rows db division" and ?sorted = "sort_key (\<lambda>r. - ir_period_start r) (division_rows db division)"
  have ex: "biller_existing w db division period = (case find ?P (take 60 ?sorted) of None \<Rightarrow> Inl ErrInvoiceNotFound | Some r \<Rightarrow> Inr (shown_invoice db r))"
  proof -
    have "find (\<lambda>i. iv_PeriodStart i = Start period \<and> iv_PeriodEnd i = End period) (map (shown_invoice db) xs) = map_option (shown_invoice db) (find ?P xs)" for xs
      by (induction xs) (simp_all add: shown_invoice_def)
    then show ?thesis by (simp add: biller_existing_def Invoices_Inr split: option.split)
  qed
  have same: "r = r'" if "r \<in> set ?rows" "r' \<in> set ?rows" "?P r" "?P r'" for r r'
  proof -
    have "ir_division_uid r = ir_division_uid r'"
    proof -
      have "\<exists>d. row_by fst (ir_division_uid x) (cdb_divisions db) = Some (d, division) \<and> d = ir_division_uid x" if "x \<in> set ?rows" for x
        using that by (auto simp: division_rows_def split: option.splits dest: row_by_Some)
      then have "(ir_division_uid r, division) \<in> set (cdb_divisions db)" "(ir_division_uid r', division) \<in> set (cdb_divisions db)"
        using \<open>r \<in> set ?rows\<close> \<open>r' \<in> set ?rows\<close> by (metis row_by_Some)+
      moreover have "inj_on snd (set (cdb_divisions db))" using assms(3) by (simp add: distinct_map)
      ultimately show ?thesis by (metis inj_onD prod.inject snd_conv)
    qed
    then have "billed_key r = billed_key r'" using that by (simp add: billed_key_def)
    moreover have "r \<in> set (cdb_invoices db)" "r' \<in> set (cdb_invoices db)" using that by (auto simp: division_rows_def)
    ultimately show ?thesis using assms(2) by (auto simp: distinct_map inj_on_def)
  qed
  have "find ?P (take 60 ?sorted) = find ?P ?rows"
  proof (cases "find ?P ?rows")
    case None
    then have "\<forall>r \<in> set ?rows. \<not> ?P r" by (auto simp: find_None_iff)
    then have "find ?P (take 60 ?sorted) = None" unfolding find_None_iff by (auto dest: in_set_takeD)
    then show ?thesis by (simp only: None)
  next
    case (Some r)
    then have r: "r \<in> set ?rows" "?P r" by (auto simp: find_Some_iff)
    obtain x xs where x: "?sorted = x # xs"
      using r(1) by (cases ?sorted) (auto dest: arg_cong [where f = set])
    have "x \<in> set ?rows" using x by (metis list.set_intros(1) set_sort)
    have "- ir_period_start x \<le> - ir_period_start r"
    proof -
      have "sorted (map (\<lambda>r. - ir_period_start r) (x # xs))" unfolding x [symmetric] by simp
      moreover have "r \<in> set (x # xs)" unfolding x [symmetric] using r(1) by simp
      ultimately show ?thesis by auto
    qed
    then have "?P x" using r assms(1) \<open>x \<in> set ?rows\<close> by (auto simp: latest_month_def)
    then have "x = r" using same [OF \<open>x \<in> set ?rows\<close> r(1)] r(2) by simp
    then show ?thesis using Some \<open>?P x\<close> by (simp add: x)
  qed
  then show ?thesis using ex by simp
qed

lemma to_bill_facts:
  assumes "to_bill w d period now = Inr i"
  shows "iv_Division i = om_Name (dv_Meta d)" "iv_PeriodStart i = Start period" "iv_PeriodEnd i = End period" "numbered i"
    "iv_InputsDigest i = bw_sha w (digest_text i)"
proof -
  obtain policy charges where g: "GenerateInvoice (bw_sha w) (om_Name (dv_Meta d)) period policy charges (NewMoney (pol_Currency policy) None) now = Inr i"
    using assms by (auto simp: to_bill_def split: sum.splits)
  have f: "iv_Division i = om_Name (dv_Meta d) \<and> iv_PeriodStart i = Start period \<and> iv_PeriodEnd i = End period \<and>
      iv_Lines i = invoice_lines 0 (sort_key charge_key charges) \<and> iv_InputsDigest i = bw_sha w (digest_text i)"
    using GenerateInvoice_cases [where sha = "bw_sha w" and division = "om_Name (dv_Meta d)" and period = period and policy = policy
        and charges = charges and unallocated = "NewMoney (pol_Currency policy) None" and now = now] unfolding g by auto
  then show "iv_Division i = om_Name (dv_Meta d)" "iv_PeriodStart i = Start period" "iv_PeriodEnd i = End period"
    "iv_InputsDigest i = bw_sha w (digest_text i)" by simp_all
  have "map it_Number (iv_Lines i) = map (\<lambda>k. 1 + int k) [0..<length charges]"
    using f invoice_lines_map(1) [of 0 "sort_key charge_key charges"] by simp
  moreover have "sorted (map (\<lambda>k. 1 + int k) [0..<n])" for n
    by (simp add: sorted_iff_nth_mono)
  ultimately show "numbered i" by (simp add: numbered_def)
qed

lemma to_bill_later:
  assumes "to_bill w d period now = Inr i" and "now \<le> now'"
  obtains j where "to_bill w d period now' = Inr j" and "iv_InputsDigest j = iv_InputsDigest i"
proof -
  obtain policy requested where *: "biller_policy w (add_date (End period) 0 0 (- 1)) = Inr policy" "bw_requested w (division_namespaces d) = Inr requested"
    and g: "GenerateInvoice (bw_sha w) (om_Name (dv_Meta d)) period policy (ChargesFor requested period policy) (NewMoney (pol_Currency policy) None) now = Inr i"
    using assms(1) by (auto simp: to_bill_def split: sum.splits)
  have "GenerateInvoice (bw_sha w) (om_Name (dv_Meta d)) period policy (ChargesFor requested period policy) (NewMoney (pol_Currency policy) None) now' = Inr (i\<lparr>iv_GeneratedAt := now'\<rparr>)"
    using g assms(2) by (auto simp: GenerateInvoice_def Over_def Let_def invoice_digest_def digest_text_def split: if_splits)
  then have "to_bill w d period now' = Inr (i\<lparr>iv_GeneratedAt := now'\<rparr>)" using * by (simp add: to_bill_def)
  then show ?thesis by (rule that) simp
qed

lemma Generate_Billed:
  assumes "Generate w newUID db d period now = (Billed i, db')"
  shows "to_bill w d period now = Inr i" and "SaveInvoice (bw_uuid w) (bw_refusal w) newUID db i = Inr db'"
  using assms by (auto simp: Generate_def split: sum.splits if_splits)

text \<open>The rows of a division after its month was saved.\<close>

lemma saved_month:
  assumes save: "SaveInvoice uuid_parse refusal newUID db i = Inr db'" and ok: "cost_ok db"
    and days: "to_date (iv_PeriodStart i) = iv_PeriodStart i" "to_date (iv_PeriodEnd i) = iv_PeriodEnd i"
    and latest: "latest_month db (iv_Division i) \<lparr>Start = iv_PeriodStart i, End = iv_PeriodEnd i\<rparr>"
  shows "latest_month db' (iv_Division i) \<lparr>Start = iv_PeriodStart i, End = iv_PeriodEnd i\<rparr>"
    and "\<exists>r. find (\<lambda>r. ir_period_start r = iv_PeriodStart i \<and> ir_period_end r = iv_PeriodEnd i) (division_rows db' (iv_Division i)) = Some r \<and>
      ir_inputs_digest r = iv_InputsDigest i"
proof -
  obtain d new uid news where d: "row_by snd (iv_Division i) (cdb_divisions db) = Some (d, iv_Division i)"
    and new: "invoice_row newUID d i = Some new"
    and db': "db' = db\<lparr>cdb_invoices := upsert_by billed_key new (\<lambda>r. new\<lparr>ir_uid := ir_uid r\<rparr>) (cdb_invoices db),
                 cdb_lines := filter (\<lambda>l. il_invoice_uid l \<noteq> uid) (cdb_lines db) @ news\<rparr>"
    by (rule SaveInvoice_Inr [OF save ok]) (rule that)
  note row = invoice_row_Some [OF new]
  let ?inv = "upsert_by billed_key new (\<lambda>r. new\<lparr>ir_uid := ir_uid r\<rparr>) (cdb_invoices db)"
  let ?P = "\<lambda>r. ir_period_start r = iv_PeriodStart i \<and> ir_period_end r = iv_PeriodEnd i"
  have key: "billed_key new = (d, iv_PeriodStart i, iv_PeriodEnd i)" using row(3) days by simp
  have elem: "r \<in> set (cdb_invoices db) \<and> billed_key r \<noteq> billed_key new \<or>
      billed_key r = billed_key new \<and> ir_inputs_digest r = iv_InputsDigest i" if "r \<in> set ?inv" for r
    using upsert_by_set [OF that] row(7) by auto
  have mine: "\<exists>r \<in> set ?inv. billed_key r = billed_key new"
  proof -
    have "billed_key new \<in> billed_key ` set ?inv" by (subst upsert_by_key_set) auto
    then show ?thesis by auto
  qed
  have rows: "division_rows db' (iv_Division i) = filter (\<lambda>r. case row_by fst (ir_division_uid r) (cdb_divisions db) of None \<Rightarrow> False | Some d \<Rightarrow> snd d = iv_Division i) ?inv"
    by (simp add: division_rows_def db')
  have division: "row_by fst d (cdb_divisions db) = Some (d, iv_Division i)"
    using row_by_unique [of fst "cdb_divisions db" "(d, iv_Division i)"] row_by_Some [OF d] ok by (simp add: cost_ok_def)
  show "latest_month db' (iv_Division i) \<lparr>Start = iv_PeriodStart i, End = iv_PeriodEnd i\<rparr>"
    unfolding latest_month_def rows
  proof
    fix r assume r: "r \<in> set (filter (\<lambda>r. case row_by fst (ir_division_uid r) (cdb_divisions db) of None \<Rightarrow> False | Some d \<Rightarrow> snd d = iv_Division i) ?inv)"
    then have "r \<in> set ?inv" by simp
    from elem [OF this] show "ir_period_start r < Start \<lparr>Start = iv_PeriodStart i, End = iv_PeriodEnd i\<rparr> \<or>
        ir_period_start r = Start \<lparr>Start = iv_PeriodStart i, End = iv_PeriodEnd i\<rparr> \<and> ir_period_end r = End \<lparr>Start = iv_PeriodStart i, End = iv_PeriodEnd i\<rparr>"
      using r latest unfolding key by (auto simp: latest_month_def division_rows_def billed_key_def)
  qed
  obtain r where r: "r \<in> set ?inv" "billed_key r = billed_key new" using mine by blast
  then have "?P r" "ir_division_uid r = d" unfolding key by (simp_all add: billed_key_def)
  then have "r \<in> set (division_rows db' (iv_Division i))" using r(1) division by (simp add: rows)
  then obtain r' where r': "find ?P (division_rows db' (iv_Division i)) = Some r'" using \<open>?P r\<close>
    by (cases "find ?P (division_rows db' (iv_Division i))") (auto simp: find_None_iff)
  then have "?P r'" "r' \<in> set (division_rows db' (iv_Division i))" by (auto simp: find_Some_iff)
  then have "r' \<in> set ?inv" and uid': "row_by fst (ir_division_uid r') (cdb_divisions db) = Some (ir_division_uid r', iv_Division i)"
    by (auto simp: rows split: option.splits dest: row_by_Some)
  have "inj_on snd (set (cdb_divisions db))" using ok by (simp add: cost_ok_def distinct_map)
  then have "ir_division_uid r' = d"
    using row_by_Some [OF uid'] row_by_Some [OF d] by (metis inj_onD prod.inject snd_conv)
  then have "billed_key r' = billed_key new" using \<open>?P r'\<close> unfolding key by (simp add: billed_key_def)
  then show "\<exists>r. find ?P (division_rows db' (iv_Division i)) = Some r \<and> ir_inputs_digest r = iv_InputsDigest i"
    using elem [OF \<open>r' \<in> set ?inv\<close>] r' by auto
qed

lemma rebilled_under_its_uid:
  assumes first: "SaveInvoice p refusal u db i = Inr db'" and ok: "cost_ok db" and ni: "numbered i"
    and second: "SaveInvoice p' refusal' u' db' j = Inr db''" and ok': "cost_ok db'" and nj: "numbered j"
    and same: "iv_Division j = iv_Division i" "iv_PeriodStart j = iv_PeriodStart i" "iv_PeriodEnd j = iv_PeriodEnd i"
  shows "\<exists>uid. InvoiceByUID other db' uid = Inr (as_stored p db uid i) \<and> InvoiceByUID other db'' uid = Inr (as_stored p' db' uid j)"
proof -
  obtain d new where d: "row_by snd (iv_Division i) (cdb_divisions db) = Some (d, iv_Division i)" and new: "invoice_row u d i = Some new"
    and one: "InvoiceByUID other db' (case row_by billed_key (billed_key new) (cdb_invoices db) of None \<Rightarrow> u | Some r \<Rightarrow> ir_uid r) =
      Inr (as_stored p db (case row_by billed_key (billed_key new) (cdb_invoices db) of None \<Rightarrow> u | Some r \<Rightarrow> ir_uid r) i)"
    and rows: "cdb_invoices db' = upsert_by billed_key new (\<lambda>r. new\<lparr>ir_uid := ir_uid r\<rparr>) (cdb_invoices db)" "cdb_divisions db' = cdb_divisions db"
    using saved_under [OF first ok ni, of other] by metis
  obtain d' new' where d': "row_by snd (iv_Division j) (cdb_divisions db') = Some (d', iv_Division j)" and new': "invoice_row u' d' j = Some new'"
    and two: "InvoiceByUID other db'' (case row_by billed_key (billed_key new') (cdb_invoices db') of None \<Rightarrow> u' | Some r \<Rightarrow> ir_uid r) =
      Inr (as_stored p' db' (case row_by billed_key (billed_key new') (cdb_invoices db') of None \<Rightarrow> u' | Some r \<Rightarrow> ir_uid r) j)"
    using saved_under [OF second ok' nj, of other] by metis
  have "d' = d" using d d' same(1) rows(2) by simp
  then have key: "billed_key new' = billed_key new"
    using invoice_row_Some(3) [OF new] invoice_row_Some(3) [OF new'] same by simp
  have "row_by billed_key (billed_key new) (cdb_invoices db') =
      Some (case row_by billed_key (billed_key new) (cdb_invoices db) of None \<Rightarrow> new | Some r \<Rightarrow> new\<lparr>ir_uid := ir_uid r\<rparr>)"
    unfolding rows(1) by (subst row_by_upsert) auto
  then have "(case row_by billed_key (billed_key new') (cdb_invoices db') of None \<Rightarrow> u' | Some r \<Rightarrow> ir_uid r) =
      (case row_by billed_key (billed_key new) (cdb_invoices db) of None \<Rightarrow> u | Some r \<Rightarrow> ir_uid r)"
    using invoice_row_Some(1) [OF new] by (simp add: key split: option.split)
  then show ?thesis using one two by metis
qed

lemma rebilled_month:
  assumes "cost_ok db" and "latest_month db (om_Name (dv_Meta d)) period"
    and "to_date (Start period) = Start period" and "to_date (End period) = End period"
    and "Generate w newUID db d period now = (Billed i, db')" and "to_bill w' d period now' = Inr j"
    and "iv_InputsDigest i \<noteq> []" and "iv_InputsDigest j \<noteq> []"
  shows "case Generate w' newUID' db' d period now' of
      (AlreadyBilled e, db'') \<Rightarrow> iv_InputsDigest j = iv_InputsDigest i \<and> iv_InputsDigest e = iv_InputsDigest i \<and> db'' = db'
    | (Billed k, db'') \<Rightarrow> k = j \<and> iv_InputsDigest j \<noteq> iv_InputsDigest i \<and>
        (\<exists>uid. InvoiceByUID other db' uid = Inr (as_stored (bw_uuid w) db uid i) \<and> InvoiceByUID other db'' uid = Inr (as_stored (bw_uuid w') db' uid j))
    | (NotBilled _, db'') \<Rightarrow> iv_InputsDigest j \<noteq> iv_InputsDigest i \<and> db'' = db'"
proof -
  note bill = Generate_Billed [OF assms(5)]
  note i = to_bill_facts [OF bill(1)] and j = to_bill_facts [OF assms(6)]
  have ok': "cost_ok db'" by (rule SaveInvoice_ok [OF bill(2) assms(1)])
  have period: "\<lparr>Start = iv_PeriodStart i, End = iv_PeriodEnd i\<rparr> = period" by (simp add: i)
  note saved = saved_month [OF bill(2) assms(1), unfolded period, unfolded i(1-3), OF assms(3,4,2)]
  from saved(2) obtain r where r: "find (\<lambda>r. ir_period_start r = Start period \<and> ir_period_end r = End period) (division_rows db' (om_Name (dv_Meta d))) = Some r"
    "ir_inputs_digest r = iv_InputsDigest i" by blast
  have existing: "biller_existing w' db' (om_Name (dv_Meta d)) period = Inr (shown_invoice db' r)"
    using existing_latest [OF saved(1), of w'] ok' r(1) by (simp add: cost_ok_def)
  have digest: "iv_InputsDigest (shown_invoice db' r) = iv_InputsDigest i" by (simp add: shown_invoice_def r(2))
  show ?thesis
  proof (cases "iv_InputsDigest j = iv_InputsDigest i")
    case True
    then show ?thesis using assms(7) by (simp add: Generate_def assms(6) existing Reproduces_def digest)
  next
    case False
    then have g: "Generate w' newUID' db' d period now' =
        (case SaveInvoice (bw_uuid w') (bw_refusal w') newUID' db' j of Inl err \<Rightarrow> (NotBilled err, db') | Inr db'' \<Rightarrow> (Billed j, db''))"
      by (simp add: Generate_def assms(6) existing Reproduces_def digest)
    show ?thesis
    proof (cases "SaveInvoice (bw_uuid w') (bw_refusal w') newUID' db' j")
      case (Inl err)
      then show ?thesis using False by (simp add: g)
    next
      case (Inr db'')
      have "\<exists>uid. InvoiceByUID other db' uid = Inr (as_stored (bw_uuid w) db uid i) \<and> InvoiceByUID other db'' uid = Inr (as_stored (bw_uuid w') db' uid j)"
        using rebilled_under_its_uid [OF bill(2) assms(1) i(4) Inr ok' j(4)] i j by simp
      then show ?thesis using False by (simp add: g Inr)
    qed
  qed
qed

text \<open>
  C30. The month that was just billed, billed again: when the inputs give the same digest nothing is
  written; when they give another, the stored invoice is replaced under its uid by the new one,
  lines and amounts, or the statement is refused and the books stay as they were.
\<close>
theorem month_is_rebilled_exactly_on_new_inputs:
  assumes "cost_ok db" and "latest_month db (om_Name (dv_Meta d)) period"
    and "to_date (Start period) = Start period" and "to_date (End period) = End period"
    and "Generate w newUID db d period now = (Billed i, db')" and "to_bill w' d period now' = Inr j"
    and "iv_InputsDigest i \<noteq> []" and "iv_InputsDigest j \<noteq> []"
  shows "case Generate w' newUID' db' d period now' of
      (AlreadyBilled e, db'') \<Rightarrow> iv_InputsDigest j = iv_InputsDigest i \<and> iv_InputsDigest e = iv_InputsDigest i \<and> db'' = db'
    | (Billed k, db'') \<Rightarrow> k = j \<and> iv_InputsDigest j \<noteq> iv_InputsDigest i \<and>
        (\<exists>uid. InvoiceByUID other db' uid = Inr (as_stored (bw_uuid w) db uid i) \<and> InvoiceByUID other db'' uid = Inr (as_stored (bw_uuid w') db' uid j))
    | (NotBilled _, db'') \<Rightarrow> iv_InputsDigest j \<noteq> iv_InputsDigest i \<and> db'' = db'"
  using assms by (rule rebilled_month)

text \<open>
  Billing the month again over the same inputs writes nothing.
\<close>
lemma billing_again_writes_nothing:
  assumes "cost_ok db" and "latest_month db (om_Name (dv_Meta d)) period"
    and "to_date (Start period) = Start period" and "to_date (End period) = End period"
    and "Generate w newUID db d period now = (Billed i, db')" and "now \<le> now'" and "iv_InputsDigest i \<noteq> []"
  shows "\<exists>e. Generate w newUID' db' d period now' = (AlreadyBilled e, db')"
proof -
  obtain j where "to_bill w d period now' = Inr j" "iv_InputsDigest j = iv_InputsDigest i"
    by (rule to_bill_later [OF Generate_Billed(1) [OF assms(5)] assms(6)])
  then show ?thesis
    using rebilled_month [OF assms(1-5), where w' = w and now' = now' and j = j and newUID' = newUID'] assms(7)
    by (cases "Generate w newUID' db' d period now'"; cases "fst (Generate w newUID' db' d period now')") auto
qed

section \<open>Whom a division pays for\<close>

lemma project_image:
  assumes "(\<lambda>l. (f l, g l)) ` A = (\<lambda>c. (f' c, g' c)) ` B"
  shows "f ` {l \<in> A. g l = k} = f' ` {c \<in> B. g' c = k}"
proof -
  have "f ` {l \<in> A. g l = k} = {x. (x, k) \<in> (\<lambda>l. (f l, g l)) ` A}" by force
  also have "\<dots> = f' ` {c \<in> B. g' c = k}" unfolding assms by force
  finally show ?thesis .
qed

lemma ChargesFor_cpu:
  "ch_WorkloadUID ` {c \<in> set (ChargesFor requested period policy). ch_Resource c = ResourceCPU} =
     wl_UID ` {q \<in> set requested. 0 < wl_CPUMillicores q}"
  by (force simp: ChargesFor_def workload_charges_def Let_def)

lemma invoice_lines_uids: "map (\<lambda>l. (it_WorkloadUID l, it_Resource l)) (invoice_lines n cs) = map (\<lambda>c. (ch_WorkloadUID c, ch_Resource c)) cs"
  by (induction n cs rule: invoice_lines.induct) simp_all


section \<open>What sweeping leaves alone\<close>

lemma SaveInvoice_other_months:
  assumes save: "SaveInvoice p refusal u db i = Inr db'" and ok: "cost_ok db" and n: "numbered i"
    and r: "row_by ir_uid v (cdb_invoices db) = Some r" and other_month: "ir_period_start r \<noteq> to_date (iv_PeriodStart i)"
  shows "InvoiceByUID other db' v = InvoiceByUID other db v" and "row_by ir_uid v (cdb_invoices db') = Some r"
proof -
  obtain d new uid where new: "invoice_row u d i = Some new"
    and uid: "uid = (case row_by billed_key (billed_key new) (cdb_invoices db) of None \<Rightarrow> u | Some r \<Rightarrow> ir_uid r)"
    and rest: "\<forall>x. x \<noteq> uid \<longrightarrow> InvoiceByUID other db' x = InvoiceByUID other db x \<and> row_by ir_uid x (cdb_invoices db') = row_by ir_uid x (cdb_invoices db)"
    and newid: "row_by billed_key (billed_key new) (cdb_invoices db) = None \<longrightarrow> u \<notin> ir_uid ` set (cdb_invoices db)"
    using saved_under [OF save ok n, of other] by metis
  have "v \<noteq> uid"
  proof (cases "row_by billed_key (billed_key new) (cdb_invoices db)")
    case None
    then show ?thesis using uid newid row_by_Some [OF r] by auto
  next
    case (Some s)
    then have s: "s \<in> set (cdb_invoices db)" "ir_period_start s = to_date (iv_PeriodStart i)"
      using row_by_Some [OF Some] invoice_row_Some(3) [OF new] by (auto simp: billed_key_def)
    show ?thesis
    proof
      assume "v = uid"
      then have "row_by ir_uid (ir_uid s) (cdb_invoices db) = Some r" using r uid Some by simp
      moreover have "row_by ir_uid (ir_uid s) (cdb_invoices db) = Some s"
        by (rule row_by_unique) (use ok s in \<open>simp_all add: cost_ok_def\<close>)
      ultimately show False using s(2) other_month by simp
    qed
  qed
  then show "InvoiceByUID other db' v = InvoiceByUID other db v" and "row_by ir_uid v (cdb_invoices db') = Some r"
    using rest r by auto
qed

definition untouched :: "(string \<Rightarrow> rat option) \<Rightarrow> CostDB \<Rightarrow> CostDB \<Rightarrow> string \<Rightarrow> InvoiceRow \<Rightarrow> bool" where
  "untouched other db db' v r \<longleftrightarrow> row_by ir_uid v (cdb_invoices db') = Some r \<and> InvoiceByUID other db' v = InvoiceByUID other db v"

lemma Generate_keeps:
  assumes ok: "cost_ok db" and r: "row_by ir_uid v (cdb_invoices db) = Some r" and m: "ir_period_start r \<noteq> to_date (Start period)"
  shows "cost_ok (snd (Generate w u db d period now)) \<and> untouched other db (snd (Generate w u db d period now)) v r"
proof (cases "fst (Generate w u db d period now)")
  case (Billed i)
  then obtain db' where g: "Generate w u db d period now = (Billed i, db')" by (cases "Generate w u db d period now") simp
  note b = Generate_Billed [OF g] and f = to_bill_facts [OF Generate_Billed(1) [OF g]]
  show ?thesis
    using SaveInvoice_ok [OF b(2) ok] SaveInvoice_other_months(1) [OF b(2) ok f(4) r, of other] SaveInvoice_other_months(2) [OF b(2) ok f(4) r] m by (simp add: g f(2) untouched_def)
next
  case (AlreadyBilled e)
  then have "snd (Generate w u db d period now) = db" by (auto simp: Generate_def split: sum.splits if_splits)
  then show ?thesis using ok r by (simp add: untouched_def)
next
  case (NotBilled err)
  then have "snd (Generate w u db d period now) = db" by (auto simp: Generate_def split: sum.splits if_splits)
  then show ?thesis using ok r by (simp add: untouched_def)
qed

lemma bill_each_keeps:
  assumes "cost_ok db" and "row_by ir_uid v (cdb_invoices db) = Some r" and "ir_period_start r \<noteq> to_date (Start period)"
  shows "cost_ok (snd (bill_each w u period now ds db)) \<and> untouched other db (snd (bill_each w u period now ds db)) v r"
  using assms(1,2)
proof (induction ds arbitrary: db)
  case (Cons d ds)
  let ?db = "snd (Generate w (u (om_Name (dv_Meta d))) db d period now)"
  have step: "cost_ok ?db" "untouched other db ?db v r"
    using Generate_keeps [OF Cons.prems assms(3)] by simp_all
  have "snd (bill_each w u period now (d # ds) db) = snd (bill_each w u period now ds ?db)" by (simp add: split_beta)
  then show ?case using Cons.IH [OF step(1)] step(2) by (simp add: untouched_def)
qed (simp add: untouched_def)

text \<open>
  C32. However often the biller sweeps and whatever it finds, an invoice for another month than
  those it swept keeps its uid and reads as before, and the books stay consistent.
\<close>
theorem sweeps_leave_other_months_alone:
  assumes "cost_ok db" and "row_by ir_uid v (cdb_invoices db) = Some r"
    and "\<forall>(w, u, now, ds) \<in> set ticks. ir_period_start r \<noteq> to_date (Start (MonthBefore now))"
  shows "cost_ok (biller_Run ticks db) \<and> row_by ir_uid v (cdb_invoices (biller_Run ticks db)) = Some r \<and>
    InvoiceByUID other (biller_Run ticks db) v = InvoiceByUID other db v"
  using assms
proof (induction ticks arbitrary: db)
  case (Cons t ticks)
  obtain w u now divisions where t: "t = (w, u, now, divisions)" by (cases t)
  have "cost_ok (snd (sweep w u now divisions db)) \<and> untouched other db (snd (sweep w u now divisions db)) v r"
    using bill_each_keeps [OF Cons.prems(1,2), of "MonthBefore now"] Cons.prems t
    by (cases divisions) (auto simp: sweep_def untouched_def)
  then show ?case using Cons.IH [of "snd (sweep w u now divisions db)"] Cons.prems(3) by (simp add: t untouched_def)
qed simp

section \<open>Examples\<close>

definition example_world :: BillerWorld where
  "example_world =
     \<lparr>bw_policies = Inr [example_object ''2024-01-01'' []],
      bw_requested = workload_requests id (upserted [] 8 (pj_db no_catalogue) (example_workload ''a'' ''9'')),
      bw_number = (\<lambda>_. None), bw_sha = (\<lambda>t. ''digest''), bw_uuid = Some, bw_refusal = ''refused''\<rparr>"

definition example_retail :: Division where
  "example_retail =
     \<lparr>dv_Meta = example_meta\<lparr>om_Name := ''retail''\<rparr>,
      dv_Spec = \<lparr>DisplayName = [], Environments = [], dv_Quota = zero_quota,
        dv_Limits = \<lparr>DefaultRequestCPU = zero_quantity, DefaultRequestMemory = zero_quantity, MaxCPUPerPod = zero_quantity, MaxMemoryPerPod = zero_quantity\<rparr>,
        Access = [], DefaultDeny = None, Suspended = False\<rparr>,
      dv_Status = \<lparr>dv_Phase = DivisionActive, dv_Namespaces = [], QuotaBackend = [], dv_ObservedGeneration = 0, dv_Conditions = []\<rparr>\<rparr>"

definition books :: CostDB where
  "books = example_cost_db\<lparr>cdb_policies := map (\<lambda>r. r\<lparr>pr_name := ''rates'', pr_revision := 3\<rparr>) (cdb_policies example_cost_db)\<rparr>"

lemma january_days: "to_date (Start january) = Start january" "to_date (End january) = End january" "End january \<le> make_date 2024 2 9"
  by code_simp+

lemma january_policy: "biller_policy example_world (add_date (End january) 0 0 (- 1)) = Inr example_policy"
proof -
  have "EffectiveOn example_policy (add_date (End january) 0 0 (- 1))" by code_simp
  then show ?thesis
    using example_policy_from by (simp add: biller_policy_def example_world_def List.map_filter_def Effective_def)
qed

text \<open>An invoice over the example policy, whatever was requested.\<close>

lemma january_bill:
  assumes "bw_policies w = bw_policies example_world" and "bw_number w = bw_number example_world"
    and "bw_requested w (division_namespaces example_retail) = Inr requested" and "End january \<le> now"
  obtains i where "to_bill w example_retail january now = Inr i" "iv_Lines i = invoice_lines 0 (sort_key charge_key (ChargesFor requested january example_policy))"
    "iv_InputsDigest i = bw_sha w (digest_text i)"
    "GenerateInvoice (bw_sha w) ''retail'' january example_policy (ChargesFor requested january example_policy) (NewMoney ''IDR'' None) now = Inr i"
proof -
  have p: "biller_policy w (add_date (End january) 0 0 (- 1)) = Inr example_policy"
    using january_policy unfolding biller_policy_def assms(1,2) .
  have g: "\<exists>i. GenerateInvoice (bw_sha w) ''retail'' january example_policy (ChargesFor requested january example_policy) (NewMoney ''IDR'' None) now = Inr i \<and>
      iv_Lines i = invoice_lines 0 (sort_key charge_key (ChargesFor requested january example_policy)) \<and> iv_InputsDigest i = bw_sha w (digest_text i)"
    using GenerateInvoice_cases [where sha = "bw_sha w" and division = "''retail''" and period = january and policy = example_policy
        and charges = "ChargesFor requested january example_policy" and unallocated = "NewMoney ''IDR'' None" and now = now] assms(4)
    by (auto simp: example_policy_def)
  have name: "om_Name (dv_Meta example_retail) = ''retail''" "pol_Currency example_policy = ''IDR''"
    by (simp_all add: example_retail_def example_policy_def)
  show thesis using g that by (auto simp: to_bill_def p assms(3) name)
qed


definition idle_world :: BillerWorld where
  "idle_world = example_world\<lparr>bw_requested := (\<lambda>_. Inr [])\<rparr>"

lemma books_ok: "cost_ok books" "latest_month books ''retail'' january"
  by (simp_all add: books_def example_cost_db_def cost_ok_def policy_key_def latest_month_def division_rows_def)

lemma zero_shown: "FloatString 2 0 = ''0.00''"
  by code_simp

lemma idle_january: "\<exists>i db'. Generate idle_world ''i1'' books example_retail january (make_date 2024 2 9) = (Billed i, db') \<and> iv_InputsDigest i = ''digest''"
proof -
  obtain i where i: "to_bill idle_world example_retail january (make_date 2024 2 9) = Inr i" "iv_InputsDigest i = ''digest''"
    and g: "GenerateInvoice (bw_sha idle_world) ''retail'' january example_policy (ChargesFor [] january example_policy) (NewMoney ''IDR'' None) (make_date 2024 2 9) = Inr i"
    by (rule january_bill [of idle_world "[]", OF _ _ _ january_days(3)]) (simp_all add: idle_world_def example_world_def)
  have f: "iv_Lines i = []" "iv_Division i = ''retail''" "iv_PolicyName i = ''rates''" "iv_PolicyRevision i = 3"
    "String_of (iv_Subtotal i) = ''0.00''" "String_of (iv_UnallocatedShare i) = ''0.00''" "String_of (iv_Total i) = ''0.00''"
    using g GenerateInvoice_cases [where sha = "bw_sha idle_world" and division = "''retail''" and period = january and policy = example_policy
        and charges = "ChargesFor [] january example_policy" and unallocated = "NewMoney ''IDR'' None" and now = "make_date 2024 2 9"]
    by (auto simp: ChargesFor_def example_policy_def String_of_def zero_shown)
  have "numeric 2 ''0.00'' = Some 0" by code_simp
  then obtain new where "invoice_row ''i1'' ''d1'' i = Some new" using f by (simp add: invoice_row_def)
  then have "\<exists>db'. SaveInvoice Some ''refused'' ''i1'' books i = Inr db'"
    using f by (simp add: SaveInvoice_def books_def example_cost_db_def policy_key_def Let_def)
  moreover have "biller_existing idle_world books ''retail'' january = Inl ErrInvoiceNotFound"
    using existing_latest [OF books_ok(2)] books_ok(1) by (simp add: cost_ok_def) (simp add: division_rows_def books_def example_cost_db_def)
  ultimately show ?thesis using i
    by (auto simp: Generate_def i(1)) (auto simp: example_retail_def idle_world_def example_world_def)
qed

theorem month_is_rebilled_exactly_on_new_inputs_witness:
  "\<exists>i db' e. Generate idle_world ''i1'' books example_retail january (make_date 2024 2 9) = (Billed i, db') \<and>
     Generate idle_world ''i2'' db' example_retail january (make_date 2024 2 9) = (AlreadyBilled e, db')"
proof -
  obtain i db' where g: "Generate idle_world ''i1'' books example_retail january (make_date 2024 2 9) = (Billed i, db')" "iv_InputsDigest i = ''digest''"
    using idle_january by blast
  have "om_Name (dv_Meta example_retail) = ''retail''" by (simp add: example_retail_def)
  with month_is_rebilled_exactly_on_new_inputs [OF books_ok(1) _ january_days(1,2) g(1) Generate_Billed(1) [OF g(1)], where newUID' = "''i2''" and other = "\<lambda>_. None"] books_ok(2) g(2)
  have "\<exists>e. Generate idle_world ''i2'' db' example_retail january (make_date 2024 2 9) = (AlreadyBilled e, db')"
    by (cases "Generate idle_world ''i2'' db' example_retail january (make_date 2024 2 9)";
        cases "fst (Generate idle_world ''i2'' db' example_retail january (make_date 2024 2 9))") auto
  with g(1) show ?thesis by blast
qed

definition old_books :: CostDB where
  "old_books = books\<lparr>cdb_invoices := [\<lparr>ir_uid = ''i0'', ir_division_uid = ''d1'', ir_period_start = 0, ir_period_end = 31 * day_length,
     ir_policy_name = ''rates'', ir_policy_revision = 3, ir_currency = ''IDR'', ir_subtotal = 5, ir_unallocated_share = 0, ir_total = 5,
     ir_inputs_digest = ''old'', ir_generated_at = 0\<rparr>]\<rparr>"

theorem sweeps_leave_other_months_alone_witness:
  "InvoiceByUID (\<lambda>_. None) (biller_Run [(example_world, id, 70 * day_length, Inr [example_retail])] old_books) ''i0'' =
     InvoiceByUID (\<lambda>_. None) old_books ''i0''"
proof -
  have "cost_ok old_books" "row_by ir_uid ''i0'' (cdb_invoices old_books) = Some (hd (cdb_invoices old_books))"
    using books_ok(1) by (simp_all add: old_books_def cost_ok_def books_def example_cost_db_def policy_key_def)
  moreover have "ir_period_start (hd (cdb_invoices old_books)) \<noteq> to_date (Start (MonthBefore (70 * day_length)))"
    by code_simp
  ultimately show ?thesis
    using sweeps_leave_other_months_alone [of old_books "''i0''" "hd (cdb_invoices old_books)"
        "[(example_world, id, 70 * day_length, Inr [example_retail])]" "\<lambda>_. None"] by simp
qed

end
