(* ===== verification/CatalogPages.thy ===== *)
theory CatalogPages
  imports Catalog
begin

text \<open>
Paging through the catalogue: the page tokens of internal/catalog/store.go read back, and a client
  that follows them reaches every workload once. \<^verbatim>\<open>all_pages\<close> is such a client; its fuel is one page
  per workload and one more, since no page but the last is empty.
\<close>

section \<open>Page tokens\<close>

lemma split_on_last: "c \<notin> set a \<Longrightarrow> split_on c a = [a]"
  by (induction a) auto

lemma split_on_sep: "c \<notin> set a \<Longrightarrow> split_on c (a @ c # b) = a # split_on c b"
  by (induction a) auto

definition plain_text :: "string \<Rightarrow> bool" where
  "plain_text s \<longleftrightarrow> CHR 0x00 \<notin> set s"

lemma decode_encode:
  "plain_text a \<Longrightarrow> plain_text b \<Longrightarrow> plain_text c \<Longrightarrow> decodeCursor (encodeCursor a b c) = Inr (a, b, c)"
  by (simp add: plain_text_def decodeCursor_def encodeCursor_def split_on_last split_on_sep)

lemma encodeCursor_nonempty: "encodeCursor a b c \<noteq> []"
proof -
  have "b64_decode (encodeCursor a b c) \<noteq> Some []" by (simp add: encodeCursor_def)
  then show ?thesis by (auto simp: b64_decode_def)
qed

section \<open>Following the tokens lists everything\<close>

fun all_pages :: "nat \<Rightarrow> (string \<Rightarrow> 'o :: linorder) \<Rightarrow> CatalogDB \<Rightarrow> CatalogFilter \<Rightarrow> StoredWorkload list option" where
  "all_pages 0 rank db f = None"
| "all_pages (Suc n) rank db f =
     (case ListWorkloads rank db f of
        Inl _ \<Rightarrow> None
      | Inr (workloads, next_token) \<Rightarrow>
          if next_token = [] then Some workloads
          else map_option ((@) workloads) (all_pages n rank db (f\<lparr>fi_Cursor := next_token\<rparr>)))"

definition listing :: "(string \<Rightarrow> 'o :: linorder) \<Rightarrow> CatalogDB \<Rightarrow> CatalogFilter \<Rightarrow> WorkloadRow list" where
  "listing rank db f = sort_key (\<lambda>r. place_rank rank (row_place r)) (filter (matches_filter f) (cat_workloads db))"

definition named_plainly :: "CatalogDB \<Rightarrow> bool" where
  "named_plainly db \<longleftrightarrow> (\<forall>r \<in> set (cat_workloads db). plain_text (wr_namespace r) \<and> plain_text (wr_kind r) \<and> plain_text (wr_name r))"

lemma place_rank_inj: "inj rank \<Longrightarrow> place_rank rank p = place_rank rank q \<longleftrightarrow> p = q"
  by (auto simp: place_rank_def inj_def split: prod.splits)

lemma sorted_distinct_drop:
  fixes key :: "'a \<Rightarrow> 'k :: linorder"
  assumes "sorted (map key xs)" and "distinct (map key xs)" and "k < length xs"
  shows "filter (\<lambda>x. key x > key (xs ! k)) xs = drop (Suc k) xs"
proof -
  have strict: "key (xs ! i) < key (xs ! j)" if "i < j" "j < length xs" for i j
    using sorted_nth_mono [OF assms(1), of i j] nth_eq_iff_index_eq [OF assms(2), of i j] that by (simp add: order.strict_iff_order)
  have "filter (\<lambda>x. key x > key (xs ! k)) (take (Suc k) xs) = []"
  proof (rule filter_False, rule ballI)
    fix x assume "x \<in> set (take (Suc k) xs)"
    then obtain i where "i \<le> k" "x = xs ! i" by (auto simp: in_set_conv_nth less_Suc_eq_le)
    then show "\<not> key (xs ! k) < key x" using sorted_nth_mono [OF assms(1), of i k] assms(3) by simp
  qed
  moreover have "filter (\<lambda>x. key x > key (xs ! k)) (drop (Suc k) xs) = drop (Suc k) xs"
  proof (rule filter_True, rule ballI)
    fix x assume "x \<in> set (drop (Suc k) xs)"
    then obtain i where "i < length xs - Suc k" "x = xs ! (Suc k + i)" by (auto simp: in_set_conv_nth)
    then show "key (xs ! k) < key x" using strict [of k "Suc k + i"] by simp
  qed
  ultimately show ?thesis
    by (metis append_Nil append_take_drop_id filter_append)
qed

lemma listing_facts:
  assumes "catalog_ok db" and "inj rank"
  shows "sorted (map (\<lambda>r. place_rank rank (row_place r)) (listing rank db f))"
    and "distinct (map (\<lambda>r. place_rank rank (row_place r)) (listing rank db f))"
    and "set (listing rank db f) \<subseteq> set (cat_workloads db)"
proof -
  show "sorted (map (\<lambda>r. place_rank rank (row_place r)) (listing rank db f))" by (simp add: listing_def)
  have "distinct (map row_place (cat_workloads db))" using assms(1) by (simp add: catalog_ok_def)
  then have "distinct (cat_workloads db)" "inj_on row_place (set (cat_workloads db))" by (simp_all add: distinct_map)
  then show "distinct (map (\<lambda>r. place_rank rank (row_place r)) (listing rank db f))"
    by (auto simp: listing_def distinct_map inj_on_def place_rank_inj [OF assms(2)])
  show "set (listing rank db f) \<subseteq> set (cat_workloads db)" by (auto simp: listing_def)
qed

text \<open>The page after the first k rows: the next rows, and a token exactly when more follow.\<close>

lemma page_after:
  assumes "catalog_ok db" and "inj rank" and "named_plainly db" and "k < length (listing rank db f)"
    and "fi_Cursor f = [] \<and> k = 0 \<or>
      0 < k \<and> fi_Cursor f = (let r = listing rank db f ! (k - 1) in encodeCursor (wr_namespace r) (wr_kind r) (wr_name r))"
  shows "ListWorkloads rank db f =
    (let limit = page_limit (fi_Limit f); rest = drop k (listing rank db f)
     in Inr (map (select_workload db) (take limit rest),
             if limit < length rest then let r = rest ! (limit - 1) in encodeCursor (wr_namespace r) (wr_kind r) (wr_name r) else []))"
proof -
  let ?S = "listing rank db f" and ?key = "\<lambda>r. place_rank rank (row_place r)"
  note facts = listing_facts [OF assms(1,2), of f]
  obtain after where after: "after_cursor rank f = Inr after" and
    rest: "sort_key ?key (filter (\<lambda>r. matches_filter f r \<and> after r) (cat_workloads db)) = drop k ?S"
  proof (cases "k = 0")
    case True
    then have "after_cursor rank f = Inr (\<lambda>r. True)" using assms(5) by (simp add: after_cursor_def)
    then show ?thesis using that True by (simp add: listing_def)
  next
    case False
    let ?r = "?S ! (k - 1)"
    have "?r \<in> set (cat_workloads db)" using facts(3) assms(4) by (auto dest: nth_mem [of "k - 1" ?S])
    then have plain: "plain_text (wr_namespace ?r)" "plain_text (wr_kind ?r)" "plain_text (wr_name ?r)"
      using assms(3) by (auto simp: named_plainly_def)
    have "after_cursor rank f = Inr (\<lambda>r. ?key r > ?key ?r)"
      using False assms(5) plain by (simp add: after_cursor_def Let_def encodeCursor_nonempty decode_encode row_place_def)
    moreover have "sort_key ?key (filter (\<lambda>r. matches_filter f r \<and> ?key r > ?key ?r) (cat_workloads db)) = filter (\<lambda>r. ?key r > ?key ?r) ?S"
      unfolding listing_def filter_sort by (simp add: filter_filter conj_commute)
    moreover have "\<dots> = drop k ?S"
      using sorted_distinct_drop [OF facts(1,2), of "k - 1"] False assms(4) by simp
    ultimately show ?thesis using that by simp
  qed
  have limit: "0 < page_limit (fi_Limit f)" by (simp add: page_limit_def)
  show ?thesis
    using limit by (simp add: ListWorkloads_def after rest Let_def select_workload_def take_map)
qed

lemma all_pages_from:
  assumes "catalog_ok db" and "inj rank" and "named_plainly db" and "k < length (listing rank db f) \<or> k = 0"
    and "fi_Cursor f = [] \<and> k = 0 \<or>
      0 < k \<and> fi_Cursor f = (let r = listing rank db f ! (k - 1) in encodeCursor (wr_namespace r) (wr_kind r) (wr_name r))"
    and "length (listing rank db f) - k < n"
  shows "all_pages n rank db f = Some (map (select_workload db) (drop k (listing rank db f)))"
  using assms(4-6)
proof (induction n arbitrary: k f)
  case (Suc n)
  let ?S = "listing rank db f" and ?limit = "page_limit (fi_Limit f)"
  show ?case
  proof (cases "k < length ?S")
    case False
    then have "?S = []" "fi_Cursor f = []" using Suc.prems by auto
    then have "filter (matches_filter f) (cat_workloads db) = []" by (metis length_sort listing_def length_0_conv)
    then show ?thesis using \<open>fi_Cursor f = []\<close> \<open>?S = []\<close> by (simp add: ListWorkloads_def after_cursor_def Let_def)
  next
    case True
    note page = page_after [OF assms(1-3) True Suc.prems(2), unfolded Let_def]
    show ?thesis
    proof (cases "?limit < length (drop k ?S)")
      case False
      then show ?thesis by (simp add: page)
    next
      case more_rows: True
      let ?r = "drop k ?S ! (?limit - 1)"
      let ?next = "encodeCursor (wr_namespace ?r) (wr_kind ?r) (wr_name ?r)"
      have limit: "0 < ?limit" by (simp add: page_limit_def)
      have same: "listing rank db (f\<lparr>fi_Cursor := ?next\<rparr>) = ?S"
        by (simp add: listing_def matches_filter_def [abs_def])
      have "?r = ?S ! (k + ?limit - 1)" using limit more_rows by (simp add: Nat.add_diff_assoc)
      then have "all_pages n rank db (f\<lparr>fi_Cursor := ?next\<rparr>) = Some (map (select_workload db) (drop (k + ?limit) ?S))"
        using Suc.IH [of "k + ?limit" "f\<lparr>fi_Cursor := ?next\<rparr>"] more_rows limit Suc.prems(3) unfolding same by (simp add: Let_def)
      then show ?thesis
        using more_rows by (simp add: page encodeCursor_nonempty add.commute flip: map_append) (metis append_take_drop_id drop_drop add.commute)
    qed
  qed
qed simp

text \<open>
  C26. Following the page tokens from the first page ends, whatever the page size, and yields every
  workload the filter selects exactly once, in the order of namespace, kind and name.
\<close>
theorem pages_list_every_workload_once:
  assumes "catalog_ok db" and "inj rank" and "named_plainly db" and "fi_Cursor f = []"
  shows "all_pages (length (cat_workloads db) + 1) rank db f =
    Some (map (select_workload db)
      (sort_key (\<lambda>r. place_rank rank (row_place r)) (filter (matches_filter f) (cat_workloads db))))"
proof -
  have "length (listing rank db f) < length (cat_workloads db) + 1"
    by (simp add: listing_def le_imp_less_Suc)
  then show ?thesis
    using all_pages_from [OF assms(1-3), of 0 f] assms(4) unfolding listing_def by (simp del: all_pages.simps)
qed

definition two_rows :: CatalogDB where
  "two_rows = upserted [] 9 (upserted [] 8 (pj_db no_catalogue) (example_workload ''a'' ''9'')) ((example_workload ''b'' ''10'')\<lparr>wk_Name := ''api''\<rparr>)"

definition one_per_page :: CatalogFilter where
  "one_per_page = \<lparr>fi_Division = [], fi_Namespace = [], fi_Namespaces = Some [''shop''], fi_Health = [], fi_Search = [], fi_Limit = 1, fi_Cursor = []\<rparr>"

theorem pages_list_every_workload_once_witness:
  "map_option (map sw_Name) (all_pages 3 id two_rows one_per_page) = Some [''api'', ''web'']"
proof -
  have "catalog_ok two_rows"
    unfolding two_rows_def by (intro catalogue.valid_put no_catalogue_ok) (simp_all add: writable_def example_workload_def)
  moreover have "named_plainly two_rows" by code_simp
  moreover have "length (cat_workloads two_rows) = 2" by code_simp
  ultimately have "all_pages 3 id two_rows one_per_page =
      Some (map (select_workload two_rows) (sort_key (\<lambda>r. place_rank id (row_place r)) (filter (matches_filter one_per_page) (cat_workloads two_rows))))"
    using pages_list_every_workload_once [of two_rows id one_per_page] by (simp add: one_per_page_def)
  moreover have "map sw_Name (map (select_workload two_rows) (sort_key (\<lambda>r. place_rank id (row_place r)) (filter (matches_filter one_per_page) (cat_workloads two_rows)))) = [''api'', ''web'']"
    by code_simp
  ultimately show ?thesis by simp
qed

end
