(* ===== verification/CatalogService.thy ===== *)
theory CatalogService
  imports CatalogPages Access RequestService
begin

text \<open>
The catalogue service: internal/catalog/service.go, every handler. The scope of a caller and the
  collaborators that explain a workload (provenance, diagnostics, drift) are interfaces of the
  service and fields of its record here, absent or present, each free to fail; the state behind
  them is fixed for the length of a call.
\<close>

section \<open>The collaborators of the service\<close>

text \<open>
  The scope of a caller, and what explains a workload: each may be absent, each may fail.
\<close>

record ('p, 'x, 't, 'd) CatalogService =
  cs_scoper :: "(Actor \<Rightarrow> string + Scope) option"
  cs_prover :: "(string \<Rightarrow> string \<Rightarrow> string + 'p) option"
  cs_explain :: "(StoredWorkload \<Rightarrow> string + 'x) option"
  cs_timeline :: "(StoredWorkload \<Rightarrow> string + 't list) option"
  cs_drift :: "(string \<Rightarrow> string \<Rightarrow> string \<Rightarrow> string + 'd) option"

datatype CatalogError = Refused Code string | BadToken CursorError

definition signed_out :: CatalogError where
  "signed_out = Refused CodeUnauthenticated ''sign in at /auth/login''"

definition missing_workload :: "string \<Rightarrow> CatalogError" where
  "missing_workload uid = Refused CodeNotFound (''workload '' @ uid @ '' not found'')"

definition later_slice :: "string \<Rightarrow> CatalogError" where
  "later_slice feature = Refused CodeUnimplemented (feature @ '' arrives in a later slice'')"

definition scopeOf :: "('p, 'x, 't, 'd) CatalogService \<Rightarrow> Actor option \<Rightarrow> CatalogError + Scope \<times> bool" where
  "scopeOf s ctx =
     (case cs_scoper s of
        None \<Rightarrow> Inr (\<lparr>AllowAll = True, sc_Namespaces = []\<rparr>, False)
      | Some scoper \<Rightarrow>
          (case FromContext ctx of
             None \<Rightarrow> Inl signed_out
           | Some actor \<Rightarrow>
               (case scoper actor of Inl err \<Rightarrow> Inl (Refused CodeUnavailable err) | Inr scope \<Rightarrow> Inr (scope, True))))"

definition visibleWorkload :: "('p, 'x, 't, 'd) CatalogService \<Rightarrow> CatalogDB \<Rightarrow> Actor option \<Rightarrow> string \<Rightarrow> CatalogError + StoredWorkload" where
  "visibleWorkload s db ctx uid =
     (case GetWorkload db uid of
        None \<Rightarrow> Inl (missing_workload uid)
      | Some workload \<Rightarrow>
          (case scopeOf s ctx of
             Inl err \<Rightarrow> Inl err
           | Inr (scope, scoped) \<Rightarrow>
               if scoped \<and> \<not> Scope_Allows scope (sw_Namespace workload) then Inl (missing_workload uid) else Inr workload))"

section \<open>The answers\<close>

record PFreshness =
  pf_ResourceVersion :: string
  pf_ProjectionLagSeconds :: int
  pf_ObservedAt :: "time option"
  pf_Degraded :: "(string \<times> string \<times> time option) list"

definition moment :: "time \<Rightarrow> time option" where
  "moment t = (if is_zero_time t then None else Some t)"

definition service_freshness :: "time \<Rightarrow> CatalogDB \<Rightarrow> PFreshness" where
  "service_freshness now db =
     (let f = Freshness_of now db
      in \<lparr>pf_ResourceVersion = fr_ResourceVersion f, pf_ProjectionLagSeconds = fr_LagSeconds f,
          pf_ObservedAt = moment (fr_ObservedAt f),
          pf_Degraded = map (\<lambda>d. (ds_Source d, ds_Reason d, moment (ds_LastHealthyAt d))) (fr_Degraded f)\<rparr>)"

definition storedWorkload :: "StoredWorkload \<Rightarrow> PWorkload" where
  "storedWorkload w =
     \<lparr>pw_Uid = sw_UID w, pw_Division = sw_Division w, pw_Namespace = sw_Namespace w, pw_Name = sw_Name w, pw_Kind = sw_Kind w,
      pw_Health = protoHealth (sw_Health w), pw_ReplicasDesired = sw_ReplicasDesired w, pw_ReplicasReady = sw_ReplicasReady w,
      pw_ImageRef = sw_ImageRef w, pw_RequestedCPU = sw_CPURequest w, pw_RequestedMemory = sw_MemoryRequest w,
      pw_CreatedAt = sw_CreatedAt w\<rparr>"

fun healthFilter :: "ProtoHealth \<Rightarrow> string" where
  "healthFilter HEALTH_HEALTHY = ''healthy''"
| "healthFilter HEALTH_PROGRESSING = ''progressing''"
| "healthFilter HEALTH_DEGRADED = ''degraded''"
| "healthFilter HEALTH_UNSPECIFIED = []"

section \<open>The handlers\<close>

record ListWorkloadsRequest =
  lw_Division :: string
  lw_Namespace :: string
  lw_Health :: ProtoHealth
  lw_Search :: string
  lw_Page :: "(int \<times> string) option"

record ListWorkloadsResponse =
  lr_Workloads :: "PWorkload list"
  lr_NextToken :: string
  lr_Total :: int
  lr_Freshness :: PFreshness

definition list_filter :: "ListWorkloadsRequest \<Rightarrow> CatalogFilter" where
  "list_filter msg =
     \<lparr>fi_Division = lw_Division msg, fi_Namespace = lw_Namespace msg, fi_Namespaces = None,
      fi_Health = healthFilter (lw_Health msg), fi_Search = lw_Search msg,
      fi_Limit = (case lw_Page msg of None \<Rightarrow> 0 | Some (n, _) \<Rightarrow> n),
      fi_Cursor = (case lw_Page msg of None \<Rightarrow> [] | Some (_, token) \<Rightarrow> token)\<rparr>"

definition scoped_list ::
  "(string \<Rightarrow> 'o :: linorder) \<Rightarrow> CatalogDB \<Rightarrow> CatalogFilter \<Rightarrow> Scope \<Rightarrow> bool \<Rightarrow> CursorError + StoredWorkload list \<times> string" where
  "scoped_list rank db wanted scope scoped =
     (if \<not> scoped \<or> AllowAll scope then ListWorkloads rank db wanted
      else if sc_Namespaces scope \<noteq> [] then ListWorkloads rank db (wanted\<lparr>fi_Namespaces := Some (sc_Namespaces scope)\<rparr>)
      else Inr ([], []))"

definition service_ListWorkloads ::
  "(string \<Rightarrow> 'o :: linorder) \<Rightarrow> ('p, 'x, 't, 'd) CatalogService \<Rightarrow> time \<Rightarrow> CatalogDB \<Rightarrow> Actor option \<Rightarrow> ListWorkloadsRequest \<Rightarrow>
   CatalogError + ListWorkloadsResponse" where
  "service_ListWorkloads rank s now db ctx msg =
     (case scopeOf s ctx of
        Inl err \<Rightarrow> Inl err
      | Inr (scope, scoped) \<Rightarrow>
          (case scoped_list rank db (list_filter msg) scope scoped of
             Inl err \<Rightarrow> Inl (BadToken err)
           | Inr (workloads, next_token) \<Rightarrow>
               Inr \<lparr>lr_Workloads = map storedWorkload workloads, lr_NextToken = next_token,
                    lr_Total = min (int (length workloads)) max_i32, lr_Freshness = service_freshness now db\<rparr>))"

definition service_GetWorkload ::
  "('p, 'x, 't, 'd) CatalogService \<Rightarrow> time \<Rightarrow> CatalogDB \<Rightarrow> Actor option \<Rightarrow> string \<Rightarrow> CatalogError + PWorkload \<times> PFreshness" where
  "service_GetWorkload s now db ctx uid =
     (case GetWorkload db uid of
        None \<Rightarrow> Inl (missing_workload uid)
      | Some workload \<Rightarrow>
          (case scopeOf s ctx of
             Inl err \<Rightarrow> Inl err
           | Inr (scope, scoped) \<Rightarrow>
               if scoped \<and> \<not> Scope_Allows scope (sw_Namespace workload) then Inl (missing_workload uid)
               else Inr (storedWorkload workload, service_freshness now db)))"

definition GetProvenance ::
  "('p, 'x, 't, 'd) CatalogService \<Rightarrow> time \<Rightarrow> CatalogDB \<Rightarrow> Actor option \<Rightarrow> string \<Rightarrow> CatalogError + 'p \<times> PFreshness" where
  "GetProvenance s now db ctx uid =
     (case cs_prover s of
        None \<Rightarrow> Inl (Refused CodeUnavailable ''no registry is configured, so nothing is known about where this image came from'')
      | Some prover \<Rightarrow>
     (case GetWorkload db uid of
        None \<Rightarrow> Inl (missing_workload uid)
      | Some workload \<Rightarrow>
     (case scopeOf s ctx of
        Inl err \<Rightarrow> Inl err
      | Inr (scope, scoped) \<Rightarrow>
          if scoped \<and> \<not> Scope_Allows scope (sw_Namespace workload) then Inl (missing_workload uid)
          else if sw_ImageRef workload = []
          then Inl (Refused CodeFailedPrecondition
                 (sw_Namespace workload @ ''/'' @ sw_Name workload @ '' runs no container image we can trace''))
          else case prover (sw_Namespace workload) (sw_ImageRef workload) of
                 Inl err \<Rightarrow> Inl (Refused CodeUnavailable err)
               | Inr provenance \<Rightarrow> Inr (provenance, service_freshness now db))))"

definition GetTimeline ::
  "('p, 'x, 't, 'd) CatalogService \<Rightarrow> time \<Rightarrow> CatalogDB \<Rightarrow> Actor option \<Rightarrow> string \<Rightarrow> CatalogError + 't list \<times> PFreshness" where
  "GetTimeline s now db ctx uid =
     (case cs_timeline s of
        None \<Rightarrow> Inl (later_slice ''timeline'')
      | Some timeline \<Rightarrow>
     (case visibleWorkload s db ctx uid of
        Inl err \<Rightarrow> Inl err
      | Inr workload \<Rightarrow>
     (case timeline workload of
        Inl err \<Rightarrow> Inl (Refused CodeUnavailable err) | Inr events \<Rightarrow> Inr (events, service_freshness now db))))"

definition ExplainFailure ::
  "('p, 'x, 't, 'd) CatalogService \<Rightarrow> time \<Rightarrow> CatalogDB \<Rightarrow> Actor option \<Rightarrow> string \<Rightarrow> CatalogError + 'x \<times> PFreshness" where
  "ExplainFailure s now db ctx uid =
     (case cs_explain s of
        None \<Rightarrow> Inl (later_slice ''failure explanation'')
      | Some explain \<Rightarrow>
     (case visibleWorkload s db ctx uid of
        Inl err \<Rightarrow> Inl err
      | Inr workload \<Rightarrow>
     (case explain workload of
        Inl err \<Rightarrow> Inl (Refused CodeUnavailable err) | Inr explanation \<Rightarrow> Inr (explanation, service_freshness now db))))"

definition GetDrift ::
  "('p, 'x, 't, 'd) CatalogService \<Rightarrow> time \<Rightarrow> CatalogDB \<Rightarrow> Actor option \<Rightarrow> string \<Rightarrow> CatalogError + 'd \<times> PFreshness" where
  "GetDrift s now db ctx uid =
     (case cs_drift s of
        None \<Rightarrow> Inl (later_slice ''drift detection'')
      | Some drifter \<Rightarrow>
     (case visibleWorkload s db ctx uid of
        Inl err \<Rightarrow> Inl err
      | Inr workload \<Rightarrow>
     (case drifter (sw_Namespace workload) (sw_Kind workload) (sw_Name workload) of
        Inl err \<Rightarrow> Inl (Refused CodeUnavailable err) | Inr drift \<Rightarrow> Inr (drift, service_freshness now db))))"

section \<open>What a caller may see\<close>

lemma Get_DeleteWorkload_same: "GetWorkload (DeleteWorkload db uid) uid = None"
  by (simp add: GetWorkload_def DeleteWorkload_def delete_workloads_def Let_def filter_filter)

text \<open>
  C27. A workload outside the scope of the caller is indistinguishable from one that does not exist:
  every handler that takes its uid answers as it does when the workload is deleted.
\<close>
theorem hidden_workload_looks_absent:
  assumes "GetWorkload db uid = Some w" and "scopeOf s ctx = Inr (scope, True)" and "\<not> Scope_Allows scope (sw_Namespace w)"
  shows "service_GetWorkload s now db ctx uid = service_GetWorkload s now (DeleteWorkload db uid) ctx uid \<and>
    GetProvenance s now db ctx uid = GetProvenance s now (DeleteWorkload db uid) ctx uid \<and>
    GetTimeline s now db ctx uid = GetTimeline s now (DeleteWorkload db uid) ctx uid \<and>
    ExplainFailure s now db ctx uid = ExplainFailure s now (DeleteWorkload db uid) ctx uid \<and>
    GetDrift s now db ctx uid = GetDrift s now (DeleteWorkload db uid) ctx uid"
  using assms
  by (simp add: service_GetWorkload_def GetProvenance_def GetTimeline_def ExplainFailure_def GetDrift_def visibleWorkload_def
      Get_DeleteWorkload_same split: option.splits)

lemma ListWorkloads_matches:
  assumes "ListWorkloads rank db f = Inr (workloads, next_token)" and "w \<in> set workloads"
  obtains r where "r \<in> set (cat_workloads db)" and "w = select_workload db r" and "matches_filter f r"
proof -
  have "set workloads \<subseteq> select_workload db ` {r \<in> set (cat_workloads db). matches_filter f r}"
    using assms(1) by (auto simp: ListWorkloads_def Let_def dest!: in_set_takeD split: sum.splits if_splits)
  then show ?thesis using assms(2) that by blast
qed

lemma matches_namespaces:
  "matches_filter (list_filter msg\<lparr>fi_Namespaces := Some ns\<rparr>) r \<longleftrightarrow> matches_filter (list_filter msg) r \<and> wr_namespace r \<in> set ns"
  by (auto simp: matches_filter_def list_filter_def)

text \<open>
  C28. A listing shows only workloads of namespaces the scope of a signed-in caller allows, of the
  division and namespace asked for; a caller with no namespace is shown nothing, and an unknown
  caller gets an error.
\<close>
theorem listing_stays_in_scope:
  "case service_ListWorkloads rank s now db ctx msg of
     Inl err \<Rightarrow> True
   | Inr answer \<Rightarrow>
       (case cs_scoper s of
          None \<Rightarrow> True
        | Some scoper \<Rightarrow>
            (case FromContext ctx of
               None \<Rightarrow> False
             | Some actor \<Rightarrow>
                 (case scoper actor of
                    Inl _ \<Rightarrow> False
                  | Inr scope \<Rightarrow> list_all (\<lambda>w. Scope_Allows scope (pw_Namespace w)) (lr_Workloads answer)))) \<and>
       list_all (\<lambda>w. (lw_Division msg = [] \<or> pw_Division w = lw_Division msg) \<and> (lw_Namespace msg = [] \<or> pw_Namespace w = lw_Namespace msg))
         (lr_Workloads answer)"
proof (cases "service_ListWorkloads rank s now db ctx msg")
  case (Inr answer)
  then obtain scope scoped workloads next_token where scope: "scopeOf s ctx = Inr (scope, scoped)"
    and list: "scoped_list rank db (list_filter msg) scope scoped = Inr (workloads, next_token)"
    and answer: "lr_Workloads answer = map storedWorkload workloads"
    by (auto simp: service_ListWorkloads_def split: sum.splits)
  have allows: "allows_from ns n \<longleftrightarrow> n \<in> set ns" for ns n
    by (induction ns) auto
  have shown: "\<exists>r \<in> set (cat_workloads db). w = select_workload db r \<and> matches_filter (list_filter msg) r \<and>
      (scoped \<longrightarrow> Scope_Allows scope (wr_namespace r))" if "w \<in> set workloads" for w
    using list that
    by (auto simp: scoped_list_def matches_namespaces Scope_Allows_def allows split: if_splits elim!: ListWorkloads_matches)
  have facts: "(scoped \<longrightarrow> Scope_Allows scope (sw_Namespace w)) \<and> (lw_Division msg = [] \<or> sw_Division w = lw_Division msg) \<and>
      (lw_Namespace msg = [] \<or> sw_Namespace w = lw_Namespace msg)" if w: "w \<in> set workloads" for w
  proof -
    obtain r where "w = select_workload db r" "matches_filter (list_filter msg) r" "scoped \<longrightarrow> Scope_Allows scope (wr_namespace r)"
      using shown [OF w] by blast
    then show ?thesis by (auto simp: select_workload_def matches_filter_def list_filter_def)
  qed
  then have places: "list_all (\<lambda>w. (lw_Division msg = [] \<or> pw_Division w = lw_Division msg) \<and> (lw_Namespace msg = [] \<or> pw_Namespace w = lw_Namespace msg))
         (lr_Workloads answer)"
    by (simp add: answer list_all_iff storedWorkload_def)
  have "list_all (\<lambda>w. Scope_Allows scope (pw_Namespace w)) (lr_Workloads answer)" if scoped
    using facts that by (simp add: answer list_all_iff storedWorkload_def)
  then show ?thesis
    using scope places by (auto simp: Inr scopeOf_def split: option.splits sum.splits)
qed simp

text \<open>A caller who is not signed in learns whether a uid exists: the store is asked before the caller.\<close>

lemma absence_shows_before_sign_in:
  "GetWorkload db uid = None \<Longrightarrow> service_GetWorkload s now db ctx uid = Inl (missing_workload uid)"
  "GetWorkload db uid = Some w \<Longrightarrow> cs_scoper s = Some scoper \<Longrightarrow> FromContext ctx = None \<Longrightarrow> service_GetWorkload s now db ctx uid = Inl signed_out"
  by (simp_all add: service_GetWorkload_def scopeOf_def)

section \<open>Examples\<close>

definition example_catalog_service :: "(string, string, string, string) CatalogService" where
  "example_catalog_service =
     \<lparr>cs_scoper = Some (\<lambda>actor. Inr \<lparr>AllowAll = False, sc_Namespaces = [''bank'']\<rparr>),
      cs_prover = Some (\<lambda>namespace image. Inr image), cs_explain = Some (\<lambda>w. Inr (sw_Name w)),
      cs_timeline = Some (\<lambda>w. Inr [sw_Name w]), cs_drift = None\<rparr>"

theorem hidden_workload_looks_absent_witness:
  "GetWorkload two_rows ''a'' \<noteq> None \<and>
   service_GetWorkload example_catalog_service 9 two_rows (Some example_actor) ''a'' =
     service_GetWorkload example_catalog_service 9 (DeleteWorkload two_rows ''a'') (Some example_actor) ''a''"
proof -
  obtain w where w: "GetWorkload two_rows ''a'' = Some w" "sw_Namespace w = ''shop''"
  proof -
    have "map_option sw_Namespace (GetWorkload two_rows ''a'') = Some ''shop''" by code_simp
    then show ?thesis using that by auto
  qed
  have "scopeOf example_catalog_service (Some example_actor) = Inr (\<lparr>AllowAll = False, sc_Namespaces = [''bank'']\<rparr>, True)"
    by code_simp
  from hidden_workload_looks_absent [OF w(1) this] w show ?thesis
    by (simp add: Scope_Allows_def)
qed

end
