(* ===== verification/Metrics.thy ===== *)
theory Metrics
  imports Recommender
begin

text \<open>
  The samples of a vector answer of Prometheus, the type Sample of internal/metrics/prometheus.go, and the arithmetic
  of float64 values with infinities and NaN that its readers (internal/topology, internal/cost) use. The
  HTTP client itself is a parameter of its readers.
\<close>

section \<open>Samples\<close>

record Sample =
  sa_Labels :: "string \<rightharpoonup> string"
  sa_Value :: gofloat

definition label_of :: "Sample \<Rightarrow> string \<Rightarrow> string" where
  "label_of s name = (case sa_Labels s name of None \<Rightarrow> [] | Some v \<Rightarrow> v)"

fun gadd :: "gofloat \<Rightarrow> gofloat \<Rightarrow> gofloat" where
  "gadd (Finite x) (Finite y) = Finite (fadd x y)"
| "gadd NaN y = NaN"
| "gadd x NaN = NaN"
| "gadd PosInf NegInf = NaN"
| "gadd NegInf PosInf = NaN"
| "gadd PosInf y = PosInf"
| "gadd NegInf y = NegInf"
| "gadd x PosInf = PosInf"
| "gadd x NegInf = NegInf"

text \<open>The quotient by a number above zero, the only one the program takes.\<close>

fun gquot :: "gofloat \<Rightarrow> gofloat \<Rightarrow> gofloat" where
  "gquot (Finite x) (Finite y) = Finite (fdiv x y)"
| "gquot (Finite x) PosInf = Finite 0"
| "gquot PosInf (Finite y) = PosInf"
| "gquot NegInf (Finite y) = NegInf"
| "gquot _ _ = NaN"

fun at_most_zero :: "gofloat \<Rightarrow> bool" where
  "at_most_zero (Finite x) = (x \<le> 0)"
| "at_most_zero NegInf = True"
| "at_most_zero _ = False"

section \<open>Queries\<close>

text \<open>The replacer of the selectors in topology and cost: a backslash before each backslash, bar and dot.\<close>

definition escape_namespace :: "string \<Rightarrow> string" where
  "escape_namespace s = concat (map (\<lambda>c. if c \<in> {CHR 0x5C, CHR ''|'', CHR ''.''} then [CHR 0x5C, c] else [c]) s)"

end
