(* ===== verification/Topology.thy ===== *)
theory Topology
  imports Metrics GoStrings RequestService "HOL-Library.Char_ord" "HOL-Library.List_Lexorder" "HOL-Library.Product_Lexorder"
    "HOL-Library.Multiset"
begin

text \<open>
  Who calls whom and who may: internal/topology. The graph of calls (graph.go) is read from a metrics
  source, a parameter; the paths between namespaces (reachability.go) are decided from the network policies of
  the cluster; the service (service.go) answers both for a division. The order in which Go visits a map
  is a parameter, and the answers do not depend on it. Times of answers are left out. The policies carry
  the fields of the interface the code does not read, so that its verdicts can be compared with the
  documented meaning of the policies.
\<close>

section \<open>The graph of calls\<close>

record Edge =
  ed_Client :: string
  ed_Server :: string
  RequestsPerS :: gofloat
  FailedPerS :: gofloat

definition ErrorRatio :: "Edge \<Rightarrow> gofloat" where
  "ErrorRatio e = (if at_most_zero (RequestsPerS e) then Finite 0 else gquot (FailedPerS e) (RequestsPerS e))"

datatype GraphError = ErrNoTraces | ReadFailed string

fun graph_error_text :: "GraphError \<Rightarrow> string" where
  "graph_error_text ErrNoTraces = ''no trace metrics are available, so the graph would be a guess''"
| "graph_error_text (ReadFailed s) = s"

record Graph =
  gr_source :: "((string \<Rightarrow> string + Sample list) \<times> bool) option"
  gr_window :: duration

definition NewGraph :: "((string \<Rightarrow> string + Sample list) \<times> bool) option \<Rightarrow> duration \<Rightarrow> Graph" where
  "NewGraph src window = \<lparr>gr_source = src, gr_window = (if window \<le> 0 then hour else window)\<rparr>"

definition graph_Available :: "Graph option \<Rightarrow> bool" where
  "graph_Available g = (case g of None \<Rightarrow> False | Some g \<Rightarrow> (case gr_source g of None \<Rightarrow> False | Some (_, up) \<Rightarrow> up))"

definition client_selector :: "string list \<Rightarrow> string" where
  "client_selector namespaces =
     (if namespaces = [] then []
      else ''client_namespace=~'' @ dquote @ join ''|'' (map escape_namespace namespaces) @ dquote)"

definition minutes_window :: "duration \<Rightarrow> string" where
  "minutes_window window = (let minutes = float_to_i64 (Minutes window) in show_int (if minutes \<le> 0 then 1 else minutes) @ ''m'')"

definition rate_query :: "string \<Rightarrow> string list \<Rightarrow> duration \<Rightarrow> string" where
  "rate_query metric namespaces window =
     ''sum by (client, server) (rate('' @ metric @ ''{'' @ client_selector namespaces @ ''}['' @ minutes_window window @ '']))''"

definition NUL :: char where "NUL = CHR 0x00"

definition edge_key :: "string \<Rightarrow> string \<Rightarrow> string" where
  "edge_key client server = client @ [NUL] @ server"

text \<open>A map from keys to rates, in the order in which the keys were first written.\<close>

definition rate_at :: "string \<Rightarrow> (string \<times> gofloat) list \<Rightarrow> gofloat" where
  "rate_at key rates = (case map_of rates key of None \<Rightarrow> Finite 0 | Some v \<Rightarrow> v)"

definition add_rate :: "string \<Rightarrow> gofloat \<Rightarrow> (string \<times> gofloat) list \<Rightarrow> (string \<times> gofloat) list" where
  "add_rate key v rates =
     (if key \<in> fst ` set rates then map (\<lambda>(k, x). if k = key then (k, gadd x v) else (k, x)) rates
      else rates @ [(key, gadd (Finite 0) v)])"

definition graph_rates :: "(string \<Rightarrow> string + Sample list) \<Rightarrow> duration \<Rightarrow> string \<Rightarrow> string list \<Rightarrow> GraphError + (string \<times> gofloat) list" where
  "graph_rates src window metric namespaces =
     (case src (rate_query metric namespaces window) of
        Inl err \<Rightarrow> Inl (ReadFailed (''read '' @ metric @ '': '' @ err))
      | Inr samples \<Rightarrow>
          Inr (fold (\<lambda>s rates.
            let client = label_of s ''client''; server = label_of s ''server''
            in if client = [] \<or> server = [] then rates else add_rate (edge_key client server) (sa_Value s) rates) samples []))"

definition Edges :: "((string \<times> gofloat) list \<Rightarrow> (string \<times> gofloat) list) \<Rightarrow> Graph option \<Rightarrow> string list \<Rightarrow> GraphError + Edge list" where
  "Edges visit g namespaces =
     (case g of
        None \<Rightarrow> Inl ErrNoTraces
      | Some graph \<Rightarrow>
          (case gr_source graph of
             None \<Rightarrow> Inl ErrNoTraces
           | Some (src, up) \<Rightarrow>
               if \<not> up then Inl ErrNoTraces
               else (case graph_rates src (gr_window graph) ''traces_service_graph_request_total'' namespaces of
                  Inl err \<Rightarrow> Inl err
                | Inr totals \<Rightarrow>
                    (case graph_rates src (gr_window graph) ''traces_service_graph_request_failed_total'' namespaces of
                       Inl err \<Rightarrow> Inl err
                     | Inr failures \<Rightarrow>
                         if totals = [] then Inl ErrNoTraces
                         else Inr (sort_key (\<lambda>e. (ed_Client e, ed_Server e))
                           (map (\<lambda>(key, rate). case cut_at NUL key of (client, server, _) \<Rightarrow>
                              \<lparr>ed_Client = client, ed_Server = server, RequestsPerS = rate, FailedPerS = rate_at key failures\<rparr>)
                            (visit totals)))))))"

section \<open>What the policies allow\<close>

text \<open>
  A network policy as the code reads it, with the fields of the interface the code leaves out
  (the pods it selects, the pods and address blocks of a peer, the ports of a rule). Selectors and
  ports are those of the API; \<^verbatim>\<open>as_selector\<close> is metav1.LabelSelectorAsSelector.
\<close>

type_synonym labels = "string \<rightharpoonup> string"

record 'sel NetPeer =
  pe_NamespaceSelector :: "'sel option"
  pe_PodSelector :: "'sel option"
  pe_IPBlock :: "string option"

record ('sel, 'port) NetRule =
  ru_From :: "'sel NetPeer list"
  ru_Ports :: "'port list"

record ('sel, 'port) NetPolicy =
  nw_Namespace :: string
  nw_Name :: string
  nw_PodSelector :: 'sel
  nw_PolicyTypes :: "string list"
  nw_Ingress :: "('sel, 'port) NetRule list"

datatype Verdict = VerdictAllowedAndUsed | VerdictAllowedUnused | VerdictObservedNotAllowed | VerdictDenied

record Path =
  pa_From :: string
  pa_To :: string
  pa_Allowed :: bool
  pa_Observed :: bool
  pa_AllowedBy :: string
  pa_Verdict :: Verdict

definition guards :: "('sel, 'port) NetPolicy \<Rightarrow> bool" where
  "guards p \<longleftrightarrow> nw_PolicyTypes p = [] \<or> ''Ingress'' \<in> set (nw_PolicyTypes p)"

definition peer_matches :: "('sel \<Rightarrow> string + (labels \<Rightarrow> bool)) \<Rightarrow> labels \<Rightarrow> 'sel NetPeer \<Rightarrow> bool" where
  "peer_matches as_selector known peer =
     (case pe_NamespaceSelector peer of
        None \<Rightarrow> False
      | Some selector \<Rightarrow> (case as_selector selector of Inl _ \<Rightarrow> False | Inr matches \<Rightarrow> matches known))"

definition rule_allows :: "('sel \<Rightarrow> string + (labels \<Rightarrow> bool)) \<Rightarrow> labels \<Rightarrow> ('sel, 'port) NetRule \<Rightarrow> bool" where
  "rule_allows as_selector known rule \<longleftrightarrow> ru_From rule = [] \<or> list_ex (peer_matches as_selector known) (ru_From rule)"

fun ingress_from :: "('sel \<Rightarrow> string + (labels \<Rightarrow> bool)) \<Rightarrow> labels \<Rightarrow> string \<Rightarrow> bool \<Rightarrow> ('sel, 'port) NetPolicy list \<Rightarrow> bool \<times> string" where
  "ingress_from as_selector known target guarded [] = (\<not> guarded, [])"
| "ingress_from as_selector known target guarded (p # ps) =
     (if nw_Namespace p \<noteq> target \<or> \<not> guards p then ingress_from as_selector known target guarded ps
      else if list_ex (rule_allows as_selector known) (nw_Ingress p) then (True, nw_Name p)
      else ingress_from as_selector known target True ps)"

definition allows ::
  "('sel \<Rightarrow> string + (labels \<Rightarrow> bool)) \<Rightarrow> ('sel, 'port) NetPolicy list \<Rightarrow> (string \<rightharpoonup> labels) \<Rightarrow> string \<Rightarrow> string \<Rightarrow> bool \<times> string" where
  "allows as_selector policies catalogue source target =
     ingress_from as_selector (case catalogue source of None \<Rightarrow> Map.empty | Some l \<Rightarrow> l) target False policies"

fun verdict_of :: "bool \<Rightarrow> bool \<Rightarrow> Verdict" where
  "verdict_of True True = VerdictAllowedAndUsed"
| "verdict_of True False = VerdictAllowedUnused"
| "verdict_of False True = VerdictObservedNotAllowed"
| "verdict_of False False = VerdictDenied"

text \<open>The namespaces of the cluster with their labels, as listed; a later item replaces an earlier one.\<close>

definition known_labels :: "string \<times> labels \<Rightarrow> labels" where
  "known_labels item = [''kubernetes.io/metadata.name'' \<mapsto> fst item] ++ snd item"

definition namespace_labels :: "(string \<times> labels) list \<Rightarrow> string \<rightharpoonup> labels" where
  "namespace_labels items = fold (\<lambda>item m. m(fst item \<mapsto> known_labels item)) items Map.empty"

record ('sel, 'port) NetReader =
  nr_Namespaces :: "string + (string \<times> labels) list"
  nr_Policies :: "string + ('sel, 'port) NetPolicy list"

definition Paths ::
  "('sel \<Rightarrow> string + (labels \<Rightarrow> bool)) \<Rightarrow> (string \<Rightarrow> string list \<Rightarrow> string list) \<Rightarrow> ('sel, 'port) NetReader \<Rightarrow>
   string list \<Rightarrow> Edge list \<Rightarrow> string + Path list" where
  "Paths as_selector visit reader namespaces observed =
     (case nr_Namespaces reader of
        Inl err \<Rightarrow> Inl (''list namespaces: '' @ err)
      | Inr items \<Rightarrow>
          (case nr_Policies reader of
             Inl err \<Rightarrow> Inl (''list network policies: '' @ err)
           | Inr policies \<Rightarrow>
               (let catalogue = namespace_labels items;
                    seen = (\<lambda>key. key \<in> set (map (\<lambda>e. edge_key (ed_Client e) (ed_Server e)) observed))
                in Inr (sort_key (\<lambda>p. (pa_To p, pa_From p))
                     (concat (map (\<lambda>target. map (\<lambda>source.
                        case allows as_selector policies catalogue source target of (allowed, by) \<Rightarrow>
                          let observedHere = seen (edge_key source target)
                          in \<lparr>pa_From = source, pa_To = target, pa_Allowed = allowed, pa_Observed = observedHere, pa_AllowedBy = by,
                              pa_Verdict = verdict_of allowed observedHere\<rparr>)
                        (filter (\<lambda>source. source \<noteq> target) (visit target (remdups (map fst items))))) namespaces))))))"

section \<open>The service\<close>

fun namespaceOf :: "string \<Rightarrow> string" where
  "namespaceOf [] = []"
| "namespaceOf (c # s) = (if c = CHR ''/'' then [] else c # namespaceOf s)"

text \<open>The edges between namespaces, in the order in which they are first met.\<close>

fun collapse :: "Edge list \<Rightarrow> Edge list \<Rightarrow> Edge list" where
  "collapse out [] = out"
| "collapse out (e # es) =
     (let client = namespaceOf (ed_Client e); server = namespaceOf (ed_Server e); key = edge_key client server;
          same = (\<lambda>x. edge_key (ed_Client x) (ed_Server x) = key)
      in collapse
        (if list_ex same out
         then map (\<lambda>x. if same x then \<lparr>ed_Client = client, ed_Server = server, RequestsPerS = gadd (RequestsPerS x) (RequestsPerS e),
                FailedPerS = gadd (FailedPerS x) (FailedPerS e)\<rparr> else x) out
         else out @ [\<lparr>ed_Client = client, ed_Server = server, RequestsPerS = gadd (Finite 0) (RequestsPerS e),
                FailedPerS = gadd (Finite 0) (FailedPerS e)\<rparr>]) es)"

definition namespaceEdges :: "(Edge list \<Rightarrow> Edge list) \<Rightarrow> Edge list \<Rightarrow> Edge list" where
  "namespaceEdges visit edges = visit (collapse [] edges)"

record ('sel, 'port) TopologyService =
  ts_division :: "string \<Rightarrow> string + Division"
  ts_graph :: "Graph option"
  ts_reader :: "('sel, 'port) NetReader"

definition division_scope :: "('sel, 'port) TopologyService \<Rightarrow> string \<Rightarrow> string list answer" where
  "division_scope s division =
     (if division = [] then Inl (CodeInvalidArgument, ''name the division explicitly'')
      else case ts_division s division of
        Inl _ \<Rightarrow> Inl (CodeNotFound, ''division '' @ division @ '' not found'')
      | Inr d \<Rightarrow> Inr (dv_Namespaces (dv_Status d)))"

definition GetServiceGraph ::
  "((string \<times> gofloat) list \<Rightarrow> (string \<times> gofloat) list) \<Rightarrow> ('sel, 'port) TopologyService \<Rightarrow> Actor option \<Rightarrow> string \<Rightarrow>
   (string \<times> string \<times> gofloat \<times> gofloat) list answer" where
  "GetServiceGraph visit s ctx division =
     (case caller ctx of
        Inl err \<Rightarrow> Inl err
      | Inr _ \<Rightarrow>
          (case division_scope s division of
             Inl err \<Rightarrow> Inl err
           | Inr namespaces \<Rightarrow>
               (case Edges visit (ts_graph s) namespaces of
                  Inl ErrNoTraces \<Rightarrow> Inl (CodeUnavailable, graph_error_text ErrNoTraces)
                | Inl err \<Rightarrow> Inl (CodeInternal, graph_error_text err)
                | Inr edges \<Rightarrow> Inr (map (\<lambda>e. (ed_Client e, ed_Server e, RequestsPerS e, ErrorRatio e)) edges))))"

record Orders =
  or_rates :: "(string \<times> gofloat) list \<Rightarrow> (string \<times> gofloat) list"
  or_edges :: "Edge list \<Rightarrow> Edge list"
  or_namespaces :: "string \<Rightarrow> string list \<Rightarrow> string list"

definition observed_traffic :: "Orders \<Rightarrow> Graph option \<Rightarrow> string list \<Rightarrow> Edge list \<times> bool" where
  "observed_traffic orders graph namespaces =
     (if graph_Available graph
      then (case Edges (or_rates orders) graph namespaces of
          Inl _ \<Rightarrow> ([], False)
        | Inr edges \<Rightarrow> (namespaceEdges (or_edges orders) edges, True))
      else ([], False))"

definition GetReachability ::
  "('sel \<Rightarrow> string + (labels \<Rightarrow> bool)) \<Rightarrow> Orders \<Rightarrow> ('sel, 'port) TopologyService \<Rightarrow> Actor option \<Rightarrow> string \<Rightarrow>
   (Path list \<times> bool) answer" where
  "GetReachability as_selector orders s ctx division =
     (case caller ctx of
        Inl err \<Rightarrow> Inl err
      | Inr _ \<Rightarrow>
          (case division_scope s division of
             Inl err \<Rightarrow> Inl err
           | Inr namespaces \<Rightarrow>
               (case observed_traffic orders (ts_graph s) namespaces of (observed, traffic) \<Rightarrow>
                  (case Paths as_selector (or_namespaces orders) (ts_reader s) namespaces observed of
                     Inl err \<Rightarrow> Inl (CodeInternal, err)
                   | Inr paths \<Rightarrow> Inr (paths, traffic)))))"


section \<open>What the verdicts mean\<close>

text \<open>
  The documented meaning of network policies for one connection: from a pod of one namespace to a
  port of a pod of another. A pod that no policy for incoming traffic selects is open; any other
  takes what some rule of a policy that selects it admits.
\<close>

definition selector_picks :: "('sel \<Rightarrow> string + (labels \<Rightarrow> bool)) \<Rightarrow> labels \<Rightarrow> 'sel \<Rightarrow> bool" where
  "selector_picks as_selector l selector = (case as_selector selector of Inl _ \<Rightarrow> False | Inr matches \<Rightarrow> matches l)"

record 'port Connection =
  cx_Source :: string
  cx_SourceLabels :: labels
  cx_Client :: labels
  cx_Target :: string
  cx_Server :: labels
  cx_Port :: 'port

definition peer_admits :: "('sel \<Rightarrow> string + (labels \<Rightarrow> bool)) \<Rightarrow> 'port Connection \<Rightarrow> 'sel NetPeer \<Rightarrow> bool" where
  "peer_admits as_selector c peer \<longleftrightarrow>
     pe_IPBlock peer = None \<and>
     (case pe_NamespaceSelector peer of None \<Rightarrow> cx_Source c = cx_Target c | Some s \<Rightarrow> selector_picks as_selector (cx_SourceLabels c) s) \<and>
     (case pe_PodSelector peer of None \<Rightarrow> True | Some s \<Rightarrow> selector_picks as_selector (cx_Client c) s)"

definition rule_admits :: "('sel \<Rightarrow> string + (labels \<Rightarrow> bool)) \<Rightarrow> 'port Connection \<Rightarrow> ('sel, 'port) NetRule \<Rightarrow> bool" where
  "rule_admits as_selector c rule \<longleftrightarrow>
     (ru_From rule = [] \<or> list_ex (peer_admits as_selector c) (ru_From rule)) \<and> (ru_Ports rule = [] \<or> cx_Port c \<in> set (ru_Ports rule))"

definition guards_pod :: "('sel \<Rightarrow> string + (labels \<Rightarrow> bool)) \<Rightarrow> 'port Connection \<Rightarrow> ('sel, 'port) NetPolicy \<Rightarrow> bool" where
  "guards_pod as_selector c p \<longleftrightarrow> nw_Namespace p = cx_Target c \<and> guards p \<and> selector_picks as_selector (cx_Server c) (nw_PodSelector p)"

definition connection_admitted :: "('sel \<Rightarrow> string + (labels \<Rightarrow> bool)) \<Rightarrow> ('sel, 'port) NetPolicy list \<Rightarrow> 'port Connection \<Rightarrow> bool" where
  "connection_admitted as_selector policies c \<longleftrightarrow>
     \<not> list_ex (guards_pod as_selector c) policies \<or>
     list_ex (\<lambda>p. guards_pod as_selector c p \<and> list_ex (rule_admits as_selector c) (nw_Ingress p)) policies"

text \<open>
  The policies the answer is exact for: they select every pod of the namespace, on every port,
  and a peer chosen by its namespace is not narrowed further.
\<close>

definition namespace_wide :: "('sel \<Rightarrow> string + (labels \<Rightarrow> bool)) \<Rightarrow> ('sel, 'port) NetPolicy \<Rightarrow> bool" where
  "namespace_wide as_selector p \<longleftrightarrow>
     (\<forall>l. selector_picks as_selector l (nw_PodSelector p)) \<and>
     list_all (\<lambda>rule. ru_Ports rule = [] \<and>
       list_all (\<lambda>peer. pe_NamespaceSelector peer = None \<or> (pe_PodSelector peer = None \<and> pe_IPBlock peer = None)) (ru_From rule)) (nw_Ingress p)"

definition admitting :: "('sel \<Rightarrow> string + (labels \<Rightarrow> bool)) \<Rightarrow> labels \<Rightarrow> string \<Rightarrow> ('sel, 'port) NetPolicy \<Rightarrow> bool" where
  "admitting as_selector known target p \<longleftrightarrow>
     nw_Namespace p = target \<and> guards p \<and> list_ex (rule_allows as_selector known) (nw_Ingress p)"

lemma allows_from_eq:
  "ingress_from as_selector known target guarded ps =
     (case find (admitting as_selector known target) ps of
        Some p \<Rightarrow> (True, nw_Name p)
      | None \<Rightarrow> (\<not> guarded \<and> \<not> list_ex (\<lambda>p. nw_Namespace p = target \<and> guards p) ps, []))"
  by (induction ps arbitrary: guarded) (auto simp: admitting_def list_ex_iff split: option.splits)

lemma peer_wide:
  "cx_Source c \<noteq> cx_Target c \<Longrightarrow> pe_NamespaceSelector peer = None \<or> (pe_PodSelector peer = None \<and> pe_IPBlock peer = None) \<Longrightarrow>
     peer_admits as_selector c peer = peer_matches as_selector (cx_SourceLabels c) peer"
  by (auto simp: peer_admits_def peer_matches_def selector_picks_def split: option.splits)

lemma rules_wide:
  assumes "cx_Source c \<noteq> cx_Target c" and "namespace_wide as_selector p" and "rule \<in> set (nw_Ingress p)"
  shows "rule_admits as_selector c rule = rule_allows as_selector (cx_SourceLabels c) rule"
proof -
  have "peer_admits as_selector c peer = peer_matches as_selector (cx_SourceLabels c) peer" if "peer \<in> set (ru_From rule)" for peer
  proof (rule peer_wide [OF assms(1)])
    show "pe_NamespaceSelector peer = None \<or> (pe_PodSelector peer = None \<and> pe_IPBlock peer = None)"
      using assms(2,3) that unfolding namespace_wide_def list_all_iff by blast
  qed
  moreover have "ru_Ports rule = []"
    using assms by (auto simp: namespace_wide_def list_all_iff)
  ultimately show ?thesis
    by (auto simp: rule_admits_def rule_allows_def list_ex_iff)
qed

lemma allows_is_admission:
  assumes source: "cx_Source c \<noteq> cx_Target c" "catalogue (cx_Source c) = Some (cx_SourceLabels c)"
    and wide: "\<And>p. p \<in> set policies \<Longrightarrow> nw_Namespace p = cx_Target c \<Longrightarrow> namespace_wide as_selector p"
  shows "fst (allows as_selector policies catalogue (cx_Source c) (cx_Target c)) = connection_admitted as_selector policies c"
proof -
  have guard: "guards_pod as_selector c p \<longleftrightarrow> nw_Namespace p = cx_Target c \<and> guards p" if "p \<in> set policies" for p
    using wide [OF that] by (auto simp: guards_pod_def namespace_wide_def)
  have admit: "admitting as_selector (cx_SourceLabels c) (cx_Target c) p \<longleftrightarrow>
      guards_pod as_selector c p \<and> list_ex (rule_admits as_selector c) (nw_Ingress p)" if p: "p \<in> set policies" for p
    using rules_wide [OF source(1) wide [OF p]] by (auto simp: admitting_def guard [OF p] list_ex_iff)
  have ex: "list_ex (admitting as_selector (cx_SourceLabels c) (cx_Target c)) policies \<longleftrightarrow>
      list_ex (\<lambda>p. guards_pod as_selector c p \<and> list_ex (rule_admits as_selector c) (nw_Ingress p)) policies"
    using admit unfolding list_ex_iff by blast
  have unguarded: "list_ex (\<lambda>p. nw_Namespace p = cx_Target c \<and> guards p) policies \<longleftrightarrow> list_ex (guards_pod as_selector c) policies"
    using guard unfolding list_ex_iff by blast
  show ?thesis
    unfolding connection_admitted_def ex [symmetric] unguarded [symmetric] allows_def allows_from_eq source(2)
    by (auto simp: find_None_iff list_ex_iff split: option.splits dest!: find_SomeD)
qed

section \<open>The paths of an answer\<close>

lemma namespace_labels_dom: "dom (namespace_labels items) = fst ` set items"
proof -
  have "dom (fold (\<lambda>item m. m(fst item \<mapsto> known_labels item)) items m) = dom m \<union> fst ` set items" for m
    by (induction items arbitrary: m) auto
  then show ?thesis by (simp add: namespace_labels_def)
qed

definition path_of ::
  "('sel \<Rightarrow> string + (labels \<Rightarrow> bool)) \<Rightarrow> ('sel, 'port) NetPolicy list \<Rightarrow> (string \<times> labels) list \<Rightarrow> Edge list \<Rightarrow> string \<times> string \<Rightarrow> Path" where
  "path_of as_selector policies items observed key =
     (case key of (target, source) \<Rightarrow>
        let allowed = fst (allows as_selector policies (namespace_labels items) source target);
            used = edge_key source target \<in> set (map (\<lambda>e. edge_key (ed_Client e) (ed_Server e)) observed)
        in \<lparr>pa_From = source, pa_To = target, pa_Allowed = allowed, pa_Observed = used,
            pa_AllowedBy = snd (allows as_selector policies (namespace_labels items) source target), pa_Verdict = verdict_of allowed used\<rparr>)"

lemma path_of_key: "(pa_To (path_of as_selector policies items observed k), pa_From (path_of as_selector policies items observed k)) = k"
  by (cases k) (simp add: path_of_def Let_def)

lemma sort_key_map: "sort_key key (map f xs) = map f (sort_key (\<lambda>x. key (f x)) xs)"
proof -
  have "insort_key key (f x) (map f ys) = map f (insort_key (\<lambda>x. key (f x)) x ys)" for x ys
    by (induction ys) auto
  then show ?thesis by (induction xs) simp_all
qed

text \<open>Every order of visiting the namespaces gives the same answer: one path for each target and each other namespace.\<close>

definition path_keys :: "string list \<Rightarrow> (string \<times> labels) list \<Rightarrow> (string \<times> string) list" where
  "path_keys namespaces items =
     concat (map (\<lambda>target. map (\<lambda>source. (target, source)) (filter (\<lambda>source. source \<noteq> target) (remdups (map fst items)))) namespaces)"

lemma Paths_eq:
  assumes visit: "\<And>t xs. mset (visit t xs) = mset xs"
    and reader: "nr_Namespaces reader = Inr items" "nr_Policies reader = Inr policies"
  shows "Paths as_selector visit reader namespaces observed =
    Inr (map (path_of as_selector policies items observed) (sort (path_keys namespaces items)))"
proof -
  let ?keys = "concat (map (\<lambda>target. map (\<lambda>source. (target, source)) (filter (\<lambda>source. source \<noteq> target) (visit target (remdups (map fst items))))) namespaces)"
  have "Paths as_selector visit reader namespaces observed =
      Inr (sort_key (\<lambda>p. (pa_To p, pa_From p)) (map (path_of as_selector policies items observed) ?keys))"
    by (simp add: Paths_def reader Let_def path_of_def map_concat case_prod_beta comp_def cong: map_cong)
  also have "\<dots> = Inr (map (path_of as_selector policies items observed) (sort ?keys))"
    by (simp add: sort_key_map comp_def path_of_key)
  also have "sort ?keys = sort (path_keys namespaces items)"
  proof (rule properties_for_sort)
    have "mset (map (\<lambda>source. (target, source)) (filter (\<lambda>source. source \<noteq> target) (visit target xs))) =
        mset (map (\<lambda>source. (target, source)) (filter (\<lambda>source. source \<noteq> target) xs))" for target :: string and xs
      by (simp add: mset_filter visit)
    then have "mset ?keys = mset (path_keys namespaces items)"
      unfolding path_keys_def mset_concat map_map comp_def by simp
    then show "mset (sort (path_keys namespaces items)) = mset ?keys" by simp
  qed simp
  finally show ?thesis .
qed


lemma path_keys_set:
  "set (path_keys namespaces items) = {(target, source). target \<in> set namespaces \<and> source \<in> fst ` set items \<and> source \<noteq> target}"
  by (auto simp: path_keys_def)

lemma GetReachability_Inr:
  assumes "GetReachability as_selector orders s ctx division = Inr (paths, traffic)"
    and "\<forall>t xs. mset (or_namespaces orders t xs) = mset xs"
    and "nr_Namespaces (ts_reader s) = Inr items" and "nr_Policies (ts_reader s) = Inr policies"
  obtains d where "ts_division s division = Inr d" and "division \<noteq> []"
    and "traffic = snd (observed_traffic orders (ts_graph s) (dv_Namespaces (dv_Status d)))"
    and "paths = map (path_of as_selector policies items (fst (observed_traffic orders (ts_graph s) (dv_Namespaces (dv_Status d)))))
      (sort (path_keys (dv_Namespaces (dv_Status d)) items))"
proof -
  obtain a where "caller ctx = Inr a"
    using assms(1) by (auto simp: GetReachability_def split: sum.splits)
  moreover obtain namespaces where scope: "division_scope s division = Inr namespaces"
    using assms(1) by (auto simp: GetReachability_def split: sum.splits)
  moreover obtain d where d: "ts_division s division = Inr d" "division \<noteq> []" "namespaces = dv_Namespaces (dv_Status d)"
    using scope by (auto simp: division_scope_def split: if_splits sum.splits)
  ultimately show ?thesis
    using assms(1) by (intro that [OF d(1,2)]) (simp_all add: GetReachability_def Paths_eq assms case_prod_beta)
qed

lemma path_of_simps [simp]:
  "pa_From (path_of as_selector policies items observed (t, s)) = s" "pa_To (path_of as_selector policies items observed (t, s)) = t"
  "pa_Allowed (path_of as_selector policies items observed (t, s)) = fst (allows as_selector policies (namespace_labels items) s t)"
  "pa_Observed (path_of as_selector policies items observed (t, s)) \<longleftrightarrow> edge_key s t \<in> (\<lambda>e. edge_key (ed_Client e) (ed_Server e)) ` set observed"
  by (simp_all add: path_of_def Let_def)


section \<open>What the verdicts miss\<close>

text \<open>Pods chosen by the label \<^verbatim>\<open>app\<close>; the empty selector chooses all.\<close>

definition by_app :: "string \<Rightarrow> string + (labels \<Rightarrow> bool)" where
  "by_app app = Inr (\<lambda>l. app = [] \<or> l ''app'' = Some app)"

definition guard_one_app :: "(string, nat) NetPolicy" where
  "guard_one_app = \<lparr>nw_Namespace = ''shop'', nw_Name = ''guard-db'', nw_PodSelector = ''db'', nw_PolicyTypes = [], nw_Ingress = []\<rparr>"

definition admit_one_client :: "(string, nat) NetPolicy" where
  "admit_one_client = \<lparr>nw_Namespace = ''shop'', nw_Name = ''from-web'', nw_PodSelector = [], nw_PolicyTypes = [''Ingress''],
     nw_Ingress = [\<lparr>ru_From = [\<lparr>pe_NamespaceSelector = Some [], pe_PodSelector = Some ''web'', pe_IPBlock = None\<rparr>], ru_Ports = []\<rparr>]\<rparr>"

definition knock :: "string \<Rightarrow> string \<Rightarrow> nat Connection" where
  "knock client server = \<lparr>cx_Source = ''front'', cx_SourceLabels = known_labels (''ops'', Map.empty), cx_Client = [''app'' \<mapsto> client],
     cx_Target = ''shop'', cx_Server = [''app'' \<mapsto> server], cx_Port = 80\<rparr>"

text \<open>
  A policy that guards the pods of one application makes every path into the namespace read as
  denied, though its other pods are open; and a rule for the pods of one client makes the path read
  as allowed, though all other pods of that namespace are refused.
\<close>

lemma pod_selectors_are_not_read:
  "allows by_app [guard_one_app] [''front'' \<mapsto> Map.empty] ''front'' ''shop'' = (False, []) \<and>
   connection_admitted by_app [guard_one_app] (knock ''web'' ''cart'') \<and>
   allows by_app [admit_one_client] [''front'' \<mapsto> Map.empty] ''front'' ''shop'' = (True, ''from-web'') \<and>
   \<not> connection_admitted by_app [admit_one_client] (knock ''batch'' ''cart'')"
  by (simp add: allows_def by_app_def guard_one_app_def admit_one_client_def knock_def guards_def rule_allows_def peer_matches_def
      connection_admitted_def guards_pod_def selector_picks_def rule_admits_def peer_admits_def)

text \<open>
  The traffic is asked for by the namespace of the client, with the namespaces of the division; the
  paths come from the other namespaces. So when the metrics answer what is asked, a path from outside
  the division is never shown as used, whatever goes over it.
\<close>

lemma namespaceOf_cut: "NUL \<notin> set (namespaceOf c) \<Longrightarrow> namespaceOf (fst (cut_at NUL (c @ NUL # s))) = namespaceOf c"
  by (induction c) (auto split: prod.splits if_splits simp: NUL_def)

lemma add_rate_keys: "fst ` set (add_rate key v rates) = insert key (fst ` set rates)"
proof -
  have "fst ` (\<lambda>(k, x). if k = key then (k, gadd x v) else (k, x)) ` A = fst ` A" for A :: "(string \<times> gofloat) set"
    unfolding image_image by (rule image_cong) auto
  then show ?thesis
    by (auto simp: add_rate_def simp del: image_image)
qed

lemma fold_within:
  assumes "\<And>x rs. F (f x rs) \<subseteq> insert (g x) (F rs)"
  shows "F (fold f xs rs) \<subseteq> F rs \<union> g ` set xs"
proof (induction xs arbitrary: rs)
  case (Cons x xs)
  from Cons.IH [of "f x rs"] assms [of x rs] show ?case by auto
qed simp

lemma graph_rates_keys:
  assumes "graph_rates src window metric namespaces = Inr rates" and "src (rate_query metric namespaces window) = Inr samples"
  shows "fst ` set rates \<subseteq> (\<lambda>s. edge_key (label_of s ''client'') (label_of s ''server'')) ` set samples"
proof -
  let ?add = "\<lambda>s rates. let client = label_of s ''client''; server = label_of s ''server''
            in if client = [] \<or> server = [] then rates else add_rate (edge_key client server) (sa_Value s) rates"
  have "fst ` set (fold ?add samples []) \<subseteq> fst ` set ([] :: (string \<times> gofloat) list) \<union> (\<lambda>s. edge_key (label_of s ''client'') (label_of s ''server'')) ` set samples"
    by (rule fold_within [where F = "\<lambda>rs. fst ` set rs" and f = ?add]) (auto simp: Let_def add_rate_keys)
  then show ?thesis
    using assms by (simp add: graph_rates_def)
qed

lemma collapse_clients:
  "ed_Client ` set (collapse out es) \<subseteq> ed_Client ` set out \<union> (namespaceOf \<circ> ed_Client) ` set es"
proof (induction out es rule: collapse.induct)
  case (2 out e es)
  show ?case
    unfolding collapse.simps Let_def
    by (rule subset_trans [OF 2 [OF refl refl refl refl, unfolded Let_def]]) (auto split: if_splits)
qed simp


lemma Edges_clients:
  assumes "Edges visit g namespaces = Inr edges" and "\<forall>xs. mset (visit xs) = mset xs"
    and honest: "\<forall>graph src up metric samples. g = Some graph \<and> gr_source graph = Some (src, up) \<and>
      src (rate_query metric namespaces (gr_window graph)) = Inr samples \<longrightarrow> (\<forall>s \<in> set samples. namespaceOf (label_of s ''client'') \<in> N)"
    and plain: "\<forall>n \<in> N. NUL \<notin> set n" and e: "e \<in> set edges"
  shows "namespaceOf (ed_Client e) \<in> N"
proof -
  obtain graph src up where g: "g = Some graph" "gr_source graph = Some (src, up)"
    using assms(1) by (auto simp: Edges_def split: option.splits)
  let ?rates = "\<lambda>metric. graph_rates src (gr_window graph) metric namespaces"
  obtain totals failures where totals: "?rates ''traces_service_graph_request_total'' = Inr totals"
    and "?rates ''traces_service_graph_request_failed_total'' = Inr failures"
    using assms(1) g by (auto simp: Edges_def split: sum.splits if_splits)
  then have "edges = sort_key (\<lambda>e. (ed_Client e, ed_Server e)) (map (\<lambda>(key, rate). case cut_at NUL key of (client, server, _) \<Rightarrow>
      \<lparr>ed_Client = client, ed_Server = server, RequestsPerS = rate, FailedPerS = rate_at key failures\<rparr>) (visit totals))"
    using assms(1) g by (simp add: Edges_def split: if_splits)
  then have "ed_Client ` set edges = (\<lambda>(key, rate). fst (cut_at NUL key)) ` set (visit totals)"
    by (simp add: image_image case_prod_beta)
  then have member: "ed_Client e \<in> (\<lambda>(key, rate). fst (cut_at NUL key)) ` set (visit totals)"
    using e by blast
  from totals obtain samples where samples: "src (rate_query ''traces_service_graph_request_total'' namespaces (gr_window graph)) = Inr samples"
    by (auto simp: graph_rates_def split: sum.splits)
  have "set (visit totals) = set totals"
    using assms(2) by (metis set_mset_mset)
  then obtain key rate where "(key, rate) \<in> set totals" and client: "ed_Client e = fst (cut_at NUL key)"
    using member by auto
  then have "key \<in> fst ` set totals"
    by (metis fst_conv imageI)
  then obtain s where s: "s \<in> set samples" and key: "key = edge_key (label_of s ''client'') (label_of s ''server'')"
    using graph_rates_keys [OF totals samples] by blast
  have "namespaceOf (label_of s ''client'') \<in> N"
    using honest g samples s by blast
  then show ?thesis
    using plain namespaceOf_cut [of "label_of s ''client''" "label_of s ''server''"] by (auto simp: client key edge_key_def)
qed

lemma edge_key_client: "NUL \<notin> set a \<Longrightarrow> NUL \<notin> set b \<Longrightarrow> edge_key a x = edge_key b y \<Longrightarrow> a = b"
proof -
  assume "NUL \<notin> set a" "NUL \<notin> set b" "edge_key a x = edge_key b y"
  then have "takeWhile (\<lambda>c. c \<noteq> NUL) (a @ NUL # x) = takeWhile (\<lambda>c. c \<noteq> NUL) (b @ NUL # y)"
    by (simp add: edge_key_def)
  moreover have "takeWhile (\<lambda>c. c \<noteq> NUL) (a @ NUL # x) = a" and "takeWhile (\<lambda>c. c \<noteq> NUL) (b @ NUL # y) = b"
    using \<open>NUL \<notin> set a\<close> \<open>NUL \<notin> set b\<close> by (auto simp: takeWhile_append)
  ultimately show "a = b" by simp
qed

lemma traffic_from_outside_is_never_observed:
  assumes answer: "GetReachability as_selector orders s ctx division = Inr (paths, traffic)"
    and orders: "\<forall>t xs. mset (or_namespaces orders t xs) = mset xs" "\<forall>xs. mset (or_rates orders xs) = mset xs" "\<forall>xs. mset (or_edges orders xs) = mset xs"
    and reader: "nr_Namespaces (ts_reader s) = Inr items" "nr_Policies (ts_reader s) = Inr policies"
    and division: "ts_division s division = Inr d" and plain: "\<forall>n \<in> set (dv_Namespaces (dv_Status d)) \<union> fst ` set items. NUL \<notin> set n"
    and honest: "\<forall>graph src up metric samples. ts_graph s = Some graph \<and> gr_source graph = Some (src, up) \<and>
      src (rate_query metric (dv_Namespaces (dv_Status d)) (gr_window graph)) = Inr samples \<longrightarrow>
        (\<forall>x \<in> set samples. namespaceOf (label_of x ''client'') \<in> set (dv_Namespaces (dv_Status d)))"
    and path: "p \<in> set paths" "pa_From p \<notin> set (dv_Namespaces (dv_Status d))"
  shows "\<not> pa_Observed p"
proof
  assume "pa_Observed p"
  let ?N = "dv_Namespaces (dv_Status d)"
  obtain d' where "ts_division s division = Inr d'" and paths: "paths = map (path_of as_selector policies items
      (fst (observed_traffic orders (ts_graph s) (dv_Namespaces (dv_Status d'))))) (sort (path_keys (dv_Namespaces (dv_Status d')) items))"
    by (rule GetReachability_Inr [OF answer orders(1) reader])
  then have paths: "paths = map (path_of as_selector policies items (fst (observed_traffic orders (ts_graph s) ?N))) (sort (path_keys ?N items))"
    using division by simp
  then obtain t f where p: "p = path_of as_selector policies items (fst (observed_traffic orders (ts_graph s) ?N)) (t, f)" and known: "f \<in> fst ` set items"
    using path(1) by (auto simp: path_keys_set)
  then have "edge_key f t \<in> (\<lambda>e. edge_key (ed_Client e) (ed_Server e)) ` set (fst (observed_traffic orders (ts_graph s) ?N))"
    using \<open>pa_Observed p\<close> by simp
  then obtain e where "e \<in> set (fst (observed_traffic orders (ts_graph s) ?N))" and e: "edge_key f t = edge_key (ed_Client e) (ed_Server e)"
    by blast
  then obtain edges where edges: "Edges (or_rates orders) (ts_graph s) ?N = Inr edges" and "e \<in> set (collapse [] edges)"
    using orders(3) by (auto simp: observed_traffic_def namespaceEdges_def split: if_splits sum.splits) (metis set_mset_mset)
  then obtain x where "x \<in> set edges" and "ed_Client e = namespaceOf (ed_Client x)"
    using collapse_clients [of "[]" edges] by force
  then have "ed_Client e \<in> set ?N"
    using Edges_clients [OF edges orders(2) honest] plain by simp
  then have "f = ed_Client e"
    using edge_key_client [OF _ _ e] plain known by blast
  then show False
    using \<open>ed_Client e \<in> set ?N\<close> path(2) p by simp
qed


section \<open>An example\<close>

definition shop_policies :: "(string, nat) NetPolicy list" where
  "shop_policies =
     [\<lparr>nw_Namespace = ''shop'', nw_Name = ''default-deny'', nw_PodSelector = [], nw_PolicyTypes = [''Ingress'', ''Egress''], nw_Ingress = []\<rparr>,
      \<lparr>nw_Namespace = ''shop'', nw_Name = ''from-front'', nw_PodSelector = [], nw_PolicyTypes = [],
        nw_Ingress = [\<lparr>ru_From = [\<lparr>pe_NamespaceSelector = Some ''front'', pe_PodSelector = None, pe_IPBlock = None\<rparr>], ru_Ports = []\<rparr>]\<rparr>]"

definition shop_topology :: "(string, nat) TopologyService" where
  "shop_topology =
     \<lparr>ts_division = (\<lambda>_. Inr (example_division\<lparr>dv_Status := (dv_Status example_division)\<lparr>dv_Namespaces := [''shop'']\<rparr>\<rparr>)),
      ts_graph = Some (NewGraph (Some (\<lambda>_. Inr [\<lparr>sa_Labels = [''client'' \<mapsto> ''ops/job'', ''server'' \<mapsto> ''shop/cart''], sa_Value = Finite 2\<rparr>], True)) 0),
      ts_reader = \<lparr>nr_Namespaces = Inr [(''shop'', Map.empty), (''front'', [''app'' \<mapsto> ''front'']), (''ops'', Map.empty)], nr_Policies = Inr shop_policies\<rparr>\<rparr>"

definition as_listed :: Orders where
  "as_listed = \<lparr>or_rates = id, or_edges = id, or_namespaces = (\<lambda>_. id)\<rparr>"

definition shop_paths :: "Path list" where
  "shop_paths =
     [\<lparr>pa_From = ''front'', pa_To = ''shop'', pa_Allowed = True, pa_Observed = False, pa_AllowedBy = ''from-front'', pa_Verdict = VerdictAllowedUnused\<rparr>,
      \<lparr>pa_From = ''ops'', pa_To = ''shop'', pa_Allowed = False, pa_Observed = True, pa_AllowedBy = [], pa_Verdict = VerdictObservedNotAllowed\<rparr>]"

lemma shop_answer: "GetReachability by_app as_listed shop_topology (Some example_caller) ''retail'' = Inr (shop_paths, True)"
  by code_simp


end
