(* ===== verification/EnvironmentService.thy ===== *)
theory EnvironmentService
  imports Lease Attribution RequestService
begin

text \<open>
  The service of preview environments: internal/environments/service.go, every handler. A handler
  returns the writes it got accepted and its answer; the reader, the client that acts as the caller and the
  constructors of quantities are fields of a record. The lemmas follow a renewal through the webhook
  (Attribution) into the lease the reconciler computes (Lease).
\<close>

section \<open>What the service shows\<close>

datatype PEnvironmentPhase = PHASE_UNSPECIFIED | PHASE_PENDING | PHASE_READY | PHASE_EXPIRED | PHASE_RECLAIMING | PHASE_ORPHANED

fun environmentPhase :: "EnvironmentPhase \<Rightarrow> PEnvironmentPhase" where
  "environmentPhase EnvironmentReady = PHASE_READY"
| "environmentPhase EnvironmentExpired = PHASE_EXPIRED"
| "environmentPhase EnvironmentReclaiming = PHASE_RECLAIMING"
| "environmentPhase EnvironmentOrphaned = PHASE_ORPHANED"
| "environmentPhase EnvironmentPending = PHASE_PENDING"
| "environmentPhase NoEnvironmentPhase = PHASE_UNSPECIFIED"

record PCondition =
  pd_Type :: string
  pd_Ok :: bool
  pd_Reason :: string
  pd_Message :: string
  pd_LastTransitionAt :: time

record PreviewEnvironment =
  pv_Uid :: string
  pv_Name :: string
  pv_Division :: string
  pv_Change :: ChangeRef
  pv_Phase :: PEnvironmentPhase
  pv_Namespace :: string
  pv_Quota :: PCompute
  pv_RequestedBy :: string
  pv_GrantedTtl :: string
  pv_LeaseStartedAt :: "time option"
  pv_ExpiresAt :: "time option"
  pv_RemainingSeconds :: int
  pv_Renewals :: "Renewal list"
  pv_Conditions :: "PCondition list"

definition shown_condition :: "Condition \<Rightarrow> PCondition" where
  "shown_condition c =
     \<lparr>pd_Type = cond_Type c, pd_Ok = (cond_Status c = ''True''), pd_Reason = cond_Reason c, pd_Message = cond_Message c,
      pd_LastTransitionAt = cond_LastTransitionTime c\<rparr>"

definition Seconds :: "duration \<Rightarrow> rat" where
  "Seconds d = fadd (float_of_int (d sdiv second)) (fdiv (float_of_int (d smod second)) 1000000000)"

definition remaining_seconds :: "time option \<Rightarrow> time \<Rightarrow> int" where
  "remaining_seconds expires now =
     (case expires of
        None \<Rightarrow> 0
      | Some t \<Rightarrow> let remaining = time_sub t now in float_to_i64 (Seconds (if remaining < 0 then 0 else remaining)))"

definition protoEnvironment :: "EphemeralEnvironment \<Rightarrow> time \<Rightarrow> PreviewEnvironment" where
  "protoEnvironment e now =
     \<lparr>pv_Uid = om_UID (ee_Meta e), pv_Name = om_Name (ee_Meta e), pv_Division = ee_Division (ee_Spec e), pv_Change = ee_Change (ee_Spec e),
      pv_Phase = environmentPhase (ee_Phase (ee_Status e)), pv_Namespace = ee_Namespace (ee_Status e), pv_Quota = protoCompute (ee_Quota (ee_Spec e)),
      pv_RequestedBy = ee_RequestedBy (ee_Spec e), pv_GrantedTtl = GrantedTTL (ee_Status e), pv_LeaseStartedAt = LeaseStartedAt (ee_Status e),
      pv_ExpiresAt = ee_ExpiresAt (ee_Status e), pv_RemainingSeconds = remaining_seconds (ee_ExpiresAt (ee_Status e)) now,
      pv_Renewals = Renewals (ee_Spec e), pv_Conditions = map shown_condition (ee_Conditions (ee_Status e))\<rparr>"

section \<open>The service\<close>

datatype EnvironmentWrite = CreatedEnvironment EphemeralEnvironment | PatchedEnvironment EphemeralEnvironment | DeletedEnvironment EphemeralEnvironment

text \<open>
  The reader of the service and the client that acts as a caller. A write answers with the
  object as the API server stored it; \<^verbatim>\<open>es_new_milli\<close> and \<^verbatim>\<open>es_new_quantity\<close> are the constructors of
  quantities of the API machinery.
\<close>

record EnvironmentDeps =
  es_division :: "string \<Rightarrow> api_error + Division"
  es_list :: "api_error + EphemeralEnvironment list \<times> string"
  es_read :: "string \<Rightarrow> api_error + EphemeralEnvironment"
  es_as_caller :: "Actor \<Rightarrow> string option"
  es_get :: "Actor \<Rightarrow> string \<Rightarrow> api_error + EphemeralEnvironment"
  es_create :: "Actor \<Rightarrow> EphemeralEnvironment \<Rightarrow> api_error + EphemeralEnvironment"
  es_patch :: "Actor \<Rightarrow> EphemeralEnvironment \<Rightarrow> api_error + EphemeralEnvironment"
  es_delete :: "Actor \<Rightarrow> EphemeralEnvironment \<Rightarrow> api_error option"
  es_new_milli :: "int \<Rightarrow> Quantity"
  es_new_quantity :: "int \<Rightarrow> Quantity"

definition environment_division :: "EnvironmentDeps \<Rightarrow> string \<Rightarrow> Division answer" where
  "environment_division deps name =
     (if name = [] then Inl (CodeInvalidArgument, ''name the division explicitly'')
      else case es_division deps name of
        Inl _ \<Rightarrow> Inl (CodeNotFound, ''division '' @ name @ '' not found'')
      | Inr d \<Rightarrow> Inr d)"

definition quotaFromProto :: "EnvironmentDeps \<Rightarrow> PCompute \<Rightarrow> Quota" where
  "quotaFromProto deps c =
     \<lparr>q_CPU = es_new_milli deps (pm_CpuMillicores c), q_Memory = es_new_quantity deps (pm_MemoryBytes c),
      q_Storage = es_new_quantity deps (pm_StorageBytes c), q_Pods = pm_Pods c\<rparr>"

definition ListEnvironments ::
  "EnvironmentDeps \<Rightarrow> time \<Rightarrow> Actor option \<Rightarrow> string \<Rightarrow> bool \<Rightarrow> (PreviewEnvironment list \<times> string) answer" where
  "ListEnvironments deps now ctx division include_reclaimed =
     (case caller ctx of
        Inl err \<Rightarrow> Inl err
      | Inr _ \<Rightarrow>
          if division = [] then Inl (CodeInvalidArgument, ''name the division explicitly'')
          else (case es_list deps of
             Inl err \<Rightarrow> Inl (CodeInternal, error_text err)
           | Inr (items, version) \<Rightarrow>
               Inr (sort_key (\<lambda>p. - ch_Number (pv_Change p))
                 (map (\<lambda>e. protoEnvironment e now)
                   (filter (\<lambda>e. ee_Division (ee_Spec e) = division \<and> (include_reclaimed \<or> ee_Phase (ee_Status e) \<noteq> EnvironmentExpired)) items)),
                 version)))"

record EnvironmentRequest =
  er_Division :: string
  er_Change :: ChangeRef
  er_Quota :: PCompute
  er_Ttl :: string

definition default_ttl_text :: string where "default_ttl_text = ''48h0m0s''"

definition preview_name :: "Division \<Rightarrow> ChangeRef \<Rightarrow> string" where
  "preview_name d change = om_Name (dv_Meta d) @ ''-'' @ show_int (ch_Number change)"

definition preview :: "EnvironmentDeps \<Rightarrow> Actor \<Rightarrow> Division \<Rightarrow> EnvironmentRequest \<Rightarrow> string \<Rightarrow> EphemeralEnvironment" where
  "preview deps actor division msg ttl =
     \<lparr>ee_Meta = \<lparr>om_Name = preview_name division (er_Change msg), om_Namespace = [], om_UID = [], om_Generation = 0,
        om_CreationTimestamp = 0, om_DeletionTimestamp = None\<rparr>,
      ee_Spec = \<lparr>ee_Division = om_Name (dv_Meta division), ee_Change = er_Change msg, ee_Quota = quotaFromProto deps (er_Quota msg),
        ee_TTL = ttl, ee_RequestedBy = ac_Subject actor, Renewals = []\<rparr>,
      ee_Status = \<lparr>ee_Phase = NoEnvironmentPhase, ee_Namespace = [], LeaseStartedAt = None, ee_ExpiresAt = None, GrantedTTL = [],
        ReclaimedAt = None, ee_ObservedGeneration = 0, ee_Conditions = []\<rparr>\<rparr>"

definition RequestEnvironment ::
  "EnvironmentDeps \<Rightarrow> time \<Rightarrow> Actor option \<Rightarrow> EnvironmentRequest \<Rightarrow> EnvironmentWrite list \<times> PreviewEnvironment answer" where
  "RequestEnvironment deps now ctx msg =
     (case caller ctx of
        Inl err \<Rightarrow> ([], Inl err)
      | Inr actor \<Rightarrow>
     (case environment_division deps (er_Division msg) of
        Inl err \<Rightarrow> ([], Inl err)
      | Inr division \<Rightarrow>
     if ch_Repository (er_Change msg) = [] \<or> ch_Number (er_Change msg) \<le> 0 \<or> ch_Branch (er_Change msg) = []
     then ([], Inl (CodeInvalidArgument, ''a preview needs the repository, the change number and the branch it previews''))
     else if pm_CpuMillicores (er_Quota msg) \<le> 0 \<or> pm_MemoryBytes (er_Quota msg) \<le> 0
     then ([], Inl (CodeInvalidArgument, ''a preview needs its own cpu and memory ceiling''))
     else
       (let ttl = TrimSpace (er_Ttl msg); ttl = (if ttl = [] then default_ttl_text else ttl)
        in case parseTTL ttl DefaultTTL of
          Inl err \<Rightarrow> ([], Inl (CodeInvalidArgument, err))
        | Inr parsed \<Rightarrow>
            (case es_read deps (preview_name division (er_Change msg)) of
               Inr existing \<Rightarrow> ([], Inr (protoEnvironment existing now))
             | Inl _ \<Rightarrow>
                 (case es_as_caller deps actor of
                    Some err \<Rightarrow> ([], Inl (CodeInternal, err))
                  | None \<Rightarrow>
                      (let environment = preview deps actor division msg (FormatTTL parsed)
                       in case es_create deps actor environment of
                         Inl err \<Rightarrow> ([], Inl (CodePermissionDenied, ''create the preview as '' @ Label actor @ '': '' @ error_text err))
                       | Inr stored \<Rightarrow> ([CreatedEnvironment environment], Inr (protoEnvironment stored now))))))))"

fun phase_lower :: "EnvironmentPhase \<Rightarrow> string" where
  "phase_lower NoEnvironmentPhase = []"
| "phase_lower EnvironmentPending = ''pending''"
| "phase_lower EnvironmentReady = ''ready''"
| "phase_lower EnvironmentExpired = ''expired''"
| "phase_lower EnvironmentReclaiming = ''reclaiming''"
| "phase_lower EnvironmentOrphaned = ''orphaned''"

definition renewed :: "Actor \<Rightarrow> time \<Rightarrow> duration \<Rightarrow> string \<Rightarrow> EphemeralEnvironment \<Rightarrow> EphemeralEnvironment" where
  "renewed actor now extension reason e =
     e\<lparr>ee_Spec := (ee_Spec e)\<lparr>Renewals := Renewals (ee_Spec e) @
       [\<lparr>Extend = FormatTTL extension, ren_Reason = reason, GrantedBy = ac_Subject actor, GrantedAt = now\<rparr>]\<rparr>\<rparr>"

definition RenewEnvironment ::
  "EnvironmentDeps \<Rightarrow> time \<Rightarrow> Actor option \<Rightarrow> string \<Rightarrow> string \<Rightarrow> string \<Rightarrow> EnvironmentWrite list \<times> PreviewEnvironment answer" where
  "RenewEnvironment deps now ctx name longer reason0 =
     (case caller ctx of
        Inl err \<Rightarrow> ([], Inl err)
      | Inr actor \<Rightarrow>
     (let reason = TrimSpace reason0
      in if length reason < 10 then ([], Inl (CodeInvalidArgument, ''a renewal needs a reason of at least ten characters''))
         else
           (let refused = ([], Inl (CodeInvalidArgument, ''say how much longer the preview should live, as a duration''))
            in case parseTTL (TrimSpace longer) 0 of
              Inl _ \<Rightarrow> refused
            | Inr extension \<Rightarrow>
                if extension \<le> 0 then refused
                else (case es_as_caller deps actor of
                  Some err \<Rightarrow> ([], Inl (CodeInternal, err))
                | None \<Rightarrow>
                    (case es_get deps actor name of
                       Inl _ \<Rightarrow> ([], Inl (CodeNotFound, ''preview '' @ name @ '' not found''))
                     | Inr environment \<Rightarrow>
                         if \<not> Live environment
                         then ([], Inl (CodeFailedPrecondition, ''preview '' @ om_Name (ee_Meta environment) @ '' is '' @
                           phase_lower (ee_Phase (ee_Status environment)) @ ''; a reclaimed namespace cannot be renewed, only requested again''))
                         else
                           (let patched = renewed actor now extension reason environment
                            in case es_patch deps actor patched of
                              Inl err \<Rightarrow> ([], Inl (CodePermissionDenied, ''renew as '' @ Label actor @ '': '' @ error_text err))
                            | Inr stored \<Rightarrow> ([PatchedEnvironment patched], Inr (protoEnvironment stored now))))))))"

definition ReleaseEnvironment ::
  "EnvironmentDeps \<Rightarrow> time \<Rightarrow> Actor option \<Rightarrow> string \<Rightarrow> EnvironmentWrite list \<times> PreviewEnvironment answer" where
  "ReleaseEnvironment deps now ctx name =
     (case caller ctx of
        Inl err \<Rightarrow> ([], Inl err)
      | Inr actor \<Rightarrow>
     (case es_as_caller deps actor of
        Some err \<Rightarrow> ([], Inl (CodeInternal, err))
      | None \<Rightarrow>
     (case es_get deps actor name of
        Inl _ \<Rightarrow> ([], Inl (CodeNotFound, ''preview '' @ name @ '' not found''))
      | Inr environment \<Rightarrow>
          (case es_delete deps actor environment of
             Some err \<Rightarrow> ([], Inl (CodePermissionDenied, ''release as '' @ Label actor @ '': '' @ error_text err))
           | None \<Rightarrow> ([DeletedEnvironment environment], Inr (protoEnvironment environment now))))))"

section \<open>A renewal lengthens the lease\<close>

lemma FormatTTL_value:
  assumes "0 < x" and "x \<le> MaxTTL"
  shows "ttl_value (FormatTTL x) fallback = Some (max 1 (minutes_of x) * minute)"
proof -
  have parsed: "ParseDuration (FormatTTL x) = Some (max 1 (minutes_of x) * minute)"
    using FormatTTL_reads_back assms .
  then have "FormatTTL x \<noteq> []"
    by (auto simp: ParseDuration_def)
  moreover have "0 < max 1 (minutes_of x) * minute"
    by (simp add: minute_def)
  ultimately show ?thesis
    using parsed by (simp add: ttl_value_def parseTTL_def)
qed

lemma sum_extensions_append:
  "sum_extensions (rs @ [r]) = (case (sum_extensions rs, ttl_value (Extend r) 0) of (Some s, Some x) \<Rightarrow> Some (s + x) | _ \<Rightarrow> None)"
  by (induction rs) (auto split: option.splits)

lemma asked_for_renewed:
  assumes "0 < x" and "x \<le> MaxTTL"
  shows "asked_for (renewed actor now x reason e) = map_option (\<lambda>s. s + max 1 (minutes_of x) * minute) (asked_for e)"
  by (auto simp: asked_for_def renewed_def sum_extensions_append FormatTTL_value [OF assms] split: option.splits)

definition started :: "EphemeralEnvironment \<Rightarrow> time" where
  "started e = (case LeaseStartedAt (ee_Status e) of None \<Rightarrow> om_CreationTimestamp (ee_Meta e) | Some t \<Rightarrow> t)"

lemma started_renewed [simp]: "started (renewed actor now x reason e) = started e"
  by (simp add: started_def renewed_def split: option.split)

lemma LeaseOf_sum:
  assumes "asked_for e = Some s" and "s \<le> max_i64"
  shows "\<exists>l. LeaseOf e = Inr l \<and> Granted l = min s MaxTTL \<and> StartedAt l = started e \<and> lease_ExpiresAt l = started e + min s MaxTTL"
proof -
  obtain d x where d: "ttl_value (ee_TTL (ee_Spec e)) DefaultTTL = Some d"
    and x: "sum_extensions (Renewals (ee_Spec e)) = Some x" and sx: "s = d + x"
    using assms(1) by (auto simp: asked_for_def split: option.splits)
  have "0 < d"
    using ttl_value_range [OF d] by simp
  then obtain g where g: "add_renewals d (Renewals (ee_Spec e)) = Inr g" "g = s"
    using add_renewals_sum [OF x, of d] assms(2) sx by auto
  moreover have "parseTTL (ee_TTL (ee_Spec e)) DefaultTTL = Inr d"
    using d by (auto simp: ttl_value_def split: sum.splits)
  ultimately show ?thesis
    by (auto simp: LeaseOf_def Let_def started_def min_def)
qed

lemma rewritten_from_append: "rewritten_from i bs (bs @ as) = None"
  by (induction bs arbitrary: i) auto

lemma LeaseOf_cong:
  assumes "ee_Meta a = ee_Meta b" "ee_Status a = ee_Status b" "ee_TTL (ee_Spec a) = ee_TTL (ee_Spec b)"
    and "\<And>g. add_renewals g (Renewals (ee_Spec a)) = add_renewals g (Renewals (ee_Spec b))"
  shows "LeaseOf a = LeaseOf b"
  unfolding LeaseOf_def assms ..

text \<open>The webhook accepts a renewal the service appends, and its stamp does not change the lease.\<close>

lemma stamped_renewal:
  assumes "0 < x" and "x \<le> MaxTTL"
  shows "\<exists>stored. stampRenewals t (renewed actor now x reason e) e user = Inr stored \<and> LeaseOf stored = LeaseOf (renewed actor now x reason e)"
proof -
  let ?r = "\<lparr>Extend = FormatTTL x, ren_Reason = reason, GrantedBy = ac_Subject actor, GrantedAt = now\<rparr>"
  obtain d where d: "parseTTL (FormatTTL x) 0 = Inr d"
    using FormatTTL_value [OF assms, of 0] by (auto simp: ttl_value_def split: sum.splits)
  have "add_renewals g (rs @ [stamp_renewal t user ?r]) = add_renewals g (rs @ [?r])" for g rs
    by (induction rs arbitrary: g) (simp_all add: d split: sum.splits)
  then have "LeaseOf (renewed actor now x reason e\<lparr>ee_Spec := (ee_Spec (renewed actor now x reason e))
      \<lparr>Renewals := Renewals (ee_Spec e) @ [stamp_renewal t user ?r]\<rparr>\<rparr>) = LeaseOf (renewed actor now x reason e)"
    by (intro LeaseOf_cong) (simp_all add: renewed_def)
  then show ?thesis
    by (simp add: stampRenewals_def renewed_def rewritten_from_append Let_def)
qed

text \<open>
  C35. A renewal that is refused writes nothing. One that is accepted appends a single renewal in the
  caller's name to a live preview; the webhook lets it through, and the lease then grants what was asked
  so far and the extension, rounded to whole minutes, up to the ceiling, from the same start.
\<close>
theorem renewal_lengthens_the_lease:
  assumes "RenewEnvironment deps now ctx name longer reason = (writes, answer)"
  shows "case answer of
      Inl _ \<Rightarrow> writes = []
    | Inr answered \<Rightarrow> (\<exists>actor e x sent. FromContext ctx = Some actor \<and> es_get deps actor name = Inr e \<and> Live e \<and>
        ParseDuration (TrimSpace longer) = Some x \<and> 0 < x \<and> writes = [PatchedEnvironment sent] \<and>
        Renewals (ee_Spec sent) = Renewals (ee_Spec e) @
          [\<lparr>Extend = FormatTTL x, ren_Reason = TrimSpace reason, GrantedBy = ac_Subject actor, GrantedAt = now\<rparr>] \<and>
        (x \<le> MaxTTL \<longrightarrow>
          (\<forall>t user. \<exists>stored. stampRenewals t sent e user = Inr stored \<and> LeaseOf stored = LeaseOf sent) \<and>
          (\<forall>s. asked_for e = Some s \<and> s + max 1 (minutes_of x) * minute \<le> max_i64 \<longrightarrow>
            (\<exists>l. LeaseOf sent = Inr l \<and> Granted l = min (s + max 1 (minutes_of x) * minute) MaxTTL \<and> StartedAt l = started e))))"
proof (cases answer)
  case Inl
  then show ?thesis
    using assms by (auto simp: RenewEnvironment_def Let_def split: sum.splits option.splits if_splits)
next
  case (Inr answered)
  obtain actor where actor: "caller ctx = Inr actor"
    using assms Inr by (auto simp: RenewEnvironment_def split: sum.splits)
  obtain x where x: "parseTTL (TrimSpace longer) 0 = Inr x" "0 < x"
    using assms Inr by (auto simp: RenewEnvironment_def Let_def actor split: sum.splits if_splits)
  obtain e where e: "es_get deps actor name = Inr e"
    using assms Inr x by (auto simp: RenewEnvironment_def Let_def actor split: sum.splits option.splits if_splits)
  let ?sent = "renewed actor now x (TrimSpace reason) e"
  have "Live e" and writes: "writes = [PatchedEnvironment ?sent]"
    using assms Inr x by (auto simp: RenewEnvironment_def Let_def actor e split: sum.splits option.splits if_splits)
  moreover have "ParseDuration (TrimSpace longer) = Some x"
    using x by (auto simp: parseTTL_def split: if_splits option.splits)
  moreover have "\<exists>l. LeaseOf ?sent = Inr l \<and> Granted l = min (s + max 1 (minutes_of x) * minute) MaxTTL \<and> StartedAt l = started e"
    if "x \<le> MaxTTL" "asked_for e = Some s" "s + max 1 (minutes_of x) * minute \<le> max_i64" for s
    using LeaseOf_sum [of ?sent "s + max 1 (minutes_of x) * minute"] asked_for_renewed [OF x(2) that(1), of actor now "TrimSpace reason" e] that
    by auto
  ultimately show ?thesis
    using actor x(2) e stamped_renewal [OF x(2)]
    by (auto simp: Inr caller_def renewed_def split: option.splits)
qed


section \<open>Requesting a preview\<close>

text \<open>
  A preview is named after the division and the number of the change. A request for a change of
  another repository with the same number is answered with the preview that is there, and nothing is
  created for it.
\<close>

lemma same_number_of_another_repository:
  assumes "FromContext ctx = Some actor" and "er_Division msg \<noteq> []" and "es_division deps (er_Division msg) = Inr division"
    and "ch_Repository (er_Change msg) \<noteq> []" "0 < ch_Number (er_Change msg)" "ch_Branch (er_Change msg) \<noteq> []"
    and "0 < pm_CpuMillicores (er_Quota msg)" "0 < pm_MemoryBytes (er_Quota msg)" and "er_Ttl msg = []"
    and there: "es_read deps (preview_name division (er_Change msg)) = Inr e" and "ch_Repository (ee_Change (ee_Spec e)) \<noteq> ch_Repository (er_Change msg)"
  shows "RequestEnvironment deps now ctx msg = ([], Inr (protoEnvironment e now)) \<and>
    ch_Repository (pv_Change (protoEnvironment e now)) \<noteq> ch_Repository (er_Change msg)"
proof -
  have "parseTTL default_ttl_text DefaultTTL = Inr (48 * hour)" and "TrimSpace [] = []"
    by code_simp+
  then show ?thesis
    using assms by (auto simp: RequestEnvironment_def caller_def environment_division_def protoEnvironment_def Let_def default_ttl_text_def)
qed

section \<open>An example\<close>

definition preview_deps :: EnvironmentDeps where
  "preview_deps =
     \<lparr>es_division = (\<lambda>_. Inl (NotFound ''gone'')), es_list = Inl (NotFound ''gone''), es_read = (\<lambda>_. Inl (NotFound ''gone'')), es_as_caller = (\<lambda>_. None),
      es_get = (\<lambda>_ _. Inr (example_environment ''48h'' [''24h''])), es_create = (\<lambda>_ e. Inr e), es_patch = (\<lambda>_ e. Inr e), es_delete = (\<lambda>_ _. None),
      es_new_milli = (\<lambda>_. zero_quantity), es_new_quantity = (\<lambda>_. zero_quantity)\<rparr>"

theorem renewal_lengthens_the_lease_witness:
  "\<exists>l sent answered. RenewEnvironment preview_deps 9 (Some example_caller) ''pr-7'' ''36h'' ''demo on monday'' = ([PatchedEnvironment sent], Inr answered) \<and>
     LeaseOf sent = Inr l \<and> Granted l = 108 * hour"
proof -
  let ?sent = "renewed example_caller 9 (36 * hour) ''demo on monday'' (example_environment ''48h'' [''24h''])"
  have run: "RenewEnvironment preview_deps 9 (Some example_caller) ''pr-7'' ''36h'' ''demo on monday'' = ([PatchedEnvironment ?sent], Inr (protoEnvironment ?sent 9))"
    by code_simp
  have e: "es_get preview_deps a ''pr-7'' = Inr (example_environment ''48h'' [''24h''])" for a
    by (simp add: preview_deps_def)
  have "TrimSpace ''36h'' = ''36h''" "ParseDuration ''36h'' = Some (36 * hour)" "asked_for (example_environment ''48h'' [''24h'']) = Some (72 * hour)"
    by code_simp+
  with renewal_lengthens_the_lease [OF run] run show ?thesis
    by (auto simp: e MaxTTL_def hour_def minute_def minutes_of_def max_i64_def)
qed

end
