(* ===== verification/RightSizing.thy ===== *)
theory RightSizing
  imports Metrics Biller "HOL-Library.AList"
begin

text \<open>
  Usage and right sizing: internal/cost/usage.go and rightsizing.go. The metrics source of the reader is a
  parameter: its answer to a query for one number, whether it is up, and its vector answers, which a source
  may lack. The six queries are asked in the order in which Go visits their map, which decides which of
  several failures is reported. Amounts are exact rationals, readings are float64 values.
\<close>

section \<open>Reading the usage\<close>

text \<open>The metrics source of the reader: its answers to a query for one number, whether it is up, and its vector answers, if it gives any.\<close>

record CostSource =
  cs_scalar :: "string \<Rightarrow> string + gofloat option"
  cs_available :: bool
  cs_vector :: "(string \<Rightarrow> string + Sample list) option"

type_synonym CostReader = "CostSource option option"

datatype UsageError = ErrNoUsageSource | ErrNoWorkloadUsage | UsageFailed string

fun usage_error_text :: "UsageError \<Rightarrow> string" where
  "usage_error_text ErrNoUsageSource = ''no metrics source is configured, so nothing can be charged''"
| "usage_error_text ErrNoWorkloadUsage = ''no per-workload usage was observed in the window, so no request can be questioned''"
| "usage_error_text (UsageFailed err) = err"

definition usage_Available :: "CostReader \<Rightarrow> bool" where
  "usage_Available r = (case r of None \<Rightarrow> False | Some None \<Rightarrow> False | Some (Some src) \<Rightarrow> cs_available src)"

fun FromFloat :: "gofloat \<Rightarrow> rat" where
  "FromFloat (Finite x) = x"
| "FromFloat _ = 0"

definition bytesToGi :: "gofloat \<Rightarrow> rat" where
  "bytesToGi v = FromFloat v / of_int gibibyte"

definition Resolution :: "duration \<Rightarrow> duration" where
  "Resolution window =
     (let step = window sdiv 60
      in if step \<ge> hour then hour else if step \<le> minute then minute else round_duration step minute)"

definition promWindow :: "duration \<Rightarrow> string" where
  "promWindow window =
     (if window < hour
      then (let minutes = float_to_i64 (Minutes window) in show_int (if minutes \<le> 0 then 1 else minutes) @ ''m'')
      else (let hours = float_to_i64 (Hours window); hours = (if hours \<le> 0 then 1 else hours)
            in if hours smod 24 = 0 then show_int (hours sdiv 24) @ ''d'' else show_int hours @ ''h''))"

definition cost_selector :: "string list \<Rightarrow> string" where
  "cost_selector namespaces = ''namespace=~'' @ dquote @ join ''|'' (map escape_namespace namespaces) @ dquote"

definition quote_text :: "string \<Rightarrow> string" where "quote_text s = dquote @ s @ dquote"

definition usage_queries :: "string list \<Rightarrow> duration \<Rightarrow> (string \<times> string) list" where
  "usage_queries namespaces window =
     (let selector = cost_selector namespaces; step = promWindow window; sampled = promWindow (Resolution window);
          over = (\<lambda>inner. ''sum_over_time('' @ inner @ ''['' @ step @ '':'' @ sampled @ ''])'')
      in [(''cpuRequested'', over (''sum(kube_pod_container_resource_requests{'' @ selector @ '',resource='' @ quote_text ''cpu'' @ ''})'')),
          (''cpuUsed'', over (''sum(rate(container_cpu_usage_seconds_total{'' @ selector @ '',container!='' @ quote_text [] @ ''}[5m]))'')),
          (''memoryRequested'', over (''sum(kube_pod_container_resource_requests{'' @ selector @ '',resource='' @ quote_text ''memory'' @ ''})'')),
          (''memoryUsed'', over (''sum(container_memory_working_set_bytes{'' @ selector @ '',container!='' @ quote_text [] @ ''})'')),
          (''storage'', over (''sum(kube_persistentvolumeclaim_resource_requests_storage_bytes{'' @ selector @ ''})'')),
          (''loadBalancers'', over (''count(kube_service_spec_type{'' @ selector @ '',type='' @ quote_text ''LoadBalancer'' @ ''})''))])"

text \<open>The queries are asked in the order in which Go visits their map.\<close>

fun ask_all :: "(string \<Rightarrow> string + gofloat option) \<Rightarrow> (string \<times> string) list \<Rightarrow> (string \<times> gofloat) list \<Rightarrow> UsageError + (string \<times> gofloat) list" where
  "ask_all scalar [] found = Inr found"
| "ask_all scalar ((name, query) # rest) found =
     (case scalar query of
        Inl err \<Rightarrow> Inl (UsageFailed (''read '' @ name @ '': '' @ err))
      | Inr None \<Rightarrow> ask_all scalar rest found
      | Inr (Some v) \<Rightarrow> ask_all scalar rest (AList.update name v found))"

definition reading :: "(string \<times> gofloat) list \<Rightarrow> string \<Rightarrow> gofloat" where
  "reading found name = (case map_of found name of None \<Rightarrow> Finite 0 | Some v \<Rightarrow> v)"

definition no_usage :: "duration \<Rightarrow> Usage" where
  "no_usage window =
     \<lparr>CPUCoreHoursRequested = None, CPUCoreHoursUsed = None, MemoryGiHoursRequested = None, MemoryGiHoursUsed = None,
      StorageGiHours = None, LoadBalancerHours = None, us_Window = window, us_Resolution = 0, us_Observed = False\<rparr>"

definition usage_of :: "duration \<Rightarrow> (string \<times> gofloat) list \<Rightarrow> Usage" where
  "usage_of window found =
     (let perSample = Hours (Resolution window); hours = (\<lambda>name. FromFloat (reading found name) * perSample);
          gi = (\<lambda>name. bytesToGi (reading found name) * perSample)
      in \<lparr>CPUCoreHoursRequested = Some (hours ''cpuRequested''), CPUCoreHoursUsed = Some (hours ''cpuUsed''),
          MemoryGiHoursRequested = Some (gi ''memoryRequested''), MemoryGiHoursUsed = Some (gi ''memoryUsed''),
          StorageGiHours = Some (gi ''storage''), LoadBalancerHours = Some (hours ''loadBalancers''),
          us_Window = window, us_Resolution = Resolution window, us_Observed = (found \<noteq> [])\<rparr>)"

definition read_usage :: "visit_order \<Rightarrow> CostReader \<Rightarrow> string list \<Rightarrow> duration \<Rightarrow> UsageError + Usage" where
  "read_usage visit r namespaces window =
     (case r of
        Some (Some src) \<Rightarrow>
          if \<not> cs_available src then Inl ErrNoUsageSource
          else if namespaces = [] then Inr (no_usage window)
          else (case ask_all (cs_scalar src) (visit (usage_queries namespaces window)) [] of
             Inl err \<Rightarrow> Inl err
           | Inr found \<Rightarrow> Inr (usage_of window found))
      | _ \<Rightarrow> Inl ErrNoUsageSource)"

section \<open>What each workload uses\<close>

definition RightSizingWindow :: duration where "RightSizingWindow = 14 * 24 * hour"
definition sizingHeadroom :: rat where "sizingHeadroom = 5 / 4"
definition minimumCPUMilli :: int where "minimumCPUMilli = 50"
definition minimumMemoryBytes :: int where "minimumMemoryBytes = 64 * 1024 * 1024"

record Observed =
  ob_CPUMillicores :: int
  ob_MemoryBytes :: int

record Proposal =
  pl_Request :: WorkloadRequest
  ObservedCPU :: int
  ObservedMemory :: int
  ProposedCPU :: int
  ProposedMemory :: int
  MonthlySaving :: Money

definition workloadOf :: "string \<Rightarrow> string" where
  "workloadOf pod =
     (let parts = split_on (CHR ''-'') pod
      in if length parts < 3 then pod else join ''-'' (take (length parts - 2) parts))"

definition workload_key :: "string \<Rightarrow> string \<Rightarrow> string" where
  "workload_key namespace name = namespace @ ''/'' @ name"

fun greater :: "gofloat \<Rightarrow> gofloat \<Rightarrow> bool" where
  "greater (Finite x) (Finite y) = (x > y)"
| "greater PosInf (Finite y) = True"
| "greater PosInf NegInf = True"
| "greater (Finite x) NegInf = True"
| "greater _ _ = False"

definition quantile_step :: "Sample \<Rightarrow> (string \<times> gofloat) list \<Rightarrow> (string \<times> gofloat) list" where
  "quantile_step s found =
     (let namespace = label_of s ''namespace''; pod = label_of s ''pod''; key = workload_key namespace (workloadOf pod)
      in if namespace = [] \<or> pod = [] then found
         else if greater (sa_Value s) (reading found key) then AList.update key (sa_Value s) found else found)"

definition quantiles :: "CostSource \<Rightarrow> string \<Rightarrow> UsageError + (string \<times> gofloat) list" where
  "quantiles src query =
     (case cs_vector src of
        None \<Rightarrow> Inl ErrNoUsageSource
      | Some vector \<Rightarrow>
          (case vector query of
             Inl err \<Rightarrow> Inl (UsageFailed (''read per-workload usage: '' @ err))
           | Inr samples \<Rightarrow> Inr (fold quantile_step samples [])))"

definition quantile_query :: "string list \<Rightarrow> duration \<Rightarrow> string \<Rightarrow> string" where
  "quantile_query namespaces window inner =
     ''quantile_over_time(0.95, sum by (namespace, pod) ('' @ inner @ '')['' @ promWindow window @ '':'' @ promWindow (Resolution window) @ ''])''"

definition cpu_usage_query :: "string list \<Rightarrow> duration \<Rightarrow> string" where
  "cpu_usage_query namespaces window = quantile_query namespaces window
     (''rate(container_cpu_usage_seconds_total{'' @ cost_selector namespaces @ '',container!='' @ quote_text [] @ ''}[5m])'')"

definition memory_usage_query :: "string list \<Rightarrow> duration \<Rightarrow> string" where
  "memory_usage_query namespaces window = quantile_query namespaces window
     (''container_memory_working_set_bytes{'' @ cost_selector namespaces @ '',container!='' @ quote_text [] @ ''}'')"

fun times_thousand :: "gofloat \<Rightarrow> gofloat" where
  "times_thousand (Finite x) = Finite (fmul x 1000)"
| "times_thousand v = v"

definition observed_from :: "(string \<times> gofloat) list \<Rightarrow> (string \<times> gofloat) list \<Rightarrow> string \<rightharpoonup> Observed" where
  "observed_from cpu memory key =
     (if map_of cpu key = None \<and> map_of memory key = None then None
      else Some \<lparr>ob_CPUMillicores = (case map_of cpu key of None \<Rightarrow> 0 | Some v \<Rightarrow> int64_of (times_thousand v)),
                 ob_MemoryBytes = (case map_of memory key of None \<Rightarrow> 0 | Some v \<Rightarrow> int64_of v)\<rparr>)"

definition ObservedByWorkload :: "CostReader \<Rightarrow> string list \<Rightarrow> duration \<Rightarrow> UsageError + (string \<rightharpoonup> Observed)" where
  "ObservedByWorkload r namespaces window =
     (case r of
        Some (Some src) \<Rightarrow>
          if \<not> cs_available src then Inl ErrNoUsageSource
          else if namespaces = [] then Inr Map.empty
          else (case quantiles src (cpu_usage_query namespaces window) of
             Inl err \<Rightarrow> Inl err
           | Inr cpu \<Rightarrow>
               (case quantiles src (memory_usage_query namespaces window) of
                  Inl err \<Rightarrow> Inl err
                | Inr memory \<Rightarrow> if cpu = [] \<and> memory = [] then Inl ErrNoWorkloadUsage else Inr (observed_from cpu memory)))
      | _ \<Rightarrow> Inl ErrNoUsageSource)"

section \<open>Proposals\<close>

definition propose :: "int \<Rightarrow> int \<Rightarrow> int \<Rightarrow> int" where
  "propose observed requested least =
     (if observed \<le> 0 then requested
      else let proposed = float_to_i64 (fmul (float_of_int observed) sizingHeadroom);
               proposed = (if proposed < least then least else proposed)
           in if proposed > requested then requested else proposed)"

definition Worthwhile :: "Proposal \<Rightarrow> bool" where
  "Worthwhile p \<longleftrightarrow> ProposedCPU p < wl_CPUMillicores (pl_Request p) \<or> ProposedMemory p < wl_MemoryBytes (pl_Request p)"

definition saving :: "Policy \<Rightarrow> int \<Rightarrow> int \<Rightarrow> Money" where
  "saving policy cpu memory =
     Add_money (Times_money (hourly (CPUCore policy)) (Ratio cpu 1000 * of_int hoursPerMonth))
       (Times_money (hourly (MemoryGi policy)) (Ratio memory gibibyte * of_int hoursPerMonth))"

definition proposal_for :: "Policy \<Rightarrow> WorkloadRequest \<Rightarrow> Observed \<Rightarrow> Proposal" where
  "proposal_for policy w seen =
     (let cpu = propose (ob_CPUMillicores seen) (wl_CPUMillicores w) minimumCPUMilli;
          memory = propose (ob_MemoryBytes seen) (wl_MemoryBytes w) minimumMemoryBytes
      in \<lparr>pl_Request = w, ObservedCPU = ob_CPUMillicores seen, ObservedMemory = ob_MemoryBytes seen, ProposedCPU = cpu,
          ProposedMemory = memory, MonthlySaving = saving policy (wrap64 (wl_CPUMillicores w - cpu)) (wrap64 (wl_MemoryBytes w - memory))\<rparr>)"

definition Propose :: "WorkloadRequest list \<Rightarrow> (string \<rightharpoonup> Observed) \<Rightarrow> Policy \<Rightarrow> Proposal list" where
  "Propose requested observed policy =
     sort_key (\<lambda>p. - Rat_of (MonthlySaving p))
       (filter Worthwhile
         (List.map_filter (\<lambda>w. map_option (proposal_for policy w) (observed (workload_key (wl_Namespace w) (wl_Name w)))) requested))"

definition Patch :: "Proposal \<Rightarrow> string" where
  "Patch p =
     ''{'' @ quote_text ''spec'' @ '':{'' @ quote_text ''template'' @ '':{'' @ quote_text ''spec'' @ '':{'' @ quote_text ''containers'' @ '':[{'' @
     quote_text ''name'' @ '':'' @ quoted (wl_Name (pl_Request p)) @ '','' @ quote_text ''resources'' @ '':{'' @ quote_text ''requests'' @ '':{'' @
     quote_text ''cpu'' @ '':'' @ quote_text (show_int (ProposedCPU p) @ ''m'') @ '','' @
     quote_text ''memory'' @ '':'' @ quote_text (show_int (ProposedMemory p sdiv (1024 * 1024)) @ ''Mi'') @ ''}}}]}}}}''"


section \<open>What a proposal frees\<close>

lemma sized_covers:
  assumes "0 < v" and "v \<le> 2 ^ 50"
  shows "v \<le> float_to_i64 (fmul (float_of_int v) sizingHeadroom)"
proof -
  have v: "fl (of_int v) = of_int v" "fl (of_int (2 * v)) = of_int (2 * v)"
    using assms fl_of_int_exact [of v] fl_of_int_exact [of "2 * v"] by auto
  have "fl (of_int v) \<le> fl (of_int v * sizingHeadroom)" and "fl (of_int v * sizingHeadroom) \<le> fl (of_int (2 * v))"
    using assms by (auto intro!: fl_mono simp: sizingHeadroom_def)
  then have "of_int v \<le> fmul (of_int v) sizingHeadroom" and "fmul (of_int v) sizingHeadroom \<le> of_int (2 * v)"
    by (simp_all only: v fmul_def)
  then have le: "v \<le> \<lfloor>fmul (of_int v) sizingHeadroom\<rfloor>" "\<lfloor>fmul (of_int v) sizingHeadroom\<rfloor> \<le> 2 * v" and "0 \<le> fmul (of_int v) sizingHeadroom"
    using assms by (auto simp: le_floor_iff floor_le_iff intro: order_trans [of 0 "of_int v"])
  moreover have "in_i64 \<lfloor>fmul (of_int v) sizingHeadroom\<rfloor>"
    by (rule in_i64_between [OF _ _ le]) (use assms in \<open>simp_all add: in_i64_def min_i64_def max_i64_def\<close>)
  ultimately show ?thesis
    by (simp add: float_to_i64_def trunc_def float_of_int_def v)
qed

lemma propose_bounds:
  assumes "observed \<le> 2 ^ 50"
  shows "propose observed requested least \<le> requested \<and> min observed requested \<le> propose observed requested least \<and>
    min least requested \<le> propose observed requested least"
  using sized_covers [of observed] assms by (auto simp: propose_def Let_def)

lemma proposal_for_bounds:
  assumes w: "0 \<le> wl_CPUMillicores w" "wl_CPUMillicores w \<le> max_i64" "0 \<le> wl_MemoryBytes w" "wl_MemoryBytes w \<le> max_i64"
    and s: "0 \<le> ob_CPUMillicores s" "ob_CPUMillicores s \<le> 2 ^ 50" "0 \<le> ob_MemoryBytes s" "ob_MemoryBytes s \<le> 2 ^ 50"
    and p: "p = proposal_for policy w s"
  shows "ProposedCPU p \<le> wl_CPUMillicores w" "ProposedMemory p \<le> wl_MemoryBytes w"
    "min (max minimumCPUMilli (ob_CPUMillicores s)) (wl_CPUMillicores w) \<le> ProposedCPU p"
    "min (max minimumMemoryBytes (ob_MemoryBytes s)) (wl_MemoryBytes w) \<le> ProposedMemory p"
    "Rat_of (MonthlySaving p) = Rat_of (CPUCore policy) * of_int (wl_CPUMillicores w - ProposedCPU p) / 1000 +
       Rat_of (MemoryGi policy) * of_int (wl_MemoryBytes w - ProposedMemory p) / of_int gibibyte"
proof -
  have cpu: "ProposedCPU p = propose (ob_CPUMillicores s) (wl_CPUMillicores w) minimumCPUMilli"
    and memory: "ProposedMemory p = propose (ob_MemoryBytes s) (wl_MemoryBytes w) minimumMemoryBytes"
    by (simp_all add: p proposal_for_def Let_def)
  note bounds = propose_bounds [OF s(2), of "wl_CPUMillicores w" minimumCPUMilli] propose_bounds [OF s(4), of "wl_MemoryBytes w" minimumMemoryBytes]
  show le: "ProposedCPU p \<le> wl_CPUMillicores w" "ProposedMemory p \<le> wl_MemoryBytes w"
    using bounds by (simp_all add: cpu memory)
  show "min (max minimumCPUMilli (ob_CPUMillicores s)) (wl_CPUMillicores w) \<le> ProposedCPU p"
    and "min (max minimumMemoryBytes (ob_MemoryBytes s)) (wl_MemoryBytes w) \<le> ProposedMemory p"
    using bounds by (auto simp: cpu memory)
  have "0 \<le> ProposedCPU p" "0 \<le> ProposedMemory p"
    using bounds s w by (auto simp: cpu memory minimumCPUMilli_def minimumMemoryBytes_def min_def split: if_splits)
  then have "in_i64 (wl_CPUMillicores w - ProposedCPU p)" "in_i64 (wl_MemoryBytes w - ProposedMemory p)"
    using le w by (auto simp: in_i64_def min_i64_def)
  moreover have "MonthlySaving p = saving policy (wrap64 (wl_CPUMillicores w - ProposedCPU p)) (wrap64 (wl_MemoryBytes w - ProposedMemory p))"
    by (simp add: p proposal_for_def Let_def)
  ultimately show "Rat_of (MonthlySaving p) = Rat_of (CPUCore policy) * of_int (wl_CPUMillicores w - ProposedCPU p) / 1000 +
      Rat_of (MemoryGi policy) * of_int (wl_MemoryBytes w - ProposedMemory p) / of_int gibibyte"
    by (simp add: saving_def Ratio_def hoursPerMonth_def gibibyte_def field_simps)
qed

text \<open>What a proposal for a workload owes: lower requests that still cover the use, and the price of the difference.\<close>

definition sound_proposal :: "Policy \<Rightarrow> WorkloadRequest \<Rightarrow> Observed \<Rightarrow> Proposal \<Rightarrow> bool" where
  "sound_proposal policy w s p \<longleftrightarrow>
     pl_Request p = w \<and> ProposedCPU p \<le> wl_CPUMillicores w \<and> ProposedMemory p \<le> wl_MemoryBytes w \<and>
     (ProposedCPU p < wl_CPUMillicores w \<or> ProposedMemory p < wl_MemoryBytes w) \<and>
     min (max minimumCPUMilli (ob_CPUMillicores s)) (wl_CPUMillicores w) \<le> ProposedCPU p \<and>
     min (max minimumMemoryBytes (ob_MemoryBytes s)) (wl_MemoryBytes w) \<le> ProposedMemory p \<and>
     Rat_of (MonthlySaving p) = Rat_of (CPUCore policy) * of_int (wl_CPUMillicores w - ProposedCPU p) / 1000 +
       Rat_of (MemoryGi policy) * of_int (wl_MemoryBytes w - ProposedMemory p) / of_int gibibyte \<and>
     0 \<le> Rat_of (MonthlySaving p)"



definition example_use :: "string \<rightharpoonup> Observed" where
  "example_use = [workload_key ''dev'' ''api'' \<mapsto> \<lparr>ob_CPUMillicores = 400, ob_MemoryBytes = 0\<rparr>]"

lemma one_example_proposal:
  "map (\<lambda>p. (ProposedCPU p, String_of (MonthlySaving p))) (Propose example_workloads example_use example_policy) = [(500, ''109.50'')]"
  by code_simp


section \<open>What the comparison misses\<close>

text \<open>
  The use is that of the busiest pod, the request that of all replicas together. Ten replicas that use
  all they ask for read as a tenth used: the proposal frees nine tenths of what is in use, and its patch
  asks for more in each pod than the pod has.
\<close>

lemma replicas_are_compared_with_one_pod:
  assumes "w = \<lparr>wl_UID = ''w1'', wl_Namespace = ''dev'', wl_Name = ''web'', wl_CPUMillicores = 10 * 1000, wl_MemoryBytes = 0\<rparr>"
  shows "map (\<lambda>p. (ObservedCPU p, ProposedCPU p)) (Propose [w] [workload_key ''dev'' ''web'' \<mapsto> \<lparr>ob_CPUMillicores = 1000, ob_MemoryBytes = 0\<rparr>] example_policy) =
    [(1000, 1250)]"
  unfolding assms by code_simp

text \<open>
  The name of the workload is taken from the name of a pod by dropping its last two parts, which fits a
  Deployment alone: the pods of a StatefulSet or a DaemonSet are matched with no workload, or with another.
\<close>

lemma only_pods_of_deployments_are_matched:
  "workloadOf ''web-7f9c4d-x2x7k'' = ''web'' \<and> workloadOf ''db-0'' = ''db-0'' \<and> workloadOf ''agent-x2x7k'' = ''agent-x2x7k'' \<and>
   workloadOf ''orders-db-0'' = ''orders''"
  by code_simp

section \<open>The usage that is charged\<close>

lemma Resolution_range: "minute \<le> Resolution window \<and> Resolution window \<le> hour"
proof (cases "minute < window sdiv 60 \<and> window sdiv 60 < hour")
  case True
  let ?m = "minutes_of (window sdiv 60)"
  have "1 \<le> ?m" "?m \<le> 60"
    using True by (auto simp: minutes_of_def minute_def hour_def)
  then have "minute \<le> ?m * minute" "?m * minute \<le> hour"
    by (auto simp: minute_def hour_def)
  moreover have "round_duration (window sdiv 60) minute = ?m * minute"
    using True by (intro round_to_minutes) (auto simp: minute_def hour_def max_i64_def)
  ultimately show ?thesis
    using True by (simp add: Resolution_def Let_def)
qed (auto simp: Resolution_def Let_def minute_def hour_def)

lemma Hours_nonneg: "0 \<le> d \<Longrightarrow> 0 \<le> Hours d"
  by (auto simp: Hours_def fadd_def fdiv_def float_of_int_def signed_divide_int_def signed_modulo_int_def sgn_if hour_def
      pos_imp_zdiv_nonneg_iff intro!: fl_nonneg add_nonneg_nonneg divide_nonneg_nonneg)

text \<open>What is read from counts that are not negative is a usage the bill is bounded for.\<close>

lemma usage_of_counts:
  assumes "\<And>name. 0 \<le> FromFloat (reading found name)"
  shows "usage_counts (usage_of window found)"
proof -
  have "0 \<le> Hours (Resolution window)"
    using Resolution_range [of window] by (intro Hours_nonneg) (auto simp: minute_def)
  then show ?thesis
    using assms by (simp add: usage_counts_def usage_of_def quantity_def bytesToGi_def gibibyte_def Let_def)
qed

end
