(* ===== verification/CostService.thy ===== *)
theory CostService
  imports RightSizing RequestService
begin

text \<open>
  The cost service and the projector of pricing policies: internal/cost/service.go and projector.go, every
  handler. What the service reads (divisions, policies, metrics, the requests of workloads, the books) are
  fields of a record. The clock runs in UTC; the times of answers and their empty page fields are left out.
  A look at a pricing policy returns the books, the status the policy then has and the result.
\<close>

section \<open>The messages\<close>

record PMoney =
  pm_Currency :: string
  pm_Amount :: string

definition money :: "Money \<Rightarrow> PMoney" where
  "money m = \<lparr>pm_Currency = Currency m, pm_Amount = String_of m\<rparr>"

definition boundedRevision :: "int \<Rightarrow> int" where
  "boundedRevision revision = (if revision > 2147483647 then 2147483647 else if revision < 0 then 0 else revision)"

record WorkloadCost =
  wc_WorkloadUid :: string
  wc_Namespace :: string
  wc_Name :: string
  wc_Charged :: PMoney

record CostComponent =
  cc_Resource :: Resource
  cc_Quantity :: string
  cc_Unit :: string
  cc_Rate :: PMoney
  cc_Amount :: PMoney

record DivisionCost =
  dc_Division :: string
  dc_Period :: string
  dc_Charged :: PMoney
  dc_ProjectedMonthEnd :: PMoney
  dc_Idle :: PMoney
  dc_PricingPolicy :: string
  dc_PricingPolicyRevision :: int
  dc_TopConsumers :: "WorkloadCost list"
  dc_Components :: "CostComponent list"

record PPolicy =
  pq_Name :: string
  pq_Revision :: int
  pq_EffectiveFrom :: string
  pq_EffectiveTo :: string
  pq_Currency :: string
  pq_Rates :: "PMoney list"
  pq_ApprovedBy :: string
  pq_ApprovedAt :: time
  pq_ProRata :: bool

definition protoPolicy :: "Policy \<Rightarrow> PPolicy" where
  "protoPolicy p =
     \<lparr>pq_Name = pol_Name p, pq_Revision = boundedRevision (pol_Revision p), pq_EffectiveFrom = show_date (From p),
      pq_EffectiveTo = (case To p of None \<Rightarrow> [] | Some t \<Rightarrow> show_date t), pq_Currency = pol_Currency p,
      pq_Rates = map money [CPUCore p, MemoryGi p, StorageGi p, LoadBalance p, EgressGi p],
      pq_ApprovedBy = pol_ApprovedBy p, pq_ApprovedAt = pol_ApprovedAt p, pq_ProRata = (Unallocated p = UnallocatedProRata)\<rparr>"

record PInvoiceLine =
  pi_LineNo :: int
  pi_WorkloadLabel :: string
  pi_Resource :: Resource
  pi_Quantity :: string
  pi_Unit :: string
  pi_Rate :: PMoney
  pi_Amount :: PMoney

record PInvoice =
  pi_Uid :: string
  pi_Division :: string
  pi_PeriodStart :: string
  pi_PeriodEnd :: string
  pi_PricingPolicy :: string
  pi_PricingPolicyRevision :: int
  pi_Subtotal :: PMoney
  pi_UnallocatedShare :: PMoney
  pi_Total :: PMoney
  pi_InputsDigest :: string
  pi_GeneratedAt :: time
  pi_Lines :: "PInvoiceLine list"

definition invoice_line :: "InvoiceItem \<Rightarrow> PInvoiceLine" where
  "invoice_line l =
     \<lparr>pi_LineNo = (if it_Number l > max_i32 then max_i32 else wrap32 (it_Number l)), pi_WorkloadLabel = it_WorkloadLabel l, pi_Resource = it_Resource l,
      pi_Quantity = FloatString 4 (it_Quantity l), pi_Unit = it_Unit l, pi_Rate = money (it_Rate l), pi_Amount = money (it_Amount l)\<rparr>"

definition protoInvoice :: "Invoice \<Rightarrow> PInvoice" where
  "protoInvoice i =
     \<lparr>pi_Uid = iv_UID i, pi_Division = iv_Division i, pi_PeriodStart = show_date (iv_PeriodStart i), pi_PeriodEnd = show_date (iv_PeriodEnd i),
      pi_PricingPolicy = iv_PolicyName i, pi_PricingPolicyRevision = boundedRevision (iv_PolicyRevision i), pi_Subtotal = money (iv_Subtotal i),
      pi_UnallocatedShare = money (iv_UnallocatedShare i), pi_Total = money (iv_Total i), pi_InputsDigest = hex_encode (iv_InputsDigest i),
      pi_GeneratedAt = iv_GeneratedAt i, pi_Lines = map invoice_line (iv_Lines i)\<rparr>"

section \<open>The service\<close>

text \<open>
  What the service reads: divisions and pricing policies of the cluster, the metrics, the requests of
  workloads and the books. \<^verbatim>\<open>cd_number\<close> reads the numbers of \<^verbatim>\<open>Rat.SetString\<close> that are no plain decimals.
\<close>

record CostDeps =
  cd_division :: "string \<Rightarrow> api_error + Division"
  cd_policies :: "api_error + PricingPolicyObject list"
  cd_policy :: "string \<Rightarrow> api_error + PricingPolicyObject"
  cd_number :: "string \<Rightarrow> rat option"
  cd_usage :: CostReader
  cd_workloads :: "(string list \<Rightarrow> string + WorkloadRequest list) option"
  cd_books :: "CostDB option"

definition cost_division :: "CostDeps \<Rightarrow> string \<Rightarrow> Division answer" where
  "cost_division deps name =
     (if name = [] then Inl (CodeInvalidArgument, ''name the division explicitly'')
      else case cd_division deps name of
        Inl _ \<Rightarrow> Inl (CodeNotFound, ''division '' @ name @ '' not found'')
      | Inr d \<Rightarrow> Inr d)"

definition policies_of :: "CostDeps \<Rightarrow> PricingPolicyObject list \<Rightarrow> Policy list" where
  "policies_of deps items =
     List.map_filter (\<lambda>p. case PolicyFrom (cd_number deps) p of Inl _ \<Rightarrow> None | Inr policy \<Rightarrow> Some policy) items"

definition effective :: "CostDeps \<Rightarrow> time \<Rightarrow> string + Policy" where
  "effective deps day =
     (case cd_policies deps of
        Inl err \<Rightarrow> Inl (''list pricing policies: '' @ error_text err)
      | Inr items \<Rightarrow> Effective (policies_of deps items) day)"

definition month_of :: "time \<Rightarrow> time" where
  "month_of now = (case date_of_time now of (y, m, d) \<Rightarrow> make_date y m 1)"

definition monthToDate :: "time \<Rightarrow> time \<times> time \<times> duration" where
  "monthToDate now =
     (let start = month_of now; elapsed = time_sub now start
      in (start, add_date start 0 1 0, if elapsed \<le> 0 then hour else elapsed))"

definition topConsumers :: nat where "topConsumers = 10"

definition workload_cost :: "Policy \<Rightarrow> rat \<Rightarrow> WorkloadRequest \<Rightarrow> WorkloadCost" where
  "workload_cost policy hours w =
     \<lparr>wc_WorkloadUid = wl_UID w, wc_Namespace = wl_Namespace w, wc_Name = wl_Name w,
      wc_Charged = money (Add_money (Times_money (hourly (CPUCore policy)) (Ratio (wl_CPUMillicores w) 1000 * hours))
        (Times_money (hourly (MemoryGi policy)) (Ratio (wl_MemoryBytes w) gibibyte * hours)))\<rparr>"

text \<open>The amounts are compared as they are shown, to the cent; every shown amount reads as a number.\<close>

definition shown_amount :: "WorkloadCost \<Rightarrow> rat" where
  "shown_amount c = (case decimal_text (pm_Amount (wc_Charged c)) of None \<Rightarrow> 0 | Some r \<Rightarrow> r)"

definition consumers :: "CostDeps \<Rightarrow> string list \<Rightarrow> Policy \<Rightarrow> duration \<Rightarrow> string + WorkloadCost list" where
  "consumers deps namespaces policy elapsed =
     (case cd_workloads deps of
        None \<Rightarrow> Inr []
      | Some workloads \<Rightarrow>
          (case workloads namespaces of
             Inl err \<Rightarrow> Inl err
           | Inr requested \<Rightarrow> Inr (take topConsumers (sort_key (\<lambda>c. - shown_amount c) (map (workload_cost policy (Hours elapsed)) requested)))))"

definition component_of :: "Line \<Rightarrow> CostComponent" where
  "component_of l =
     \<lparr>cc_Resource = ln_Resource l, cc_Quantity = FloatString 2 (ln_Quantity l), cc_Unit = ln_Unit l, cc_Rate = money (ln_Rate l),
      cc_Amount = money (ln_Amount l)\<rparr>"

definition GetDivisionCost :: "visit_order \<Rightarrow> CostDeps \<Rightarrow> time \<Rightarrow> Actor option \<Rightarrow> string \<Rightarrow> DivisionCost answer" where
  "GetDivisionCost visit deps now ctx name =
     (case caller ctx of
        Inl err \<Rightarrow> Inl err
      | Inr _ \<Rightarrow>
     (case cost_division deps name of
        Inl err \<Rightarrow> Inl err
      | Inr division \<Rightarrow>
     (case monthToDate now of (start, end_, elapsed) \<Rightarrow>
     (case effective deps start of
        Inl err \<Rightarrow> Inl (CodeFailedPrecondition, err)
      | Inr policy \<Rightarrow>
     (case read_usage visit (cd_usage deps) (dv_Namespaces (dv_Status division)) elapsed of
        Inl err \<Rightarrow> Inl (if err = ErrNoUsageSource then CodeUnavailable else CodeInternal, usage_error_text err)
      | Inr usage \<Rightarrow>
     (let bill = Charge policy usage elapsed (time_sub end_ start)
      in case consumers deps (dv_Namespaces (dv_Status division)) policy elapsed of
           Inl err \<Rightarrow> Inl (CodeInternal, err)
         | Inr costly \<Rightarrow>
             Inr \<lparr>dc_Division = om_Name (dv_Meta division), dc_Period = take 7 (show_date start), dc_Charged = money (bl_Charged bill),
               dc_ProjectedMonthEnd = money (bl_Projected bill), dc_Idle = money (bl_Idle bill), dc_PricingPolicy = pol_Name policy,
               dc_PricingPolicyRevision = boundedRevision (pol_Revision policy), dc_TopConsumers = costly,
               dc_Components = map component_of (bl_Lines bill)\<rparr>))))))"

definition ListWorkloadCost :: "CostDeps \<Rightarrow> time \<Rightarrow> Actor option \<Rightarrow> string \<Rightarrow> WorkloadCost list answer" where
  "ListWorkloadCost deps now ctx name =
     (case caller ctx of
        Inl err \<Rightarrow> Inl err
      | Inr _ \<Rightarrow>
     (case cost_division deps name of
        Inl err \<Rightarrow> Inl err
      | Inr division \<Rightarrow>
     (case monthToDate now of (start, _, elapsed) \<Rightarrow>
     (case effective deps start of
        Inl err \<Rightarrow> Inl (CodeFailedPrecondition, err)
      | Inr policy \<Rightarrow>
     (case consumers deps (dv_Namespaces (dv_Status division)) policy elapsed of
        Inl err \<Rightarrow> Inl (CodeInternal, err)
      | Inr costly \<Rightarrow> Inr costly)))))"

definition GetPricingPolicy :: "CostDeps \<Rightarrow> time \<Rightarrow> Actor option \<Rightarrow> string \<Rightarrow> PPolicy answer" where
  "GetPricingPolicy deps now ctx name =
     (case caller ctx of
        Inl err \<Rightarrow> Inl err
      | Inr _ \<Rightarrow>
          if name = [] then
            (case effective deps now of Inl err \<Rightarrow> Inl (CodeNotFound, err) | Inr policy \<Rightarrow> Inr (protoPolicy policy))
          else
            (case cd_policy deps name of
               Inl _ \<Rightarrow> Inl (CodeNotFound, ''pricing policy '' @ name @ '' not found'')
             | Inr stored \<Rightarrow>
                 (case PolicyFrom (cd_number deps) stored of
                    Inl err \<Rightarrow> Inl (CodeInternal, err)
                  | Inr policy \<Rightarrow> Inr (protoPolicy policy))))"

definition no_books :: "Code \<times> string" where
  "no_books = (CodeUnavailable, ''no read model is attached, so no invoice can be looked up'')"

definition ListInvoices :: "CostDeps \<Rightarrow> Actor option \<Rightarrow> string \<Rightarrow> int \<Rightarrow> PInvoice list answer" where
  "ListInvoices deps ctx name page_size =
     (case caller ctx of
        Inl err \<Rightarrow> Inl err
      | Inr _ \<Rightarrow>
     (case cd_books deps of
        None \<Rightarrow> Inl no_books
      | Some db \<Rightarrow>
     (case cost_division deps name of
        Inl err \<Rightarrow> Inl err
      | Inr division \<Rightarrow>
     (case Invoices (cd_number deps) db (om_Name (dv_Meta division)) page_size of
        Inl err \<Rightarrow> Inl (CodeInternal, err)
      | Inr stored \<Rightarrow> Inr (map protoInvoice stored)))))"

definition GetInvoice :: "CostDeps \<Rightarrow> Actor option \<Rightarrow> string \<Rightarrow> PInvoice answer" where
  "GetInvoice deps ctx uid =
     (case caller ctx of
        Inl err \<Rightarrow> Inl err
      | Inr _ \<Rightarrow>
     (case cd_books deps of
        None \<Rightarrow> Inl no_books
      | Some db \<Rightarrow>
     (case InvoiceByUID (cd_number deps) db uid of
        Inl err \<Rightarrow> Inl (if err = ''invoice '' @ uid @ '': '' @ ErrInvoiceNotFound then CodeNotFound else CodeInternal, err)
      | Inr i \<Rightarrow> Inr (protoInvoice i))))"

definition ListRightSizing :: "CostDeps \<Rightarrow> time \<Rightarrow> Actor option \<Rightarrow> string \<Rightarrow> (Proposal \<times> PMoney \<times> string) list answer" where
  "ListRightSizing deps now ctx name =
     (case caller ctx of
        Inl err \<Rightarrow> Inl err
      | Inr _ \<Rightarrow>
     (case cost_division deps name of
        Inl err \<Rightarrow> Inl err
      | Inr division \<Rightarrow>
     if \<not> usage_Available (cd_usage deps) then Inl (CodeUnavailable, ''no metrics source is configured, so no request can be questioned'')
     else (case cd_workloads deps of
        None \<Rightarrow> Inl (CodeUnavailable, ''no workload read model is attached'')
      | Some workloads \<Rightarrow>
     (case ObservedByWorkload (cd_usage deps) (dv_Namespaces (dv_Status division)) RightSizingWindow of
        Inl (UsageFailed err) \<Rightarrow> Inl (CodeInternal, err)
      | Inl err \<Rightarrow> Inl (CodeUnavailable, usage_error_text err)
      | Inr observed \<Rightarrow>
     (case workloads (dv_Namespaces (dv_Status division)) of
        Inl err \<Rightarrow> Inl (CodeInternal, err)
      | Inr requested \<Rightarrow>
     (case effective deps now of
        Inl err \<Rightarrow> Inl (CodeFailedPrecondition, err)
      | Inr policy \<Rightarrow> Inr (map (\<lambda>p. (p, money (MonthlySaving p), Patch p)) (Propose requested observed policy))))))))"


section \<open>The projector of pricing policies\<close>

record PricingPolicyStatus =
  ps_Effective :: bool
  ps_Revision :: int
  ps_ObservedGeneration :: int
  ps_Conditions :: "Condition list"

record PolicyState =
  pst_Object :: PricingPolicyObject
  pst_ResourceVersion :: string
  pst_Status :: PricingPolicyStatus

fun pricing_setCondition :: "time \<Rightarrow> string \<Rightarrow> string \<Rightarrow> string \<Rightarrow> string \<Rightarrow> Condition list \<Rightarrow> Condition list" where
  "pricing_setCondition now t state reason message [] =
     [\<lparr>cond_Type = t, cond_Status = state, cond_Reason = reason, cond_Message = message, cond_LastTransitionTime = now\<rparr>]"
| "pricing_setCondition now t state reason message (c # cs) =
     (if cond_Type c \<noteq> t then c # pricing_setCondition now t state reason message cs
      else \<lparr>cond_Type = t, cond_Status = state, cond_Reason = reason, cond_Message = message,
             cond_LastTransitionTime = (if cond_Status c = state then cond_LastTransitionTime c else now)\<rparr> # cs)"

text \<open>A status is written unless it says the same with as many conditions; the answer of the API server to the write is a parameter.\<close>

definition pricing_writeStatus :: "(PricingPolicyStatus \<Rightarrow> api_error option) \<Rightarrow> PolicyState \<Rightarrow> PricingPolicyStatus \<Rightarrow> PricingPolicyStatus \<times> string option" where
  "pricing_writeStatus update policy status =
     (let before = pst_Status policy
      in if ps_Effective before = ps_Effective status \<and> ps_Revision before = ps_Revision status \<and>
            ps_ObservedGeneration before = ps_ObservedGeneration status \<and> length (ps_Conditions before) = length (ps_Conditions status)
         then (before, None)
         else case update status of
           None \<Rightarrow> (status, None)
         | Some err \<Rightarrow> (before, Some (''update status of pricing policy '' @ om_Name (pp_Meta (pst_Object policy)) @ '': '' @ error_text err)))"

definition rejected :: "time \<Rightarrow> PolicyState \<Rightarrow> string \<Rightarrow> PricingPolicyStatus" where
  "rejected now policy cause =
     (let status = pst_Status policy
      in status\<lparr>ps_Effective := False, ps_ObservedGeneration := om_Generation (pp_Meta (pst_Object policy)),
           ps_Conditions := pricing_setCondition now ''Effective'' ''False'' ''Unreadable'' cause (ps_Conditions status)\<rparr>)"

definition priced :: "time \<Rightarrow> PolicyState \<Rightarrow> Policy \<Rightarrow> PricingPolicyStatus" where
  "priced now policy parsed =
     (let status = pst_Status policy; in_force = EffectiveOn parsed now; generation = om_Generation (pp_Meta (pst_Object policy))
      in status\<lparr>ps_Effective := in_force, ps_Revision := generation, ps_ObservedGeneration := generation,
           ps_Conditions :=
             (if in_force then pricing_setCondition now ''Effective'' ''True'' ''Active'' (''rates approved by '' @ pol_ApprovedBy parsed @ '' apply today'')
              else pricing_setCondition now ''Effective'' ''False'' ''OutsideWindow'' (''these rates apply from '' @ show_date (From parsed)))
             (ps_Conditions status)\<rparr>)"

record PricingProjector =
  pp_number :: "string \<Rightarrow> rat option"
  pp_refusal :: string
  pp_update :: "PricingPolicyStatus \<Rightarrow> api_error option"

text \<open>One look at a policy: the books, the status the policy then has, and an error or the time to the next look.\<close>

definition pricing_Reconcile ::
  "PricingProjector \<Rightarrow> time \<Rightarrow> CostDB \<Rightarrow> string \<Rightarrow> api_error + PolicyState \<Rightarrow> CostDB \<times> PricingPolicyStatus option \<times> (string + duration)" where
  "pricing_Reconcile proj now db name got =
     (case got of
        Inl err \<Rightarrow>
          if is_not_found err
          then (case DeletePolicy (pp_refusal proj) db name of Inl e \<Rightarrow> (db, None, Inl e) | Inr db' \<Rightarrow> (db', None, Inr 0))
          else (db, None, Inl (error_text err))
      | Inr policy \<Rightarrow>
          (case PolicyFrom (pp_number proj) (pst_Object policy) of
             Inl cause \<Rightarrow>
               (case pricing_writeStatus (pp_update proj) policy (rejected now policy cause) of
                  (status, None) \<Rightarrow> (db, Some status, Inr 0)
                | (status, Some err) \<Rightarrow> (db, Some status, Inl err))
           | Inr parsed \<Rightarrow>
               (case UpsertPolicy (pp_refusal proj) now db parsed (pst_ResourceVersion policy) of
                  Inl err \<Rightarrow> (db, Some (pst_Status policy), Inl err)
                | Inr db' \<Rightarrow>
                    (case pricing_writeStatus (pp_update proj) policy (priced now policy parsed) of
                       (status, None) \<Rightarrow> (db', Some status, Inr hour)
                     | (status, Some err) \<Rightarrow> (db', Some status, Inl err)))))"

section \<open>Who is shown what\<close>

lemma caller_alike:
  "(case caller ctx of Inl err \<Rightarrow> Inl err | Inr _ \<Rightarrow> f) = (case FromContext ctx of None \<Rightarrow> Inl (CodeUnauthenticated, ''sign in at /auth/login'') | Some _ \<Rightarrow> f)"
  by (simp add: caller_def split: option.split)

lemma example_caller_in: "FromContext (Some example_caller) = Some example_caller"
  by (simp add: FromContext_def example_caller_def)



section \<open>What a division is shown to cost\<close>

lemma take_of_sorted:
  assumes "costly = take n (sort_key (\<lambda>c. - f c) all)"
  shows "\<exists>rest. mset (costly @ rest) = mset all \<and> (rest = [] \<or> length costly = n) \<and> sorted_wrt (\<lambda>a b. f b \<le> (f a :: rat)) (costly @ rest)"
proof (intro exI conjI)
  let ?sorted = "sort_key (\<lambda>c. - f c) all"
  have sorted: "costly @ drop n ?sorted = ?sorted"
    by (simp add: assms)
  show "mset (costly @ drop n ?sorted) = mset all"
    unfolding sorted by simp
  have "sorted (map (\<lambda>c. - f c) ?sorted)" by simp
  then show "sorted_wrt (\<lambda>a b. f b \<le> f a) (costly @ drop n ?sorted)"
    unfolding sorted by (simp add: sorted_wrt_map)
  show "drop n ?sorted = [] \<or> length costly = n"
    by (auto simp: assms)
qed

text \<open>
  C37. The cost of a division this month: what the rates in force on the first of the month charge for the
  usage since then, and of its workloads the ten that cost most, the most expensive first.
\<close>
theorem division_cost_is_what_the_rates_charge:
  assumes "GetDivisionCost visit deps now ctx name = Inr c" and "monthToDate now = (start, until, elapsed)"
  shows "\<exists>d items policy usage. cd_division deps name = Inr d \<and> cd_policies deps = Inr items \<and>
    policy \<in> set (policies_of deps items) \<and> EffectiveOn policy start \<and>
    (\<forall>q \<in> set (policies_of deps items). EffectiveOn q start \<longrightarrow> From q \<le> From policy) \<and>
    read_usage visit (cd_usage deps) (dv_Namespaces (dv_Status d)) elapsed = Inr usage \<and>
    dc_Charged c = money (bl_Total (Charge policy usage elapsed (time_sub until start))) \<and>
    dc_ProjectedMonthEnd c = money (bl_Projected (Charge policy usage elapsed (time_sub until start))) \<and>
    (case cd_workloads deps of
       None \<Rightarrow> dc_TopConsumers c = []
     | Some workloads \<Rightarrow> \<exists>requested rest. workloads (dv_Namespaces (dv_Status d)) = Inr requested \<and>
         mset (dc_TopConsumers c @ rest) = mset (map (workload_cost policy (Hours elapsed)) requested) \<and>
         (rest = [] \<or> length (dc_TopConsumers c) = 10) \<and>
         sorted_wrt (\<lambda>a b. shown_amount b \<le> shown_amount a) (dc_TopConsumers c @ rest))"
proof -
  obtain a where actor: "caller ctx = Inr a"
    using assms(1) by (auto simp: GetDivisionCost_def split: sum.splits)
  obtain d where d: "cost_division deps name = Inr d"
    using assms(1) actor by (auto simp: GetDivisionCost_def split: sum.splits)
  obtain policy where policy: "effective deps start = Inr policy"
    using assms actor d by (auto simp: GetDivisionCost_def split: sum.splits)
  obtain usage where usage: "read_usage visit (cd_usage deps) (dv_Namespaces (dv_Status d)) elapsed = Inr usage"
    using assms actor d policy by (auto simp: GetDivisionCost_def split: sum.splits)
  obtain costly where costly: "consumers deps (dv_Namespaces (dv_Status d)) policy elapsed = Inr costly"
    using assms actor d policy usage by (auto simp: GetDivisionCost_def Let_def split: sum.splits)
  have c: "dc_Charged c = money (bl_Charged (Charge policy usage elapsed (time_sub until start)))"
    "dc_ProjectedMonthEnd c = money (bl_Projected (Charge policy usage elapsed (time_sub until start)))" "dc_TopConsumers c = costly"
    using assms actor d policy usage costly by (auto simp: GetDivisionCost_def Let_def)
  obtain items where items: "cd_policies deps = Inr items" and chosen: "effective_from start None (policies_of deps items) = Some policy"
    using policy by (auto simp: effective_def Effective_def split: sum.splits option.splits)
  have top: "case cd_workloads deps of
       None \<Rightarrow> costly = []
     | Some workloads \<Rightarrow> \<exists>requested rest. workloads (dv_Namespaces (dv_Status d)) = Inr requested \<and>
         mset (costly @ rest) = mset (map (workload_cost policy (Hours elapsed)) requested) \<and>
         (rest = [] \<or> length costly = 10) \<and> sorted_wrt (\<lambda>a b. shown_amount b \<le> shown_amount a) (costly @ rest)"
    using costly take_of_sorted [where n = topConsumers and f = shown_amount]
    by (fastforce simp: consumers_def topConsumers_def split: option.splits sum.splits)
  have "policy \<in> set (policies_of deps items) \<and> EffectiveOn policy start \<and> (\<forall>q \<in> set (policies_of deps items). EffectiveOn q start \<longrightarrow> From q \<le> From policy)"
    using effective_from_spec [where day = start and chosen = None and ps = "policies_of deps items"] chosen by simp
  moreover have "cd_division deps name = Inr d"
    using d by (auto simp: cost_division_def split: if_splits sum.splits)
  moreover have "bl_Charged (Charge policy usage elapsed (time_sub until start)) = bl_Total (Charge policy usage elapsed (time_sub until start))"
    by (simp add: Charge_def Let_def)
  ultimately show ?thesis
    using items usage c top by auto
qed

section \<open>The status of a policy\<close>

text \<open>
  After a look at a policy that ends without an error, its status tells whether its rates apply at that
  moment, of the generation that was read; a policy that cannot be read is shown as not in force and
  leaves the books as they are, one that can is looked at again within the hour.
\<close>
theorem policy_status_follows_the_calendar:
  assumes "pricing_Reconcile proj now db name (Inr policy) = (db', Some status, Inr delay)"
  shows "case PolicyFrom (pp_number proj) (pst_Object policy) of
      Inl _ \<Rightarrow> \<not> ps_Effective status \<and> db' = db
    | Inr parsed \<Rightarrow> ps_Effective status = EffectiveOn parsed now \<and> ps_Revision status = om_Generation (pp_Meta (pst_Object policy)) \<and>
        ps_ObservedGeneration status = om_Generation (pp_Meta (pst_Object policy)) \<and> delay = hour \<and>
        UpsertPolicy (pp_refusal proj) now db parsed (pst_ResourceVersion policy) = Inr db'"
  using assms
  by (auto simp: pricing_Reconcile_def pricing_writeStatus_def rejected_def priced_def Let_def split: sum.splits option.splits if_splits)

section \<open>Two rates for one month\<close>

text \<open>
  During the month a division is shown the rates of the first day; the invoice of the month takes those
  of the last. When the rates change within a month, the projection is not what is billed.
\<close>

definition cheap_then_dear :: "PricingPolicyObject list" where
  "cheap_then_dear = [example_object ''2024-01-01'' [], example_object ''2024-01-15'' []]"

definition dear_policy :: Policy where
  "dear_policy = example_policy\<lparr>From := make_date 2024 1 15\<rparr>"

definition rated_deps :: CostDeps where
  "rated_deps =
     \<lparr>cd_division = (\<lambda>_. Inr example_retail), cd_policies = Inr cheap_then_dear, cd_policy = (\<lambda>_. Inl (NotFound ''gone'')), cd_number = (\<lambda>_. None),
      cd_usage = Some (Some \<lparr>cs_scalar = (\<lambda>_. Inr (Some (Finite 2))), cs_available = True, cs_vector = None\<rparr>),
      cd_workloads = Some (\<lambda>_. Inr example_workloads), cd_books = None\<rparr>"

lemma dear_policy_from: "PolicyFrom (\<lambda>s. None) (example_object ''2024-01-15'' []) = Inr dear_policy"
proof -
  have "TrimSpace ''73'' = ''73''" "TrimSpace ''7.30'' = ''7.30''" "TrimSpace [] = []"
    by (simp_all add: TrimSpace_plain) (simp add: TrimSpace_def strip_plain)
  moreover have "decimal_text ''73'' = Some 73" "decimal_text ''7.30'' = Some (73 / 10)" "parse_date ''2024-01-15'' = Some (make_date 2024 1 15)"
    by code_simp+
  ultimately show ?thesis
    by (simp add: PolicyFrom_def example_object_def dear_policy_def example_policy_def ParseMoney_def SetString_def example_meta_def Let_def)
qed

lemma january_dates: "make_date 2024 1 1 < make_date 2024 1 15" "make_date 2024 1 15 < make_date 2024 1 31"
  "fst (monthToDate (make_date 2024 1 20)) = make_date 2024 1 1" "add_date (End january) 0 0 (- 1) = make_date 2024 1 31"
  by code_simp+

lemma estimate_and_invoice_use_different_rates:
  "effective rated_deps (fst (monthToDate (make_date 2024 1 20))) = Inr example_policy \<and>
   biller_policy (example_world\<lparr>bw_policies := Inr cheap_then_dear\<rparr>) (add_date (End january) 0 0 (- 1)) = Inr dear_policy"
proof -
  have "From example_policy = make_date 2024 1 1" "To example_policy = None" "From dear_policy = make_date 2024 1 15" "To dear_policy = None"
    by (simp_all add: dear_policy_def example_policy_def)
  then show ?thesis
    using january_dates
    by (simp add: effective_def policies_of_def biller_policy_def rated_deps_def example_world_def cheap_then_dear_def List.map_filter_def
        example_policy_from dear_policy_from Effective_def EffectiveOn_def)
qed

section \<open>Examples\<close>

lemma rated_month: "monthToDate (make_date 2024 1 20) = (make_date 2024 1 1, make_date 2024 2 1, 19 * 24 * hour)"
  by code_simp

lemma ask_all_answered: "(\<And>q. scalar q = Inr (Some v)) \<Longrightarrow> \<exists>found. ask_all scalar qs start = Inr found"
  by (induction qs arbitrary: start) auto

lemma rated_rates: "policies_of rated_deps cheap_then_dear = [example_policy, dear_policy]" "effective rated_deps (make_date 2024 1 1) = Inr example_policy"
  using estimate_and_invoice_use_different_rates january_dates(3)
  by (simp_all add: policies_of_def rated_deps_def cheap_then_dear_def List.map_filter_def example_policy_from dear_policy_from)

lemma rated_cost: "\<exists>c. GetDivisionCost id rated_deps (make_date 2024 1 20) (Some example_caller) ''retail'' = Inr c"
proof -
  have "cost_division rated_deps ''retail'' = Inr example_retail"
    by (simp add: cost_division_def rated_deps_def)
  moreover have "\<exists>usage. read_usage id (cd_usage rated_deps) ns (19 * 24 * hour) = Inr usage" for ns
    using ask_all_answered [of "\<lambda>_. Inr (Some (Finite 2))" "Finite 2"]
    by (auto simp: read_usage_def rated_deps_def split: sum.splits) (metis sum.distinct(1))
  moreover have "\<exists>costly. consumers rated_deps ns example_policy (19 * 24 * hour) = Inr costly" for ns
    by (simp add: consumers_def rated_deps_def)
  ultimately show ?thesis
    by (auto simp: GetDivisionCost_def caller_def example_caller_in rated_month rated_rates Let_def split: sum.splits)
      (metis sum.distinct(1))+
qed

theorem division_cost_is_what_the_rates_charge_witness:
  "\<exists>c usage. GetDivisionCost id rated_deps (make_date 2024 1 20) (Some example_caller) ''retail'' = Inr c \<and>
     dc_Charged c = money (bl_Total (Charge example_policy usage (19 * 24 * hour) (time_sub (make_date 2024 2 1) (make_date 2024 1 1))))"
proof -
  obtain c where c: "GetDivisionCost id rated_deps (make_date 2024 1 20) (Some example_caller) ''retail'' = Inr c"
    using rated_cost by blast
  have "cd_policies rated_deps = Inr cheap_then_dear" by (simp add: rated_deps_def)
  moreover have "\<not> EffectiveOn dear_policy (make_date 2024 1 1)"
    using january_dates(1) by (simp add: EffectiveOn_def dear_policy_def)
  ultimately show ?thesis
    using division_cost_is_what_the_rates_charge [OF c rated_month] c rated_rates(1) by auto
qed

definition unreadable_policy :: PolicyState where
  "unreadable_policy =
     \<lparr>pst_Object = example_object ''2024-02-30'' [], pst_ResourceVersion = ''7'',
      pst_Status = \<lparr>ps_Effective = True, ps_Revision = 2, ps_ObservedGeneration = 2, ps_Conditions = []\<rparr>\<rparr>"

theorem policy_status_follows_the_calendar_witness:
  "\<exists>status. pricing_Reconcile \<lparr>pp_number = (\<lambda>_. None), pp_refusal = ''refused'', pp_update = (\<lambda>_. None)\<rparr> 5 books ''rates'' (Inr unreadable_policy) =
     (books, Some status, Inr 0) \<and> \<not> ps_Effective status"
proof -
  let ?p = "\<lparr>pp_number = (\<lambda>_. None), pp_refusal = ''refused'', pp_update = (\<lambda>_. None)\<rparr>"
  have "PolicyFrom (\<lambda>_. None) (pst_Object unreadable_policy) = Inl (''effectiveFrom '' @ quoted ''2024-02-30'' @ '' is not a date'')"
    by (simp add: PolicyFrom_def unreadable_policy_def example_object_def example_parse Let_def)
  then obtain status where run: "pricing_Reconcile ?p 5 books ''rates'' (Inr unreadable_policy) = (books, Some status, Inr 0)"
    by (simp add: pricing_Reconcile_def pricing_writeStatus_def rejected_def unreadable_policy_def Let_def)
  show ?thesis
    using policy_status_follows_the_calendar [OF run] run \<open>PolicyFrom _ _ = _\<close> by simp
qed

end
