(* ===== verification/EventHub.thy ===== *)
theory EventHub
  imports Money Access "HOL-Library.Multiset"
begin

text \<open>
  The hub of internal/api: Publish numbers the events, keeps the last of them in a ring and sends them to
  the streams (hub.go), and the head and the texts of the stream of server-sent events (sse.go). Streams are
  buffered channels; publishing, sending, subscribing, cancelling, closing and reading are the steps of a
  relation, so that every interleaving of their critical sections is a run. The lemmas show what a replay
  answers, which events reach whom, and two races.
\<close>

section \<open>The hub\<close>

record 'e HubEvent =
  ev_Cursor :: string
  ev_Body :: 'e

type_synonym 'e HubFilter = "'e HubEvent \<Rightarrow> bool"

text \<open>A subscriber is the number of its stream and its filter; the streams are in the world below.\<close>

record 'e Hub =
  hub_next :: nat
  hub_ring :: "'e HubEvent list"
  hub_ringSize :: nat
  hub_subscribers :: "(nat \<times> 'e HubFilter) list"
  hub_nextSubID :: nat

definition defaultReplayBuffer :: int where "defaultReplayBuffer = 1024"

definition NewHub :: "int \<Rightarrow> 'e Hub" where
  "NewHub replayBuffer =
     \<lparr>hub_next = 0, hub_ring = [], hub_ringSize = nat (if replayBuffer \<le> 0 then defaultReplayBuffer else replayBuffer),
      hub_subscribers = [], hub_nextSubID = 0\<rparr>"

definition max_u64 :: nat where "max_u64 = 18446744073709551615"

text \<open>strconv.ParseUint of a decimal number.\<close>

definition ParseUint :: "string \<Rightarrow> nat option" where
  "ParseUint s =
     (if s \<noteq> [] \<and> list_all is_digit s \<and> digits_value 0 s \<le> int max_u64 then Some (nat (digits_value 0 s)) else None)"

text \<open>What Publish does under its lock: number the event, keep it in the ring, and copy the subscribers.\<close>

definition record_event :: "'e \<Rightarrow> 'e Hub \<Rightarrow> 'e Hub \<times> 'e HubEvent" where
  "record_event body h =
     (let n = (hub_next h + 1) mod 2 ^ 64; event = \<lparr>ev_Cursor = show_nat n, ev_Body = body\<rparr>; ring = hub_ring h @ [event]
      in (h\<lparr>hub_next := n, hub_ring := (if length ring > hub_ringSize h then drop (length ring - hub_ringSize h) ring else ring)\<rparr>, event))"

definition replay :: "'e Hub \<Rightarrow> string \<Rightarrow> 'e HubEvent list \<times> bool" where
  "replay h since =
     (if since = [] then ([], True)
      else case ParseUint since of
        None \<Rightarrow> ([], False)
      | Some after \<Rightarrow>
          (case hub_ring h of
             [] \<Rightarrow> ([], after = hub_next h)
           | first # _ \<Rightarrow>
               (case ParseUint (ev_Cursor first) of
                  None \<Rightarrow> ([], False)
                | Some oldest \<Rightarrow>
                    if (after + 1) mod 2 ^ 64 < oldest then ([], False)
                    else (filter (\<lambda>e. case ParseUint (ev_Cursor e) of None \<Rightarrow> False | Some cursor \<Rightarrow> cursor > after) (hub_ring h), True))))"

section \<open>Streams and their threads\<close>

text \<open>
  A stream is a buffered channel. A send to a closed channel panics, which ends the process; a send in a
  select with a default is dropped when the buffer is full.
\<close>

record 'e Stream =
  st_capacity :: nat
  st_queue :: "'e HubEvent list"
  st_closed :: bool

definition open_stream :: "'e Hub \<Rightarrow> string \<Rightarrow> 'e HubFilter \<Rightarrow> 'e Stream \<times> bool" where
  "open_stream h since allow =
     (case replay h since of (backlog, whole) \<Rightarrow>
        (\<lparr>st_capacity = length backlog + 64, st_queue = filter allow backlog, st_closed = False\<rparr>, whole))"

text \<open>
  The hub with everything that runs beside it: the streams by number, the events being sent with the
  subscribers they still go to, the subscriptions between their replay and their registration, the
  cancelled streams not yet closed, and whether the process has panicked. The log of all events, the
  filter and the answer each stream was opened with and what was received from it are only recorded.
\<close>

record 'e World =
  w_hub :: "'e Hub"
  w_streams :: "nat \<rightharpoonup> 'e Stream"
  w_sending :: "('e HubEvent \<times> (nat \<times> 'e HubFilter) list) list"
  w_pending :: "('e Stream \<times> 'e HubFilter \<times> bool) list"
  w_cancelled :: "nat list"
  w_panic :: bool
  aux_log :: "'e list"
  aux_opened :: "nat \<rightharpoonup> 'e HubFilter \<times> bool"
  aux_received :: "nat \<Rightarrow> 'e HubEvent list"

definition idle_world :: "int \<Rightarrow> 'e World" where
  "idle_world replayBuffer =
     \<lparr>w_hub = NewHub replayBuffer, w_streams = Map.empty, w_sending = [], w_pending = [], w_cancelled = [], w_panic = False,
      aux_log = [], aux_opened = Map.empty, aux_received = (\<lambda>_. [])\<rparr>"

definition send :: "'e HubEvent \<Rightarrow> nat \<times> 'e HubFilter \<Rightarrow> 'e World \<Rightarrow> 'e World" where
  "send event target w =
     (if \<not> snd target event then w
      else case w_streams w (fst target) of
        None \<Rightarrow> w
      | Some s \<Rightarrow>
          if st_closed s then w\<lparr>w_panic := True\<rparr>
          else if length (st_queue s) < st_capacity s then w\<lparr>w_streams := (w_streams w)(fst target \<mapsto> s\<lparr>st_queue := st_queue s @ [event]\<rparr>)\<rparr>
          else w)"

inductive hub_step :: "'e World \<Rightarrow> 'e World \<Rightarrow> bool" where
  publish: "\<not> w_panic w \<Longrightarrow> record_event body (w_hub w) = (h, event) \<Longrightarrow> mset targets = mset (hub_subscribers h) \<Longrightarrow>
     hub_step w (w\<lparr>w_hub := h, w_sending := w_sending w @ [(event, targets)], aux_log := aux_log w @ [body]\<rparr>)"
| deliver: "\<not> w_panic w \<Longrightarrow> w_sending w = before @ (event, target # targets) # after \<Longrightarrow>
     hub_step w (send event target (w\<lparr>w_sending := before @ (event, targets) # after\<rparr>))"
| subscribe: "\<not> w_panic w \<Longrightarrow> open_stream (w_hub w) cursor allow = (s, whole) \<Longrightarrow>
     hub_step w (w\<lparr>w_pending := w_pending w @ [(s, allow, whole)]\<rparr>)"
| register: "\<not> w_panic w \<Longrightarrow> w_pending w = before @ (s, allow, whole) # after \<Longrightarrow> n = hub_nextSubID (w_hub w) \<Longrightarrow>
     hub_step w (w\<lparr>w_pending := before @ after, w_streams := (w_streams w)(n \<mapsto> s), aux_opened := (aux_opened w)(n \<mapsto> (allow, whole)),
       w_hub := (w_hub w)\<lparr>hub_nextSubID := n + 1, hub_subscribers := hub_subscribers (w_hub w) @ [(n, allow)]\<rparr>\<rparr>)"
| cancel: "\<not> w_panic w \<Longrightarrow> n \<in> fst ` set (hub_subscribers (w_hub w)) \<Longrightarrow>
     hub_step w (w\<lparr>w_hub := (w_hub w)\<lparr>hub_subscribers := filter (\<lambda>s. fst s \<noteq> n) (hub_subscribers (w_hub w))\<rparr>,
       w_cancelled := n # w_cancelled w\<rparr>)"
| close: "\<not> w_panic w \<Longrightarrow> n \<in> set (w_cancelled w) \<Longrightarrow> w_streams w n = Some s \<Longrightarrow>
     hub_step w (w\<lparr>w_streams := (w_streams w)(n \<mapsto> s\<lparr>st_closed := True\<rparr>), w_cancelled := removeAll n (w_cancelled w)\<rparr>)"
| receive: "\<not> w_panic w \<Longrightarrow> w_streams w n = Some s \<Longrightarrow> st_queue s = event # rest \<Longrightarrow>
     hub_step w (w\<lparr>w_streams := (w_streams w)(n \<mapsto> s\<lparr>st_queue := rest\<rparr>), aux_received := (aux_received w)(n := aux_received w n @ [event])\<rparr>)"

inductive hub_reach :: "int \<Rightarrow> 'e World \<Rightarrow> bool" for replayBuffer where
  start: "hub_reach replayBuffer (idle_world replayBuffer)"
| step: "hub_reach replayBuffer w \<Longrightarrow> hub_step w w' \<Longrightarrow> hub_reach replayBuffer w'"

section \<open>The ring is the end of the log\<close>

definition numbered_log :: "'e list \<Rightarrow> 'e HubEvent list" where
  "numbered_log es = map (\<lambda>(i, body). \<lparr>ev_Cursor = show_nat (i + 1), ev_Body = body\<rparr>) (enumerate 0 es)"

lemma numbered_log_append: "numbered_log (es @ [body]) = numbered_log es @ [\<lparr>ev_Cursor = show_nat (length es + 1), ev_Body = body\<rparr>]"
  by (simp add: numbered_log_def enumerate_append_eq)

lemma length_numbered_log [simp]: "length (numbered_log es) = length es"
  by (simp add: numbered_log_def)

lemma send_simps [simp]:
  "w_hub (send event target w) = w_hub w" "aux_log (send event target w) = aux_log w" "w_sending (send event target w) = w_sending w"
  "w_pending (send event target w) = w_pending w" "w_cancelled (send event target w) = w_cancelled w" "aux_opened (send event target w) = aux_opened w"
  "aux_received (send event target w) = aux_received w"
  by (auto simp: send_def split: option.splits)

definition ring_ok :: "nat \<Rightarrow> 'e World \<Rightarrow> bool" where
  "ring_ok k w \<longleftrightarrow> hub_ringSize (w_hub w) = k \<and>
     (length (aux_log w) \<le> max_u64 \<longrightarrow>
       hub_next (w_hub w) = length (aux_log w) \<and> hub_ring (w_hub w) = drop (length (aux_log w) - k) (numbered_log (aux_log w)))"

definition buffer_size :: "int \<Rightarrow> nat" where
  "buffer_size replayBuffer = nat (if replayBuffer \<le> 0 then defaultReplayBuffer else replayBuffer)"

lemma buffer_size_pos: "0 < buffer_size replayBuffer"
  by (simp add: buffer_size_def defaultReplayBuffer_def)

text \<open>Cutting the ring after each event keeps the end of the log.\<close>

lemma keep_last:
  assumes "0 < k" and "ring = drop (length xs - k) xs"
  shows "(if length (ring @ [x]) > k then drop (length (ring @ [x]) - k) (ring @ [x]) else ring @ [x]) = drop (length (xs @ [x]) - k) (xs @ [x])"
proof (cases "k \<le> length xs")
  case True
  then have "Suc (length xs - k) = Suc (length xs) - k" by simp
  with True assms show ?thesis by simp
qed (use assms in simp)

lemma ring_ok_reach: "hub_reach replayBuffer w \<Longrightarrow> ring_ok (buffer_size replayBuffer) w"
proof (induction rule: hub_reach.induct)
  case start
  then show ?case by (simp add: ring_ok_def idle_world_def NewHub_def buffer_size_def numbered_log_def)
next
  case (step w w')
  from step(2) show ?case
  proof cases
    case (publish body h event targets)
    show ?thesis
    proof (cases "length (aux_log w') \<le> max_u64")
      case True
      then have "length (aux_log w) + 1 < 2 ^ 64" and len: "length (aux_log w) \<le> max_u64"
        by (simp_all add: publish max_u64_def)
      then have "hub_next (w_hub w) = length (aux_log w)"
        and ring: "hub_ring (w_hub w) = drop (length (numbered_log (aux_log w)) - buffer_size replayBuffer) (numbered_log (aux_log w))"
        and size: "hub_ringSize (w_hub w) = buffer_size replayBuffer"
        using step(3) by (auto simp: ring_ok_def)
      with publish(3) \<open>length (aux_log w) + 1 < 2 ^ 64\<close>
      have "event = \<lparr>ev_Cursor = show_nat (length (aux_log w) + 1), ev_Body = body\<rparr>" and "hub_next h = length (aux_log w) + 1"
        and "hub_ring h = drop (length (numbered_log (aux_log w) @ [event]) - buffer_size replayBuffer) (numbered_log (aux_log w) @ [event])"
        and "hub_ringSize h = buffer_size replayBuffer"
        using keep_last [OF buffer_size_pos ring, of event] by (auto simp: record_event_def Let_def)
      then show ?thesis
        unfolding publish ring_ok_def by (simp add: numbered_log_append)
    qed (use step(3) publish in \<open>auto simp: ring_ok_def record_event_def Let_def\<close>)
  qed (use step(3) in \<open>auto simp: ring_ok_def\<close>)
qed


section \<open>What a replay answers\<close>

lemma ParseUint_show: "n \<le> max_u64 \<Longrightarrow> ParseUint (show_nat n) = Some n"
  using show_nat_nonempty [of n] show_nat_digits by (auto simp: ParseUint_def digits_value_show list_all_iff)

lemma numbered_log_upt: "numbered_log es = map (\<lambda>i. \<lparr>ev_Cursor = show_nat (i + 1), ev_Body = es ! i\<rparr>) [0..<length es]"
  by (rule nth_equalityI) (simp_all add: numbered_log_def nth_enumerate_eq)

lemma later_events:
  assumes "d \<le> n" and "n \<le> length es" and "length es \<le> max_u64"
  shows "filter (\<lambda>e. case ParseUint (ev_Cursor e) of None \<Rightarrow> False | Some c \<Rightarrow> c > n) (drop d (numbered_log es)) = drop n (numbered_log es)"
proof -
  have "filter (\<lambda>i. case ParseUint (show_nat (i + 1)) of None \<Rightarrow> False | Some c \<Rightarrow> c > n) [d..<length es] = filter (\<lambda>i. n \<le> i) [d..<length es]"
    using assms(3) by (intro filter_cong refl) (simp add: ParseUint_show less_Suc_eq_le)
  also have "\<dots> = filter (\<lambda>i. n \<le> i) ([d..<n] @ [n..<length es])"
    using assms by (metis le_add_diff_inverse upt_add_eq_append)
  also have "\<dots> = [n..<length es]"
    by (simp add: filter_empty_conv)
  finally have "filter (\<lambda>i. case ParseUint (show_nat (i + 1)) of None \<Rightarrow> False | Some c \<Rightarrow> c > n) [d..<length es] = [n..<length es]" .
  then show ?thesis
    by (simp add: numbered_log_upt drop_map filter_map comp_def del: upt_Suc)
qed

text \<open>
  C39. Asked for what followed an event it numbered, the hub either answers with every event since, in
  order and none twice, or says that it no longer has them; it has them exactly when no more events
  followed than its buffer holds.
\<close>
theorem replay_gives_every_later_event_or_says_so:
  assumes "hub_reach replayBuffer w" and "length (aux_log w) < max_u64" and "n \<le> length (aux_log w)"
  shows "replay (w_hub w) (show_nat n) =
    (if length (aux_log w) - n \<le> buffer_size replayBuffer then (drop n (numbered_log (aux_log w)), True) else ([], False))"
proof -
  let ?L = "length (aux_log w)" and ?k = "buffer_size replayBuffer"
  have "hub_next (w_hub w) = ?L" and ring: "hub_ring (w_hub w) = drop (?L - ?k) (numbered_log (aux_log w))"
    using ring_ok_reach [OF assms(1)] assms(2) by (simp_all add: ring_ok_def)
  have parsed: "show_nat n \<noteq> []" "ParseUint (show_nat n) = Some n"
    using assms(2,3) show_nat_nonempty by (auto intro: ParseUint_show)
  show ?thesis
  proof (cases "aux_log w = []")
    case True
    with assms(3) ring \<open>hub_next (w_hub w) = ?L\<close> parsed show ?thesis
      by (simp add: replay_def numbered_log_def)
  next
    case False
    then have pos: "?L - ?k < ?L"
      using buffer_size_pos by simp
    then have "hub_ring (w_hub w) = numbered_log (aux_log w) ! (?L - ?k) # drop (Suc (?L - ?k)) (numbered_log (aux_log w))"
      unfolding ring by (simp add: Cons_nth_drop_Suc)
    moreover have "ParseUint (ev_Cursor (numbered_log (aux_log w) ! (?L - ?k))) = Some (?L - ?k + 1)"
      using pos assms(2) by (simp add: numbered_log_upt ParseUint_show)
    moreover have "(n + 1) mod 2 ^ 64 < ?L - ?k + 1 \<longleftrightarrow> \<not> ?L - n \<le> ?k"
    proof -
      have "(n + 1) mod 2 ^ 64 = n + 1"
        using assms by (intro mod_less) (simp add: max_u64_def)
      then show ?thesis by auto
    qed
    moreover have "?L - n \<le> ?k \<Longrightarrow> filter (\<lambda>e. case ParseUint (ev_Cursor e) of None \<Rightarrow> False | Some c \<Rightarrow> c > n) (hub_ring (w_hub w)) =
        drop n (numbered_log (aux_log w))"
      unfolding ring by (rule later_events) (use assms in auto)
    ultimately show ?thesis
      using parsed by (simp add: replay_def)
  qed
qed


text \<open>
  A cursor of a former process, beyond all this one has numbered, counts as up to date: what was
  published since the restart is neither replayed nor reported as missing.
\<close>

lemma cursor_of_a_former_process_is_up_to_date:
  assumes "hub_reach replayBuffer w" and "aux_log w \<noteq> []" and "length (aux_log w) < n" and "n < max_u64"
  shows "replay (w_hub w) (show_nat n) = ([], True)"
proof -
  let ?L = "length (aux_log w)" and ?k = "buffer_size replayBuffer"
  have ring: "hub_ring (w_hub w) = drop (?L - ?k) (numbered_log (aux_log w))"
    using ring_ok_reach [OF assms(1)] assms(3,4) by (simp add: ring_ok_def)
  have pos: "?L - ?k < ?L"
    using buffer_size_pos assms(2) by simp
  then have "hub_ring (w_hub w) = numbered_log (aux_log w) ! (?L - ?k) # drop (Suc (?L - ?k)) (numbered_log (aux_log w))"
    unfolding ring by (simp add: Cons_nth_drop_Suc)
  moreover have "ParseUint (ev_Cursor (numbered_log (aux_log w) ! (?L - ?k))) = Some (?L - ?k + 1)"
    using pos assms by (simp add: numbered_log_upt ParseUint_show)
  moreover have "(n + 1) mod 2 ^ 64 = n + 1"
    using assms by (intro mod_less) (simp add: max_u64_def)
  moreover have "filter (\<lambda>e. case ParseUint (ev_Cursor e) of None \<Rightarrow> False | Some c \<Rightarrow> c > n) (hub_ring (w_hub w)) = []"
    using assms by (auto simp: ring numbered_log_upt drop_map filter_empty_conv ParseUint_show)
  ultimately show ?thesis
    using pos assms show_nat_nonempty [of n] by (simp add: replay_def ParseUint_show)
qed

section \<open>What a subscriber is sent\<close>

definition passes :: "'e HubFilter \<Rightarrow> 'e HubEvent list \<Rightarrow> bool" where
  "passes allow es \<longleftrightarrow> list_all allow es"

definition reachable_targets :: "'e World \<Rightarrow> (nat \<times> 'e HubFilter) set" where
  "reachable_targets w = set (hub_subscribers (w_hub w)) \<union> \<Union> (set ` snd ` set (w_sending w))"

definition streams_ok :: "'e World \<Rightarrow> bool" where
  "streams_ok w \<longleftrightarrow>
     (\<forall>n. aux_opened w n = None \<longrightarrow> w_streams w n = None \<and> aux_received w n = []) \<and>
     (\<forall>n allow c. aux_opened w n = Some (allow, c) \<longrightarrow> n < hub_nextSubID (w_hub w) \<and> passes allow (aux_received w n) \<and>
        (\<exists>s. w_streams w n = Some s \<and> passes allow (st_queue s))) \<and>
     (\<forall>n allow. (n, allow) \<in> reachable_targets w \<longrightarrow> (\<exists>c. aux_opened w n = Some (allow, c))) \<and>
     (\<forall>s allow c. (s, allow, c) \<in> set (w_pending w) \<longrightarrow> passes allow (st_queue s))"

lemma opened_stream:
  "streams_ok w \<Longrightarrow> aux_opened w n = Some (allow, c) \<Longrightarrow> \<exists>s. w_streams w n = Some s \<and> passes allow (st_queue s)"
  unfolding streams_ok_def by blast

lemma stream_opened:
  "streams_ok w \<Longrightarrow> w_streams w n = Some s \<Longrightarrow>
     \<exists>allow c. aux_opened w n = Some (allow, c) \<and> passes allow (st_queue s) \<and> passes allow (aux_received w n)"
  unfolding streams_ok_def by (metis option.distinct(1) option.inject option.exhaust surj_pair)

lemma target_opened: "streams_ok w \<Longrightarrow> (n, allow) \<in> reachable_targets w \<Longrightarrow> \<exists>c. aux_opened w n = Some (allow, c)"
  unfolding streams_ok_def by blast

lemma open_stream_passes: "open_stream h since allow = (s, whole) \<Longrightarrow> passes allow (st_queue s)"
  by (auto simp: open_stream_def passes_def list_all_iff split: prod.splits)

lemma send_ok:
  assumes "streams_ok w" and "\<exists>c. aux_opened w n = Some (allow, c)"
  shows "streams_ok (send event (n, allow) w)"
proof -
  obtain c s where "aux_opened w n = Some (allow, c)" and s: "w_streams w n = Some s" "passes allow (st_queue s)"
    using assms opened_stream by blast
  then have "passes allow (st_queue s @ [event])" if "allow event"
    using that by (simp add: passes_def)
  then show ?thesis
    using assms(1) \<open>aux_opened w n = _\<close> s by (auto simp: streams_ok_def reachable_targets_def send_def)
qed

lemma streams_ok_step: "hub_step w w' \<Longrightarrow> streams_ok w \<Longrightarrow> streams_ok w'"
proof (induction rule: hub_step.induct)
  case (publish w body h event targets)
  then have "set targets = set (hub_subscribers (w_hub w))" "hub_subscribers h = hub_subscribers (w_hub w)" "hub_nextSubID h = hub_nextSubID (w_hub w)"
    by (auto simp: record_event_def Let_def dest: mset_eq_setD)
  then have "reachable_targets (w\<lparr>w_hub := h, w_sending := w_sending w @ [(event, targets)], aux_log := aux_log w @ [body]\<rparr>) = reachable_targets w"
    by (auto simp: reachable_targets_def)
  with publish \<open>hub_nextSubID h = _\<close> show ?case
    by (simp add: streams_ok_def)
next
  case (deliver w before event target targets after)
  let ?w = "w\<lparr>w_sending := before @ (event, targets) # after\<rparr>"
  have "reachable_targets ?w \<subseteq> reachable_targets w" and target: "target \<in> reachable_targets w"
    using deliver by (auto simp: reachable_targets_def)
  then have "streams_ok ?w"
    using deliver by (auto simp: streams_ok_def)
  moreover have "\<exists>c. aux_opened ?w (fst target) = Some (snd target, c)"
    using deliver target by (cases target) (simp add: streams_ok_def)
  ultimately show ?case
    using send_ok [of ?w "fst target" "snd target"] by simp
next
  case (subscribe w cursor allow s whole)
  then show ?case
    using open_stream_passes [OF subscribe(2)] by (auto simp: streams_ok_def reachable_targets_def)
next
  case (register w before s allow whole after n)
  have fresh: "aux_opened w n = None"
    using register by (cases "aux_opened w n") (auto simp: streams_ok_def)
  then have "aux_received w n = []" "passes allow (st_queue s)"
    using register by (auto simp: streams_ok_def)
  moreover have "(n, a) \<notin> reachable_targets w" for a
    using target_opened [of w n a] register fresh by auto
  ultimately show ?case
    using register fresh by (auto simp: streams_ok_def reachable_targets_def passes_def intro: less_SucI)
next
  case (cancel w n)
  then show ?case by (auto simp: streams_ok_def reachable_targets_def)
next
  case (close w n s)
  then show ?case
    using stream_opened [of w n s] by (auto simp: streams_ok_def reachable_targets_def)
next
  case (receive w n s event rest)
  then obtain allow c where opened: "aux_opened w n = Some (allow, c)" and "passes allow (st_queue s)" "passes allow (aux_received w n)"
    using stream_opened [of w n s] by auto
  then have "passes allow rest" "passes allow (aux_received w n @ [event])"
    using receive by (simp_all add: passes_def)
  then show ?case
    using receive opened by (auto simp: streams_ok_def reachable_targets_def)
qed


lemma streams_ok_reach: "hub_reach replayBuffer w \<Longrightarrow> streams_ok w"
proof (induction rule: hub_reach.induct)
  case start
  then show ?case by (simp add: streams_ok_def reachable_targets_def idle_world_def NewHub_def)
next
  case (step w w')
  then show ?case using streams_ok_step by blast
qed

section \<open>The stream of a signed-in caller\<close>

datatype StreamBody = WorkloadChanged string | DivisionChanged "string list" | OtherChange string

fun within_scope :: "Scope \<Rightarrow> StreamBody \<Rightarrow> bool" where
  "within_scope scope (WorkloadChanged namespace) = Scope_Allows scope namespace"
| "within_scope scope (DivisionChanged namespaces) = list_ex (Scope_Allows scope) namespaces"
| "within_scope scope (OtherChange _) = True"

text \<open>Without sessions, without a caller, or with every namespace allowed there is no filter: the hub then lets everything pass.\<close>

definition filterFor :: "(Actor \<Rightarrow> string + Scope) option \<Rightarrow> Actor option \<Rightarrow> string + StreamBody HubFilter option" where
  "filterFor sessions signed_in =
     (case (sessions, signed_in) of
        (Some scope_of, Some actor) \<Rightarrow>
          (case scope_of actor of
             Inl err \<Rightarrow> Inl err
           | Inr scope \<Rightarrow> Inr (if AllowAll scope then None else Some (\<lambda>event. within_scope scope (ev_Body event))))
      | _ \<Rightarrow> Inr None)"

definition filter_or_all :: "'e HubFilter option \<Rightarrow> 'e HubFilter" where
  "filter_or_all allow = (case allow of None \<Rightarrow> (\<lambda>_. True) | Some f \<Rightarrow> f)"

datatype StreamStart = Unauthorized | ScopeUnknown string | Streaming "StreamBody HubFilter" string

text \<open>The head of ServeHTTP: who may listen, with which filter, and from which cursor.\<close>

definition start_stream :: "bool \<Rightarrow> (Actor \<Rightarrow> string + Scope) option \<Rightarrow> Actor option \<Rightarrow> string \<Rightarrow> string \<Rightarrow> StreamStart" where
  "start_stream guarded sessions ctx last_event_id query_cursor =
     (if guarded \<and> FromContext ctx = None then Unauthorized
      else case filterFor sessions (FromContext ctx) of
        Inl err \<Rightarrow> ScopeUnknown err
      | Inr allow \<Rightarrow> Streaming (filter_or_all allow) (if last_event_id = [] then query_cursor else last_event_id))"

datatype StreamEventType = TYPE_UNSPECIFIED | TYPE_WORKLOAD_CHANGED | TYPE_DIVISION_CHANGED | TYPE_REQUEST_CHANGED
  | TYPE_DECISION_MADE | TYPE_PROJECTION_DEGRADED | TYPE_HEARTBEAT

fun eventName :: "StreamEventType \<Rightarrow> string" where
  "eventName TYPE_WORKLOAD_CHANGED = ''workload_changed''"
| "eventName TYPE_DIVISION_CHANGED = ''division_changed''"
| "eventName TYPE_REQUEST_CHANGED = ''request_changed''"
| "eventName TYPE_DECISION_MADE = ''decision_made''"
| "eventName TYPE_PROJECTION_DEGRADED = ''projection_degraded''"
| "eventName TYPE_HEARTBEAT = ''heartbeat''"
| "eventName TYPE_UNSPECIFIED = ''message''"

definition new_line :: string where "new_line = [CHR 0x0A]"

text \<open>The text of one event on the connection; a heartbeat and a resync carry no number.\<close>

definition writeEvent :: "string \<Rightarrow> string \<Rightarrow> string \<Rightarrow> string" where
  "writeEvent name cursor body =
     (if cursor = [] then [] else ''id: '' @ cursor @ new_line) @ ''event: '' @ name @ new_line @ ''data: '' @ body @ new_line @ new_line"



section \<open>Two races\<close>

text \<open>
  Publish sends after it has let go of the lock, to the streams it copied. A stream that is cancelled
  and closed in between is sent to when it is closed: the send panics and the process ends.
\<close>

lemma publishing_can_panic: "\<exists>w :: string World. hub_reach 0 w \<and> w_panic w"
proof -
  let ?all = "\<lambda>_ :: string HubEvent. True"
  let ?w0 = "idle_world 0 :: string World"
  let ?s = "\<lparr>st_capacity = 64, st_queue = [], st_closed = False\<rparr> :: string Stream"
  let ?e = "\<lparr>ev_Cursor = show_nat 1, ev_Body = ''job''\<rparr>"
  let ?w1 = "?w0\<lparr>w_pending := [(?s, ?all, True)]\<rparr>"
  let ?h2 = "(NewHub 0)\<lparr>hub_nextSubID := 1, hub_subscribers := [(0, ?all)]\<rparr>"
  let ?w2 = "?w0\<lparr>w_streams := [0 \<mapsto> ?s], aux_opened := [0 \<mapsto> (?all, True)], w_hub := ?h2\<rparr>"
  let ?h3 = "?h2\<lparr>hub_next := 1, hub_ring := [?e]\<rparr>"
  let ?w3 = "?w2\<lparr>w_hub := ?h3, w_sending := [(?e, [(0, ?all)])], aux_log := [''job'']\<rparr>"
  let ?w4 = "?w3\<lparr>w_hub := ?h3\<lparr>hub_subscribers := []\<rparr>, w_cancelled := [0]\<rparr>"
  let ?w5 = "?w4\<lparr>w_streams := [0 \<mapsto> ?s\<lparr>st_closed := True\<rparr>], w_cancelled := []\<rparr>"
  have "hub_step ?w0 ?w1"
    using hub_step.subscribe [of ?w0 "[]" ?all ?s True] by (simp add: open_stream_def replay_def idle_world_def)
  moreover have "hub_step ?w1 ?w2"
    using hub_step.register [of ?w1 "[]" ?s ?all True "[]" 0] by (simp add: idle_world_def NewHub_def)
  moreover have "hub_step ?w2 ?w3"
    using hub_step.publish [of ?w2 "''job''" ?h3 ?e "[(0, ?all)]"]
    by (simp add: idle_world_def NewHub_def record_event_def defaultReplayBuffer_def Let_def)
  moreover have "hub_step ?w3 ?w4"
    using hub_step.cancel [of ?w3 0] by (simp add: idle_world_def)
  moreover have "hub_step ?w4 ?w5"
    using hub_step.close [of ?w4 0 ?s] by (simp add: idle_world_def)
  moreover have "hub_step ?w5 (send ?e (0, ?all) (?w5\<lparr>w_sending := [(?e, [])]\<rparr>))"
    using hub_step.deliver [of ?w5 "[]" ?e "(0, ?all)" "[]" "[]"] by (simp add: idle_world_def)
  moreover have "w_panic (send ?e (0, ?all) (?w5\<lparr>w_sending := [(?e, [])]\<rparr>))"
    by (simp add: send_def idle_world_def)
  ultimately show ?thesis
    by (meson hub_reach.intros)
qed

text \<open>
  Subscribe reads the backlog before it registers. An event published in between is in neither: the
  answer says that nothing was missed, and the event is not sent any more.
\<close>

lemma subscribing_can_miss_an_event:
  "\<exists>(w :: string World) allow event. hub_reach 0 w \<and> aux_opened w 0 = Some (allow, True) \<and> event \<in> set (numbered_log (aux_log w)) \<and> allow event \<and>
     w_streams w 0 = Some \<lparr>st_capacity = 64, st_queue = [], st_closed = False\<rparr> \<and> aux_received w 0 = [] \<and> list_all (\<lambda>x. snd x = []) (w_sending w)"
proof -
  let ?all = "\<lambda>_ :: string HubEvent. True"
  let ?w0 = "idle_world 0 :: string World"
  let ?s = "\<lparr>st_capacity = 64, st_queue = [], st_closed = False\<rparr> :: string Stream"
  let ?e = "\<lparr>ev_Cursor = show_nat 1, ev_Body = ''job''\<rparr>"
  let ?w1 = "?w0\<lparr>w_pending := [(?s, ?all, True)]\<rparr>"
  let ?h2 = "(NewHub 0)\<lparr>hub_next := 1, hub_ring := [?e]\<rparr>"
  let ?w2 = "?w1\<lparr>w_hub := ?h2, w_sending := [(?e, [])], aux_log := [''job'']\<rparr>"
  let ?w3 = "?w2\<lparr>w_pending := [], w_streams := [0 \<mapsto> ?s], aux_opened := [0 \<mapsto> (?all, True)],
      w_hub := ?h2\<lparr>hub_nextSubID := 1, hub_subscribers := [(0, ?all)]\<rparr>\<rparr>"
  have "replay (NewHub 0 :: string Hub) (show_nat 0) = ([], True)"
    by (simp add: replay_def ParseUint_show max_u64_def NewHub_def)
  then have "open_stream (w_hub ?w0) (show_nat 0) ?all = (?s, True)"
    by (simp add: open_stream_def idle_world_def)
  then have "hub_step ?w0 ?w1"
    using hub_step.subscribe [of ?w0 "show_nat 0" ?all ?s True] by (simp add: idle_world_def)
  moreover have "hub_step ?w1 ?w2"
    using hub_step.publish [of ?w1 "''job''" ?h2 ?e "[]"] by (simp add: idle_world_def NewHub_def record_event_def defaultReplayBuffer_def Let_def)
  moreover have "hub_step ?w2 ?w3"
    using hub_step.register [of ?w2 "[]" ?s ?all True "[]" 0] by (simp add: idle_world_def NewHub_def)
  ultimately have "hub_reach 0 ?w3"
    by (blast intro: hub_reach.start hub_reach.step)
  then show ?thesis
    by (intro exI [of _ ?w3] exI [of _ ?all] exI [of _ ?e]) (simp add: idle_world_def numbered_log_def)
qed

section \<open>Examples\<close>

text \<open>A hub with room for two, after three events; and a stream that was handed one.\<close>

fun published :: "string list \<Rightarrow> string World \<Rightarrow> string World" where
  "published [] w = w"
| "published (b # bs) w =
     published bs (case record_event b (w_hub w) of (h, event) \<Rightarrow>
       w\<lparr>w_hub := h, w_sending := w_sending w @ [(event, hub_subscribers h)], aux_log := aux_log w @ [b]\<rparr>)"

lemma published_reach: "hub_reach k w \<Longrightarrow> \<not> w_panic w \<Longrightarrow> hub_reach k (published bs w) \<and> aux_log (published bs w) = aux_log w @ bs"
proof (induction bs arbitrary: w)
  case (Cons b bs)
  obtain h event where r: "record_event b (w_hub w) = (h, event)" by force
  then have "hub_step w (w\<lparr>w_hub := h, w_sending := w_sending w @ [(event, hub_subscribers h)], aux_log := aux_log w @ [b]\<rparr>)"
    using Cons.prems by (intro hub_step.publish) auto
  then show ?case
    using Cons.IH [OF hub_reach.step [OF Cons.prems(1)]] Cons.prems(2) r by simp
qed simp

theorem replay_gives_every_later_event_or_says_so_witness:
  "replay (w_hub (published [''a'', ''b'', ''c''] (idle_world 2))) (show_nat 1) =
     ([\<lparr>ev_Cursor = show_nat 2, ev_Body = ''b''\<rparr>, \<lparr>ev_Cursor = show_nat 3, ev_Body = ''c''\<rparr>], True) \<and>
   replay (w_hub (published [''a'', ''b'', ''c''] (idle_world 2))) (show_nat 0) = ([], False)"
proof -
  let ?w = "published [''a'', ''b'', ''c''] (idle_world 2)"
  have "hub_reach 2 ?w" and "aux_log (published [''a'', ''b'', ''c''] (idle_world 2)) = [''a'', ''b'', ''c'']"
    using published_reach [OF hub_reach.start, of 2 "[''a'', ''b'', ''c'']"] by (simp_all add: idle_world_def del: published.simps)
  moreover have "numbered_log [''a'', ''b'', ''c''] =
      [\<lparr>ev_Cursor = show_nat 1, ev_Body = ''a''\<rparr>, \<lparr>ev_Cursor = show_nat 2, ev_Body = ''b''\<rparr>, \<lparr>ev_Cursor = show_nat 3, ev_Body = ''c''\<rparr>]"
    by (simp add: numbered_log_def numeral_2_eq_2 numeral_3_eq_3 del: show_nat.simps)
  ultimately show ?thesis
    using replay_gives_every_later_event_or_says_so [of 2 ?w 1] replay_gives_every_later_event_or_says_so [of 2 ?w 0]
    by (simp add: buffer_size_def max_u64_def del: published.simps show_nat.simps)
qed

text \<open>A stream limited to the namespace shop, with one event of that namespace received.\<close>

definition shop_filter :: "StreamBody HubFilter" where
  "shop_filter = (\<lambda>event. within_scope \<lparr>AllowAll = False, sc_Namespaces = [''shop'']\<rparr> (ev_Body event))"

definition shop_event :: "StreamBody HubEvent" where
  "shop_event = \<lparr>ev_Cursor = show_nat 1, ev_Body = WorkloadChanged ''shop''\<rparr>"

lemma shop_run: "\<exists>w. hub_reach 0 w \<and> aux_opened w 0 = Some (shop_filter, True) \<and> aux_received w 0 = [shop_event]"
proof -
  let ?w0 = "idle_world 0 :: StreamBody World"
  let ?s = "\<lparr>st_capacity = 64, st_queue = [], st_closed = False\<rparr> :: StreamBody Stream"
  let ?w1 = "?w0\<lparr>w_pending := [(?s, shop_filter, True)]\<rparr>"
  let ?h2 = "(NewHub 0)\<lparr>hub_nextSubID := 1, hub_subscribers := [(0, shop_filter)]\<rparr>"
  let ?w2 = "?w0\<lparr>w_streams := [0 \<mapsto> ?s], aux_opened := [0 \<mapsto> (shop_filter, True)], w_hub := ?h2\<rparr>"
  let ?h3 = "?h2\<lparr>hub_next := 1, hub_ring := [shop_event]\<rparr>"
  let ?w3 = "?w2\<lparr>w_hub := ?h3, w_sending := [(shop_event, [(0, shop_filter)])], aux_log := [WorkloadChanged ''shop'']\<rparr>"
  let ?w4 = "?w3\<lparr>w_sending := [(shop_event, [])], w_streams := [0 \<mapsto> ?s\<lparr>st_queue := [shop_event]\<rparr>]\<rparr>"
  let ?w5 = "?w4\<lparr>w_streams := [0 \<mapsto> ?s], aux_received := (\<lambda>_. [])(0 := [shop_event])\<rparr>"
  have "shop_filter shop_event"
    by (simp add: shop_filter_def shop_event_def Scope_Allows_def)
  have s1: "hub_step ?w0 ?w1"
    using hub_step.subscribe [of ?w0 "[]" shop_filter ?s True] by (simp add: open_stream_def replay_def idle_world_def)
  have s2: "hub_step ?w1 ?w2"
    using hub_step.register [of ?w1 "[]" ?s shop_filter True "[]" 0] by (simp add: idle_world_def NewHub_def)
  have s3: "hub_step ?w2 ?w3"
    using hub_step.publish [of ?w2 "WorkloadChanged ''shop''" ?h3 shop_event "[(0, shop_filter)]"]
    by (simp add: idle_world_def NewHub_def record_event_def defaultReplayBuffer_def Let_def shop_event_def)
  have "send shop_event (0, shop_filter) (?w3\<lparr>w_sending := [(shop_event, [])]\<rparr>) = ?w4"
    using \<open>shop_filter shop_event\<close> by (simp add: send_def idle_world_def)
  then have s4: "hub_step ?w3 ?w4"
    using hub_step.deliver [of ?w3 "[]" shop_event "(0, shop_filter)" "[]" "[]"] by (simp add: idle_world_def)
  have s5: "hub_step ?w4 ?w5"
    using hub_step.receive [of ?w4 0 "?s\<lparr>st_queue := [shop_event]\<rparr>" shop_event "[]"] by (simp add: idle_world_def)
  note hub_reach.step [OF hub_reach.step [OF hub_reach.step [OF hub_reach.step [OF hub_reach.step [OF hub_reach.start s1] s2] s3] s4] s5]
  then show ?thesis
    by (intro exI [of _ ?w5]) (simp add: idle_world_def)
qed

definition shop_caller :: Actor where
  "shop_caller = \<lparr>ac_Subject = ''ann'', ac_Email = [], ac_Groups = [], ac_ActiveDivision = [], ac_Mode = AuthModeOIDC, ac_ExpiresAt = 0\<rparr>"


end
