(* ===== verification/Spec2Isabelle.thy ===== *)
theory Spec2Isabelle
  imports AuditService RequestController DecisionController EnvReconciler Attribution SignIn Access
    DecisionService Tenancy Biller CatalogService Topology EnvironmentService CostService EventHub
begin

text \<open>
  A verification development for marstack-govern.
\<close>

end
